(* ===== verification/Prelude.thy ===== *)
theory Prelude
  imports Main "HOL-Library.Word" "HOL-Library.Sublist"
begin

text \<open>
  Shared ground of the development: the names of the model's basic types, the lemma
  collections the component theories add to, and the generic facts on lists, options and
  fixed-width integers that several components use.

  Go's \<open>int\<close> and \<open>int64\<close> are 64 bits wide on every platform the program is built for, so
  they are \<open>64 word\<close> values read in two's complement; an \<open>error\<close> value is its message (a
  string), and a call that returns \<open>(T, error)\<close> returns a pair with an optional message.
\<close>

section \<open>Names of the model's types\<close>

type_synonym goint = "64 word"
type_synonym goerr = string
type_synonym gotime = int

text \<open>A \<open>map[string]string\<close> whose iteration order is observed is an association list.\<close>

type_synonym strmap = "(string \<times> string) list"

section \<open>Lemma collections\<close>

named_theorems go_str \<open>evaluation of the string operations\<close>
named_theorems go_wf \<open>introduction rules of the well-formedness invariants\<close>

section \<open>Signed 64-bit comparison\<close>

definition int_lt :: "goint \<Rightarrow> goint \<Rightarrow> bool" where
  "int_lt a b \<longleftrightarrow> sint a < sint b"

definition int_le :: "goint \<Rightarrow> goint \<Rightarrow> bool" where
  "int_le a b \<longleftrightarrow> sint a \<le> sint b"

lemma int_le_refl [simp]: "int_le a a"
  by (simp add: int_le_def)

lemma int_not_le: "\<not> int_le a b \<longleftrightarrow> int_lt b a"
  by (auto simp: int_le_def int_lt_def)

definition fits64 :: "int \<Rightarrow> bool" where
  "fits64 x \<longleftrightarrow> - (2 ^ 63) \<le> x \<and> x < 2 ^ 63"

lemma sint_add_fits:
  fixes a b :: goint
  assumes "fits64 (sint a + sint b)"
  shows "sint (a + b) = sint a + sint b"
proof -
  have "sint (a + b) = signed_take_bit 63 (sint a + sint b)"
    by (simp add: sint_word_ariths(1))
  also have "\<dots> = sint a + sint b"
    using assms by (intro signed_take_bit_int_eq_self) (auto simp: fits64_def)
  finally show ?thesis .
qed

lemma fits64_sint: "fits64 (sint (a :: goint))"
  using sint_ge [of a] sint_lt [of a] by (simp add: fits64_def)

section \<open>Lists\<close>

fun list_sum64 :: "goint list \<Rightarrow> goint" where
  "list_sum64 [] = 0"
| "list_sum64 (x # xs) = x + list_sum64 xs"

lemma list_sum64_append [simp]: "list_sum64 (xs @ ys) = list_sum64 xs + list_sum64 ys"
  by (induction xs) (auto simp: algebra_simps)

lemma list_sum64_eq: "list_sum64 xs = sum_list xs"
  by (induction xs) simp_all

text \<open>A counter that a loop threads through \<open>for i, x := range xs\<close>.\<close>

fun enum_from :: "nat \<Rightarrow> 'a list \<Rightarrow> (nat \<times> 'a) list" where
  "enum_from n [] = []"
| "enum_from n (x # xs) = (n, x) # enum_from (Suc n) xs"

lemma enum_from_eq: "enum_from n xs = enumerate n xs"
  by (induction xs arbitrary: n) simp_all

lemma length_enum_from [simp]: "length (enum_from n xs) = length xs"
  by (simp add: enum_from_eq)

lemma map_snd_enum_from [simp]: "map snd (enum_from n xs) = xs"
  by (simp add: enum_from_eq)

lemma map_enum_from_snd [simp]: "map (\<lambda>(i, x). f x) (enum_from n xs) = map f xs"
  by (induction xs arbitrary: n) auto

lemma map_comp_snd_enum_from [simp]: "map (f \<circ> snd) (enum_from n xs) = map f xs"
  by (induction xs arbitrary: n) auto

lemma snd_in_enum_from: "(i, x) \<in> set (enum_from n xs) \<Longrightarrow> x \<in> set xs"
  by (induction xs arbitrary: n) auto

lemma in_enum_fromI: "x \<in> set xs \<Longrightarrow> \<exists>i. (i, x) \<in> set (enum_from n xs)"
  by (induction xs arbitrary: n) fastforce+

section \<open>Reachable states and inductive invariants\<close>

text \<open>
  The state machines of the program (the event broker, the lifecycle manager, the server)
  are given by an initial predicate and a step relation; the contract of an invariant is
  stated once, as a locale, and interpreted by each of them.
\<close>

inductive reach :: "('s \<Rightarrow> bool) \<Rightarrow> ('s \<Rightarrow> 's \<Rightarrow> bool) \<Rightarrow> 's \<Rightarrow> bool"
  for ini :: "'s \<Rightarrow> bool" and step :: "'s \<Rightarrow> 's \<Rightarrow> bool" where
  reach_init: "ini s \<Longrightarrow> reach ini step s"
| reach_step: "reach ini step s \<Longrightarrow> step s t \<Longrightarrow> reach ini step t"

locale inductive_invariant =
  fixes ini :: "'s \<Rightarrow> bool"
    and step :: "'s \<Rightarrow> 's \<Rightarrow> bool"
    and inv :: "'s \<Rightarrow> bool"
  assumes inv_start: "ini s \<Longrightarrow> inv s"
    and inv_kept: "inv s \<Longrightarrow> step s t \<Longrightarrow> inv t"
begin

lemma inv_reach: "reach ini step s \<Longrightarrow> inv s"
  by (induction rule: reach.induct) (auto intro: inv_start inv_kept)

lemma inv_rtranclp: "step\<^sup>*\<^sup>* s t \<Longrightarrow> inv s \<Longrightarrow> inv t"
  by (induction rule: rtranclp_induct) (auto intro: inv_kept)

end

end
