(* ===== verification/GoStrings.thy ===== *)
theory GoStrings
  imports Prelude
begin

text \<open>
  The string functions of the Go standard library that the program calls. A Go string is a
  sequence of bytes, and so is a \<open>string\<close> here: a \<open>char\<close> is one byte, and a character outside
  ASCII is its UTF-8 bytes.
\<close>

section \<open>Prefixes, suffixes, joining, splitting\<close>

definition has_prefix :: "string \<Rightarrow> string \<Rightarrow> bool" where
  "has_prefix s p \<longleftrightarrow> take (length p) s = p"

definition has_suffix :: "string \<Rightarrow> string \<Rightarrow> bool" where
  "has_suffix s p \<longleftrightarrow> length p \<le> length s \<and> drop (length s - length p) s = p"

definition trim_prefix :: "string \<Rightarrow> string \<Rightarrow> string" where
  "trim_prefix s p = (if has_prefix s p then drop (length p) s else s)"

lemma has_prefix_iff: "has_prefix s p \<longleftrightarrow> prefix p s"
  unfolding has_prefix_def by (metis append_eq_conv_conj prefix_def)

fun str_join :: "string list \<Rightarrow> string \<Rightarrow> string" where
  "str_join [] sep = []"
| "str_join [x] sep = x"
| "str_join (x # y # xs) sep = x @ sep @ str_join (y # xs) sep"

text \<open>\<open>strings.Split\<close> on a one-byte separator.\<close>

fun str_split :: "char \<Rightarrow> string \<Rightarrow> string list" where
  "str_split c [] = [[]]"
| "str_split c (x # xs) =
     (if x = c then [] # str_split c xs
      else (case str_split c xs of [] \<Rightarrow> [[x]] | y # ys \<Rightarrow> (x # y) # ys))"

text \<open>\<open>strings.SplitN(s, sep, 2)\<close> on a one-byte separator.\<close>

fun str_split2 :: "char \<Rightarrow> string \<Rightarrow> string list" where
  "str_split2 c [] = [[]]"
| "str_split2 c (x # xs) =
     (if x = c then [[], xs]
      else (case str_split2 c xs of [] \<Rightarrow> [[x]] | y # ys \<Rightarrow> (x # y) # ys))"

fun str_contains :: "string \<Rightarrow> string \<Rightarrow> bool" where
  "str_contains [] p = (p = [])"
| "str_contains (x # xs) p = (has_prefix (x # xs) p \<or> str_contains xs p)"

lemma str_split_ne [simp]: "str_split c s \<noteq> []"
  by (induction s) (auto split: list.splits)

lemma str_split2_ne [simp]: "str_split2 c s \<noteq> []"
  by (induction s) (auto split: list.splits)

lemma str_join_Cons: "xs \<noteq> [] \<Longrightarrow> str_join (x # xs) sep = x @ sep @ str_join xs sep"
  by (cases xs) auto

lemma str_join_str_split: "str_join (str_split c s) [c] = s"
proof (induction s)
  case (Cons x xs)
  show ?case
  proof (cases "x = c")
    case True
    with Cons show ?thesis by (simp add: str_join_Cons)
  next
    case False
    obtain y ys where y: "str_split c xs = y # ys"
      by (cases "str_split c xs") auto
    with False Cons show ?thesis by (cases ys) auto
  qed
qed simp

lemma str_split2_cases:
  "str_split2 c s = (if c \<in> set s
     then [takeWhile (\<lambda>x. x \<noteq> c) s, tl (dropWhile (\<lambda>x. x \<noteq> c) s)] else [s])"
  by (induction s) auto

section \<open>White space: \<open>unicode.IsSpace\<close> on UTF-8 bytes\<close>

text \<open>
  The white-space characters of \<open>unicode.IsSpace\<close>: six of ASCII, two of two bytes (U+0085,
  U+00A0) and the three-byte ones (U+1680, U+2000 to U+200A, U+2028, U+2029, U+202F,
  U+205F, U+3000). \<open>strings.TrimSpace\<close> decodes runes from either end; a rune decodes to
  one of these exactly when its bytes are one of these sequences.
\<close>

definition space1 :: "char \<Rightarrow> bool" where
  "space1 c \<longleftrightarrow> c = CHR 0x20 \<or> c = CHR 0x09 \<or> c = CHR 0x0A \<or> c = CHR 0x0B \<or> c = CHR 0x0C
     \<or> c = CHR 0x0D"

definition space2 :: "char \<Rightarrow> char \<Rightarrow> bool" where
  "space2 c d \<longleftrightarrow> c = CHR 0xC2 \<and> (d = CHR 0x85 \<or> d = CHR 0xA0)"

definition space3 :: "char \<Rightarrow> char \<Rightarrow> char \<Rightarrow> bool" where
  "space3 c d e \<longleftrightarrow>
     c = CHR 0xE1 \<and> d = CHR 0x9A \<and> e = CHR 0x80
   \<or> c = CHR 0xE2 \<and> d = CHR 0x80 \<and>
       (0x80 \<le> (of_char e :: nat) \<and> (of_char e :: nat) \<le> 0x8A
        \<or> e = CHR 0xA8 \<or> e = CHR 0xA9 \<or> e = CHR 0xAF)
   \<or> c = CHR 0xE2 \<and> d = CHR 0x81 \<and> e = CHR 0x9F
   \<or> c = CHR 0xE3 \<and> d = CHR 0x80 \<and> e = CHR 0x80"

text \<open>The number of bytes of the white-space rune a string starts with, 0 if none.\<close>

fun lead_space :: "string \<Rightarrow> nat" where
  "lead_space (c # s) =
     (if space1 c then 1
      else case s of
        [] \<Rightarrow> 0
      | d # s' \<Rightarrow>
          (if space2 c d then 2
           else case s' of [] \<Rightarrow> 0 | e # _ \<Rightarrow> (if space3 c d e then 3 else 0)))"
| "lead_space [] = 0"

text \<open>The same from the right end: the string is given reversed.\<close>

fun trail_space :: "string \<Rightarrow> nat" where
  "trail_space (c # s) =
     (if space1 c then 1
      else case s of
        [] \<Rightarrow> 0
      | d # s' \<Rightarrow>
          (if space2 d c then 2
           else case s' of [] \<Rightarrow> 0 | e # _ \<Rightarrow> (if space3 e d c then 3 else 0)))"
| "trail_space [] = 0"

lemma lead_space_pos: "0 < lead_space s \<Longrightarrow> s \<noteq> []"
  by (cases s) auto

lemma trail_space_pos: "0 < trail_space s \<Longrightarrow> s \<noteq> []"
  by (cases s) auto

function trim_left :: "string \<Rightarrow> string" where
  "trim_left s = (if lead_space s = 0 then s else trim_left (drop (lead_space s) s))"
  by pat_completeness auto
termination
  by (relation "measure length") (auto intro!: diff_less dest: lead_space_pos)

function trim_rev :: "string \<Rightarrow> string" where
  "trim_rev s = (if trail_space s = 0 then s else trim_rev (drop (trail_space s) s))"
  by pat_completeness auto
termination
  by (relation "measure length") (auto intro!: diff_less dest: trail_space_pos)

declare trim_left.simps [simp del] trim_rev.simps [simp del]

definition trim_right :: "string \<Rightarrow> string" where
  "trim_right s = rev (trim_rev (rev s))"

definition trim_space :: "string \<Rightarrow> string" where
  "trim_space s = trim_right (trim_left s)"

lemmas trim_evals = trim_space_def trim_right_def trim_left.simps trim_rev.simps
  space1_def space2_def space3_def

declare trim_evals [go_str]

lemma trim_left_suffix: "suffix (trim_left s) s"
proof (induction s rule: trim_left.induct)
  case (1 s)
  show ?case
  proof (cases "lead_space s = 0")
    case True
    then show ?thesis by (simp add: trim_left.simps [of s])
  next
    case False
    with 1 show ?thesis
      by (simp add: trim_left.simps [of s]) (meson suffix_drop suffix_order.trans)
  qed
qed

lemma trim_rev_suffix: "suffix (trim_rev s) s"
proof (induction s rule: trim_rev.induct)
  case (1 s)
  show ?case
  proof (cases "trail_space s = 0")
    case True
    then show ?thesis by (simp add: trim_rev.simps [of s])
  next
    case False
    with 1 show ?thesis
      by (simp add: trim_rev.simps [of s]) (meson suffix_drop suffix_order.trans)
  qed
qed

lemma trim_right_prefix: "prefix (trim_right s) s"
  using trim_rev_suffix [of "rev s"] by (simp add: trim_right_def suffix_to_prefix)

lemma set_trim_space: "set (trim_space s) \<subseteq> set s"
  using trim_left_suffix [of s] trim_right_prefix [of "trim_left s"]
  by (metis set_mono_prefix set_mono_suffix subset_trans trim_space_def)

lemma lead_space_trim_left [simp]: "lead_space (trim_left s) = 0"
proof (induction s rule: trim_left.induct)
  case (1 s)
  then show ?case by (cases "lead_space s = 0") (simp_all add: trim_left.simps [of s])
qed

lemma trail_space_trim_rev [simp]: "trail_space (trim_rev s) = 0"
proof (induction s rule: trim_rev.induct)
  case (1 s)
  then show ?case by (cases "trail_space s = 0") (simp_all add: trim_rev.simps [of s])
qed

lemma lead_space_prefix: "prefix p s \<Longrightarrow> lead_space s = 0 \<Longrightarrow> lead_space p = 0"
proof (induction p rule: lead_space.induct)
  case (1 c p)
  then show ?case
    by (auto simp: prefix_def split: list.splits if_splits)
qed simp

lemma trim_left_id: "lead_space s = 0 \<Longrightarrow> trim_left s = s"
  by (simp add: trim_left.simps)

lemma trim_right_id: "trail_space (rev s) = 0 \<Longrightarrow> trim_right s = s"
  by (simp add: trim_right_def trim_rev.simps)

lemma lead_space_trim_space [simp]: "lead_space (trim_space s) = 0"
  unfolding trim_space_def
  by (rule lead_space_prefix [OF trim_right_prefix]) simp

lemma trail_space_trim_space [simp]: "trail_space (rev (trim_space s)) = 0"
  by (simp add: trim_space_def trim_right_def)

lemma trim_space_idem [simp]: "trim_space (trim_space s) = trim_space s"
proof -
  have "trim_left (trim_space s) = trim_space s"
    by (rule trim_left_id) simp
  then have "trim_space (trim_space s) = trim_right (trim_space s)"
    by (simp only: trim_space_def [of "trim_space s"])
  then show ?thesis by (simp add: trim_right_id)
qed

lemma trim_space_Nil [simp]: "trim_space [] = []"
  by (simp add: trim_space_def trim_right_def trim_left.simps trim_rev.simps)

lemma length_trim_space: "length (trim_space s) \<le> length s"
  using trim_left_suffix [of s] trim_right_prefix [of "trim_left s"]
  by (metis le_trans prefix_length_le suffix_length_le trim_space_def)

text \<open>Trimming only removes white space: a printable ASCII character is never lost.\<close>

definition graphic :: "char \<Rightarrow> bool" where
  "graphic c \<longleftrightarrow> \<not> space1 c \<and> of_char c < (0x80 :: nat)"

lemma take_lead_space: "x \<in> set (take (lead_space s) s) \<Longrightarrow> \<not> graphic x"
  by (induction s rule: lead_space.induct)
    (auto simp: graphic_def space2_def space3_def split: list.splits if_splits)

lemma take_trail_space: "x \<in> set (take (trail_space s) s) \<Longrightarrow> \<not> graphic x"
  by (induction s rule: trail_space.induct)
    (auto simp: graphic_def space2_def space3_def split: list.splits if_splits)

lemma in_set_drop: "x \<in> set s \<Longrightarrow> x \<notin> set (take n s) \<Longrightarrow> x \<in> set (drop n s)"
  by (metis Un_iff append_take_drop_id set_append)

lemma trim_left_keeps: "x \<in> set s \<Longrightarrow> graphic x \<Longrightarrow> x \<in> set (trim_left s)"
  by (induction s rule: trim_left.induct)
    (subst trim_left.simps, auto dest: take_lead_space intro: in_set_drop)

lemma trim_rev_keeps: "x \<in> set s \<Longrightarrow> graphic x \<Longrightarrow> x \<in> set (trim_rev s)"
  by (induction s rule: trim_rev.induct)
    (subst trim_rev.simps, auto dest: take_trail_space intro: in_set_drop)

lemma trim_space_keeps: "x \<in> set s \<Longrightarrow> graphic x \<Longrightarrow> x \<in> set (trim_space s)"
  using trim_rev_keeps [of x "rev (trim_left s)"] trim_left_keeps [of x s]
  by (simp add: trim_space_def trim_right_def)

text \<open>\<open>strings.Fields\<close>: the maximal runs without white space.\<close>

function str_fields_from :: "string \<Rightarrow> string \<Rightarrow> string list" where
  "str_fields_from cur [] = (if cur = [] then [] else [cur])"
| "str_fields_from cur (c # s) =
     (if lead_space (c # s) = 0 then str_fields_from (cur @ [c]) s
      else (if cur = [] then [] else [cur])
             @ str_fields_from [] (drop (lead_space (c # s)) (c # s)))"
  by pat_completeness auto
termination
  by (relation "measure (\<lambda>(cur, s). length s)") (auto split: if_splits list.splits)

declare str_fields_from.simps(2) [simp del]

definition str_fields :: "string \<Rightarrow> string list" where
  "str_fields s = str_fields_from [] s"

lemma str_fields_from_ne: "x \<in> set (str_fields_from cur s) \<Longrightarrow> x \<noteq> []"
proof (induction cur s rule: str_fields_from.induct)
  case (2 cur c s)
  then show ?case by (auto simp: str_fields_from.simps(2) split: if_splits)
qed (auto split: if_splits)

section \<open>Case folding\<close>

text \<open>
  \<open>strings.ToLower\<close> as the program uses it: its result is only compared with, or searched
  for, ASCII text. The ASCII letters fold as usual; of the other characters only two have
  an ASCII lower case, U+0130 (to \<open>i\<close>) and U+212A (to \<open>k\<close>); the rest fold to characters
  outside ASCII, so their bytes are kept and no such comparison can tell.
\<close>

definition lower1 :: "char \<Rightarrow> char" where
  "lower1 c = (if 0x41 \<le> (of_char c :: nat) \<and> (of_char c :: nat) \<le> 0x5A
     then char_of ((of_char c :: nat) + 0x20) else c)"

fun to_lower :: "string \<Rightarrow> string" where
  "to_lower [] = []"
| "to_lower (c # s) =
     (case s of
        d # s' \<Rightarrow>
          (if c = CHR 0xC4 \<and> d = CHR 0xB0 then CHR ''i'' # to_lower s'
           else case s' of
             e # s'' \<Rightarrow>
               (if c = CHR 0xE2 \<and> d = CHR 0x84 \<and> e = CHR 0xAA then CHR ''k'' # to_lower s''
                else lower1 c # to_lower s)
           | [] \<Rightarrow> lower1 c # to_lower s)
      | [] \<Rightarrow> [lower1 c])"

declare lower1_def [go_str]

section \<open>Decimal numbers\<close>

definition digit_char :: "nat \<Rightarrow> char" where
  "digit_char d = char_of (48 + d)"

fun nat_str :: "nat \<Rightarrow> string" where
  "nat_str n = (if n < 10 then [digit_char n] else nat_str (n div 10) @ [digit_char (n mod 10)])"

declare nat_str.simps [simp del]

definition int_str :: "int \<Rightarrow> string" where
  "int_str i = (if i < 0 then ''-'' @ nat_str (nat (- i)) else nat_str (nat i))"

definition goint_str :: "goint \<Rightarrow> string" where
  "goint_str i = int_str (sint i)"

definition digit_val :: "char \<Rightarrow> nat" where
  "digit_val c = of_char c - 48"

definition nat_of_str :: "string \<Rightarrow> nat" where
  "nat_of_str s = foldl (\<lambda>n c. 10 * n + digit_val c) 0 s"

lemma nat_of_str_snoc: "nat_of_str (s @ [c]) = 10 * nat_of_str s + digit_val c"
  by (simp add: nat_of_str_def)

lemma digit_val_char: "d < 10 \<Longrightarrow> digit_val (digit_char d) = d"
  by (simp add: digit_val_def digit_char_def of_char_of)

lemma nat_of_str_nat_str: "nat_of_str (nat_str n) = n"
proof (induction n rule: nat_str.induct)
  case (1 n)
  show ?case
  proof (cases "n < 10")
    case True
    then have "nat_str n = [] @ [digit_char n]" by (simp add: nat_str.simps [of n])
    then show ?thesis
      using True by (simp only: nat_of_str_snoc) (simp add: nat_of_str_def digit_val_char)
  next
    case False
    then have "nat_str n = nat_str (n div 10) @ [digit_char (n mod 10)]"
      by (simp add: nat_str.simps [of n])
    then show ?thesis
      using False 1 by (simp add: nat_of_str_snoc digit_val_char)
  qed
qed

lemma nat_str_inject [simp]: "nat_str m = nat_str n \<longleftrightarrow> m = n"
  by (metis nat_of_str_nat_str)

section \<open>Runes: \<open>utf8.DecodeRuneInString\<close>\<close>

definition rune_error :: nat where
  "rune_error = 0xFFFD"

definition cont_byte :: "char \<Rightarrow> bool" where
  "cont_byte c \<longleftrightarrow> 0x80 \<le> (of_char c :: nat) \<and> (of_char c :: nat) \<le> 0xBF"

definition byte_in :: "nat \<Rightarrow> nat \<Rightarrow> char \<Rightarrow> bool" where
  "byte_in lo hi c \<longleftrightarrow> lo \<le> of_char c \<and> of_char c \<le> hi"

text \<open>The rune a string starts with and its size; \<open>(RuneError, 1)\<close> on an invalid byte.\<close>

definition decode_rune :: "string \<Rightarrow> nat \<times> nat" where
  "decode_rune s =
    (case s of
       [] \<Rightarrow> (rune_error, 0)
     | b0 # s0 \<Rightarrow>
        (let x = (of_char b0 :: nat) in
         if x < 0x80 then (x, 1)
         else if 0xC2 \<le> x \<and> x \<le> 0xDF then
           (case s0 of
              b1 # _ \<Rightarrow> (if cont_byte b1 then ((x - 0xC0) * 64 + (of_char b1 - 0x80), 2)
                        else (rune_error, 1))
            | [] \<Rightarrow> (rune_error, 1))
         else if 0xE0 \<le> x \<and> x \<le> 0xEF then
           (case s0 of
              b1 # b2 # _ \<Rightarrow>
                (if byte_in (if x = 0xE0 then 0xA0 else 0x80) (if x = 0xED then 0x9F else 0xBF) b1
                    \<and> cont_byte b2
                 then ((x - 0xE0) * 4096 + (of_char b1 - 0x80) * 64 + (of_char b2 - 0x80), 3)
                 else (rune_error, 1))
            | _ \<Rightarrow> (rune_error, 1))
         else if 0xF0 \<le> x \<and> x \<le> 0xF4 then
           (case s0 of
              b1 # b2 # b3 # _ \<Rightarrow>
                (if byte_in (if x = 0xF0 then 0x90 else 0x80) (if x = 0xF4 then 0x8F else 0xBF) b1
                    \<and> cont_byte b2 \<and> cont_byte b3
                 then ((x - 0xF0) * 262144 + (of_char b1 - 0x80) * 4096
                         + (of_char b2 - 0x80) * 64 + (of_char b3 - 0x80), 4)
                 else (rune_error, 1))
            | _ \<Rightarrow> (rune_error, 1))
         else (rune_error, 1)))"

lemma decode_rune_size: "s \<noteq> [] \<Longrightarrow> 1 \<le> snd (decode_rune s) \<and> snd (decode_rune s) \<le> length s"
  by (auto simp: decode_rune_def Let_def split: list.splits)

lemma decode_rune_ascii: "of_char c < (0x80 :: nat) \<Longrightarrow> decode_rune (c # s) = (of_char c, 1)"
  by (simp add: decode_rune_def)

text \<open>The bytes of a rune outside ASCII are all outside ASCII.\<close>

lemma high_bytes: "cont_byte b \<Longrightarrow> 0x80 \<le> (of_char b :: nat)"
  "byte_in lo hi b \<Longrightarrow> 0x80 \<le> lo \<Longrightarrow> 0x80 \<le> (of_char b :: nat)"
  by (simp_all add: cont_byte_def byte_in_def)

lemma decode_rune_high:
  assumes "0x80 \<le> (of_char c :: nat)" and "x \<in> set (take (snd (decode_rune (c # s))) (c # s))"
  shows "0x80 \<le> (of_char x :: nat)"
proof -
  consider "s = []" | b1 where "s = [b1]" | b1 b2 where "s = [b1, b2]"
    | b1 b2 b3 s' where "s = b1 # b2 # b3 # s'"
    by (metis neq_Nil_conv)
  then show ?thesis
    by cases (use assms in \<open>auto simp: decode_rune_def Let_def dest: high_bytes split: if_splits\<close>)
qed

end
