(* ===== verification/Playbook.thy ===== *)
theory Playbook
  imports GoStrings
begin

text \<open>
  The playbook: the data model of \<open>playbook/playbook_types.go\<close> with its getters, and the
  elevation statistics of \<open>playbook/playbook_elevation.go\<close>. A Go pointer that may be nil is
  an \<open>option\<close>, a slice is a list, and a record's fields carry the first letter of the struct
  they belong to. Counts of slice elements are \<open>nat\<close>; scores and exit codes are 64-bit
  integers.
\<close>

section \<open>Data\<close>

text \<open>A decoded \<open>interface{}\<close> value (frontmatter of a playbook, values gathered by scripts).\<close>

datatype anyval =
    ANil
  | ABool bool
  | AInt int
  | AFloat string
  | AStr string
  | AList "anyval list"
  | AMap "(string \<times> anyval) list"

record gather_spec =
  g_key :: string
  g_excludeFromReport :: bool
  g_regex :: string
  g_includeStdErr :: "bool option"
  g_func :: string
  g_funcFile :: string

definition gather_include_stderr :: "gather_spec \<Rightarrow> bool" where
  "gather_include_stderr g = (case g_includeStdErr g of None \<Rightarrow> False | Some b \<Rightarrow> b)"

record evaluation_rule =
  r_regex :: string
  r_includeStdErr :: "bool option"
  r_func :: string
  r_funcFile :: string

definition rule_include_stderr :: "evaluation_rule \<Rightarrow> bool" where
  "rule_include_stderr r = (case r_includeStdErr r of None \<Rightarrow> False | Some b \<Rightarrow> b)"

record exit_code_rule =
  x_min :: "goint option"
  x_max :: "goint option"
  x_result :: goint

record exec =
  e_shell :: string
  e_shellFunc :: string
  e_shellFuncFile :: string
  e_script :: string
  e_scriptFileExtension :: string
  e_func :: string
  e_funcFile :: string
  e_gather :: "gather_spec list"
  e_excludeFromReport :: bool
  e_requireElevation :: bool

record cmd =
  c_exec :: exec
  c_passScore :: "goint option"
  c_failScore :: "goint option"
  c_stdOutRule :: evaluation_rule
  c_stdErrRule :: evaluation_rule
  c_exitCodeRules :: "exit_code_rule list"

definition get_pass_score :: "cmd \<Rightarrow> goint" where
  "get_pass_score c = (case c_passScore c of None \<Rightarrow> 1 | Some v \<Rightarrow> v)"

definition get_fail_score :: "cmd \<Rightarrow> goint" where
  "get_fail_score c = (case c_failScore c of None \<Rightarrow> -1 | Some v \<Rightarrow> v)"

record assertion =
  a_code :: string
  a_title :: string
  a_description :: string
  a_preCmds :: "exec list"
  a_cmds :: "cmd list"
  a_postCmds :: "exec list"
  a_minPassingScore :: "goint option"
  a_passDescription :: string
  a_failDescription :: string

definition get_min_passing_score :: "assertion \<Rightarrow> goint" where
  "get_min_passing_score a =
    (case a_minPassingScore a of
       Some m \<Rightarrow> m
     | None \<Rightarrow>
        (let s = foldl (\<lambda>acc c. acc + get_pass_score c) 0 (a_cmds a)
         in if s = 0 then 1 else s))"

record pb_section =
  s_title :: string
  s_description :: "string list"
  s_assertions :: "assertion list"

text \<open>\<open>ReportDestinationConfig\<close>; the two string enumerations stay strings, as in Go.\<close>

record dest_config =
  d_url :: string
  d_format :: string
  d_signatureSecret :: string
  d_additionalHeaders :: strmap

definition report_destination_folder :: string where
  "report_destination_folder = ''folder''"

definition report_destination_https :: string where
  "report_destination_https = ''https''"

definition report_format_multipart :: string where
  "report_format_multipart = ''multipart''"

definition report_format_json :: string where
  "report_format_json = ''json''"

lemmas playbook_enums = report_destination_folder_def report_destination_https_def
  report_format_multipart_def report_format_json_def

record playbook =
  p_title :: string
  p_reportFrontmatter :: "(string \<rightharpoonup> anyval) option"
  p_sections :: "pb_section list"
  p_reportDestination :: string
  p_reportDestinationFolder :: string
  p_reportDestinationHTTPS :: "dest_config option"

text \<open>The assertions of a playbook in execution order, and the executions of an assertion.\<close>

definition all_assertions :: "playbook \<Rightarrow> assertion list" where
  "all_assertions p = concat (map s_assertions (p_sections p))"

definition assertion_execs :: "assertion \<Rightarrow> exec list" where
  "assertion_execs a = a_preCmds a @ map c_exec (a_cmds a) @ a_postCmds a"

section \<open>Scores\<close>

lemma foldl_pass_score:
  "foldl (\<lambda>acc c. acc + get_pass_score c) s cs = s + list_sum64 (map get_pass_score cs)"
  by (induction cs arbitrary: s) (auto simp: algebra_simps)

lemma get_min_passing_score_default:
  "a_minPassingScore a = None \<Longrightarrow>
   get_min_passing_score a =
     (if list_sum64 (map get_pass_score (a_cmds a)) = 0 then 1
      else list_sum64 (map get_pass_score (a_cmds a)))"
  by (simp add: get_min_passing_score_def foldl_pass_score Let_def)

section \<open>Elevation statistics\<close>

text \<open>
  The loop state of \<open>ElevationStats\<close>: the commands counted so far and the two sets of
  indices it collects.
\<close>

record elev_acc =
  el_cmds :: nat
  el_secs :: "nat set"
  el_asss :: "(nat \<times> nat) set"

definition elev_exec :: "nat \<Rightarrow> nat \<Rightarrow> exec \<Rightarrow> elev_acc \<Rightarrow> elev_acc" where
  "elev_exec sIdx aIdx e acc =
     (if e_requireElevation e
      then acc\<lparr>el_cmds := Suc (el_cmds acc), el_secs := insert sIdx (el_secs acc),
               el_asss := insert (sIdx, aIdx) (el_asss acc)\<rparr>
      else acc)"

definition elev_assertion :: "nat \<Rightarrow> nat \<times> assertion \<Rightarrow> elev_acc \<Rightarrow> elev_acc" where
  "elev_assertion sIdx ia acc =
     (case ia of (aIdx, ass) \<Rightarrow>
        fold (elev_exec sIdx aIdx) (a_postCmds ass)
          (fold (\<lambda>c. elev_exec sIdx aIdx (c_exec c)) (a_cmds ass)
            (fold (elev_exec sIdx aIdx) (a_preCmds ass) acc)))"

definition elev_section :: "nat \<times> pb_section \<Rightarrow> elev_acc \<Rightarrow> elev_acc" where
  "elev_section ix acc =
     (case ix of (sIdx, sec) \<Rightarrow>
        fold (elev_assertion sIdx) (enum_from 0 (s_assertions sec)) acc)"

definition elevation_stats :: "playbook option \<Rightarrow> nat \<times> nat \<times> nat \<times> bool" where
  "elevation_stats po =
     (case po of
        None \<Rightarrow> (0, 0, 0, False)
      | Some p \<Rightarrow>
         (let acc = fold elev_section (enum_from 0 (p_sections p))
                      \<lparr>el_cmds = 0, el_secs = {}, el_asss = {}\<rparr>
          in (card (el_secs acc), card (el_asss acc), el_cmds acc, 0 < el_cmds acc)))"

definition requires_elevation :: "playbook option \<Rightarrow> bool" where
  "requires_elevation po =
     (case po of None \<Rightarrow> False | Some p \<Rightarrow> snd (snd (snd (elevation_stats po))))"

text \<open>What the loop counts: the elevated executions below an index, and where they are.\<close>

definition elevated :: "assertion \<Rightarrow> nat" where
  "elevated a = length (filter e_requireElevation (assertion_execs a))"

lemma fold_elev_exec:
  "fold (elev_exec i j) es acc =
     (let n = length (filter e_requireElevation es) in
      acc\<lparr>el_cmds := el_cmds acc + n,
          el_secs := (if n = 0 then {} else {i}) \<union> el_secs acc,
          el_asss := (if n = 0 then {} else {(i, j)}) \<union> el_asss acc\<rparr>)"
  by (induction es arbitrary: acc) (auto simp: elev_exec_def Let_def)

lemma fold_elev_cmds:
  "fold (\<lambda>c. elev_exec i j (c_exec c)) cs acc = fold (elev_exec i j) (map c_exec cs) acc"
  by (induction cs arbitrary: acc) auto

lemma elev_assertion_eq:
  "elev_assertion i (j, a) acc =
     acc\<lparr>el_cmds := el_cmds acc + elevated a,
         el_secs := (if elevated a = 0 then {} else {i}) \<union> el_secs acc,
         el_asss := (if elevated a = 0 then {} else {(i, j)}) \<union> el_asss acc\<rparr>"
proof -
  have "elev_assertion i (j, a) acc = fold (elev_exec i j) (assertion_execs a) acc"
    by (simp add: elev_assertion_def fold_elev_cmds assertion_execs_def)
  then show ?thesis by (simp add: fold_elev_exec elevated_def Let_def)
qed

definition elevated_in :: "nat \<Rightarrow> (nat \<times> assertion) list \<Rightarrow> (nat \<times> nat) set" where
  "elevated_in i jas = {(i, j) | j a. (j, a) \<in> set jas \<and> elevated a \<noteq> 0}"

lemma fold_elev_assertion:
  "fold (elev_assertion i) jas acc =
     acc\<lparr>el_cmds := el_cmds acc + sum_list (map (elevated \<circ> snd) jas),
         el_secs := fst ` elevated_in i jas \<union> el_secs acc,
         el_asss := elevated_in i jas \<union> el_asss acc\<rparr>"
proof (induction jas arbitrary: acc)
  case Nil
  show ?case by (simp add: elevated_in_def)
next
  case (Cons ja jas)
  obtain j a where ja: "ja = (j, a)" by (cases ja)
  have "elevated_in i (ja # jas) =
      (if elevated a = 0 then {} else {(i, j)}) \<union> elevated_in i jas"
    by (auto simp: elevated_in_def ja)
  with Cons show ?case by (auto simp: ja elev_assertion_eq)
qed

definition elevated_at :: "(nat \<times> pb_section) list \<Rightarrow> (nat \<times> nat) set" where
  "elevated_at iss = (\<Union>(i, s) \<in> set iss. elevated_in i (enum_from 0 (s_assertions s)))"

lemma elev_section_eq:
  "elev_section (i, s) acc =
     acc\<lparr>el_cmds := el_cmds acc + sum_list (map elevated (s_assertions s)),
         el_secs := fst ` elevated_in i (enum_from 0 (s_assertions s)) \<union> el_secs acc,
         el_asss := elevated_in i (enum_from 0 (s_assertions s)) \<union> el_asss acc\<rparr>"
  by (simp add: elev_section_def fold_elev_assertion)

lemma fold_elev_section:
  "fold elev_section iss acc =
     acc\<lparr>el_cmds := el_cmds acc
            + sum_list (map (\<lambda>(i, s). sum_list (map elevated (s_assertions s))) iss),
         el_secs := fst ` elevated_at iss \<union> el_secs acc,
         el_asss := elevated_at iss \<union> el_asss acc\<rparr>"
proof (induction iss arbitrary: acc)
  case Nil
  show ?case by (simp add: elevated_at_def)
next
  case (Cons ix iss)
  obtain i s where i: "ix = (i, s)" by (cases ix)
  have at: "elevated_at (ix # iss) = elevated_in i (enum_from 0 (s_assertions s)) \<union> elevated_at iss"
    by (auto simp: elevated_at_def i)
  show ?case
    by (simp add: Cons i elev_section_eq at [unfolded i] image_Un Un_ac add.assoc)
qed

definition elevated_count :: "playbook \<Rightarrow> nat" where
  "elevated_count p = length (filter e_requireElevation
     (concat (map assertion_execs (all_assertions p))))"

lemma elevated_concat:
  "length (filter e_requireElevation (concat (map assertion_execs as))) = sum_list (map elevated as)"
  by (induction as) (auto simp: elevated_def)

lemma sum_list_concat_map:
  "sum_list (map f (concat (map g xs))) = sum_list (map (\<lambda>x. sum_list (map f (g x))) xs)"
  for f :: "'b \<Rightarrow> nat"
  by (induction xs) auto

lemma elevation_stats_eq:
  "elevation_stats (Some p) =
     (card (fst ` elevated_at (enum_from 0 (p_sections p))),
      card (elevated_at (enum_from 0 (p_sections p))),
      elevated_count p, 0 < elevated_count p)"
proof -
  have "elevated_count p
      = sum_list (map (\<lambda>s. sum_list (map elevated (s_assertions s))) (p_sections p))"
    by (simp add: elevated_count_def elevated_concat all_assertions_def sum_list_concat_map)
  then show ?thesis
    by (simp add: elevation_stats_def fold_elev_section Let_def)
qed

end
