(* ===== verification/TraceTypes.thy ===== *)
theory TraceTypes
  imports Playbook
begin

text \<open>
  The execution trace (\<open>executor/trace_types.go\<close>): the two status enumerations with their
  text and JSON codecs, and the records the director fills in.
\<close>

section \<open>JSON values\<close>

text \<open>
  A JSON document as \<open>encoding/json\<close> sees it after lexing; the byte syntax is the library's.
\<close>

datatype json =
    JNull
  | JBool bool
  | JInt int
  | JStr string
  | JArr "json list"
  | JObj "(string \<times> json) list"

section \<open>Statuses\<close>

text \<open>
  The Go types are integers with five named values; any other integer is the last
  constructor, as the default branches of \<open>String\<close> treat it.
\<close>

datatype assertion_status =
    AssertionStatusPending
  | AssertionStatusRunning
  | AssertionStatusPassed
  | AssertionStatusFailed
  | AssertionStatusCancelled
  | AssertionStatusOther goint

datatype command_status =
    CommandStatusPending
  | CommandStatusRunning
  | CommandStatusCompleted
  | CommandStatusFailed
  | CommandStatusCancelled
  | CommandStatusOther goint

fun assertion_status_string :: "assertion_status \<Rightarrow> string" where
  "assertion_status_string AssertionStatusPending = ''pending''"
| "assertion_status_string AssertionStatusRunning = ''running''"
| "assertion_status_string AssertionStatusPassed = ''passed''"
| "assertion_status_string AssertionStatusFailed = ''failed''"
| "assertion_status_string AssertionStatusCancelled = ''cancelled''"
| "assertion_status_string (AssertionStatusOther i) = ''AssertionStatus('' @ goint_str i @ '')''"

fun command_status_string :: "command_status \<Rightarrow> string" where
  "command_status_string CommandStatusPending = ''pending''"
| "command_status_string CommandStatusRunning = ''running''"
| "command_status_string CommandStatusCompleted = ''completed''"
| "command_status_string CommandStatusFailed = ''failed''"
| "command_status_string CommandStatusCancelled = ''cancelled''"
| "command_status_string (CommandStatusOther i) = ''CommandStatus('' @ goint_str i @ '')''"

datatype status_error =
    UnknownAssertionStatus string
  | UnknownCommandStatus string
  | NotAJsonString

definition parse_assertion_status :: "string \<Rightarrow> status_error + assertion_status" where
  "parse_assertion_status s =
     (let t = to_lower (trim_space s) in
      if t = ''pending'' then Inr AssertionStatusPending
      else if t = ''running'' then Inr AssertionStatusRunning
      else if t = ''passed'' then Inr AssertionStatusPassed
      else if t = ''failed'' then Inr AssertionStatusFailed
      else if t = ''cancelled'' then Inr AssertionStatusCancelled
      else Inl (UnknownAssertionStatus s))"

definition parse_command_status :: "string \<Rightarrow> status_error + command_status" where
  "parse_command_status s =
     (let t = to_lower (trim_space s) in
      if t = ''pending'' then Inr CommandStatusPending
      else if t = ''running'' then Inr CommandStatusRunning
      else if t = ''completed'' then Inr CommandStatusCompleted
      else if t = ''failed'' then Inr CommandStatusFailed
      else if t = ''cancelled'' then Inr CommandStatusCancelled
      else Inl (UnknownCommandStatus s))"

text \<open>
  Decoding a Go string from JSON: a JSON string gives its text, \<open>null\<close> leaves the empty
  string, anything else is an error.
\<close>

definition json_string :: "json \<Rightarrow> status_error + string" where
  "json_string j = (case j of JStr s \<Rightarrow> Inr s | JNull \<Rightarrow> Inr [] | _ \<Rightarrow> Inl NotAJsonString)"

definition marshal_assertion_status :: "assertion_status \<Rightarrow> json" where
  "marshal_assertion_status s = JStr (assertion_status_string s)"

definition unmarshal_assertion_status :: "json \<Rightarrow> status_error + assertion_status" where
  "unmarshal_assertion_status j =
     (case json_string j of Inl e \<Rightarrow> Inl e | Inr s \<Rightarrow> parse_assertion_status s)"

definition marshal_command_status :: "command_status \<Rightarrow> json" where
  "marshal_command_status s = JStr (command_status_string s)"

definition unmarshal_command_status :: "json \<Rightarrow> status_error + command_status" where
  "unmarshal_command_status j =
     (case json_string j of Inl e \<Rightarrow> Inl e | Inr s \<Rightarrow> parse_command_status s)"

subsection \<open>The codec contract\<close>

text \<open>
  Both enumerations keep one contract: the text of a named value parses back to it, and
  parsing only looks at the trimmed, lower-cased text.
\<close>

locale status_codec =
  fixes to_text :: "'a \<Rightarrow> string"
    and parse :: "string \<Rightarrow> 'e + 'a"
    and named :: "'a \<Rightarrow> bool"
  assumes parse_text: "named x \<Longrightarrow> parse (to_text x) = Inr x"
    and parse_named: "parse s = Inr x \<Longrightarrow> named x"
    and parse_fold: "parse s = Inr x \<Longrightarrow> to_lower (trim_space s) = to_text x"
begin

lemma text_inj: "named x \<Longrightarrow> named y \<Longrightarrow> to_text x = to_text y \<Longrightarrow> x = y"
  by (metis parse_text sum.inject(2))

lemma parse_iff: "parse s = Inr x \<longleftrightarrow> named x \<and> to_lower (trim_space s) = to_text x"
  if fold: "\<And>s t. to_lower (trim_space s) = to_lower (trim_space t) \<Longrightarrow> isl (parse s) = isl (parse t)"
    and canon: "\<And>x. named x \<Longrightarrow> to_lower (trim_space (to_text x)) = to_text x"
proof
  assume "parse s = Inr x"
  then show "named x \<and> to_lower (trim_space s) = to_text x"
    by (simp add: parse_named parse_fold)
next
  assume h: "named x \<and> to_lower (trim_space s) = to_text x"
  then have "isl (parse s) = isl (parse (to_text x))"
    by (intro fold) (simp add: canon)
  with h obtain y where y: "parse s = Inr y"
    by (metis isl_def parse_text sum.collapse(2) sum.disc(2))
  then have "to_text y = to_text x" using h by (simp add: parse_fold)
  with y h show "parse s = Inr x" by (metis parse_named text_inj)
qed

end

definition assertion_status_named :: "assertion_status \<Rightarrow> bool" where
  "assertion_status_named s = (case s of AssertionStatusOther i \<Rightarrow> False | _ \<Rightarrow> True)"

definition command_status_named :: "command_status \<Rightarrow> bool" where
  "command_status_named s = (case s of CommandStatusOther i \<Rightarrow> False | _ \<Rightarrow> True)"

lemma status_words:
  "to_lower (trim_space ''pending'') = ''pending''"
  "to_lower (trim_space ''running'') = ''running''"
  "to_lower (trim_space ''passed'') = ''passed''"
  "to_lower (trim_space ''completed'') = ''completed''"
  "to_lower (trim_space ''failed'') = ''failed''"
  "to_lower (trim_space ''cancelled'') = ''cancelled''"
  by (code_simp, code_simp, code_simp, code_simp, code_simp, code_simp)

interpretation acodec: status_codec assertion_status_string parse_assertion_status
  assertion_status_named
  by unfold_locales
    (auto simp: parse_assertion_status_def assertion_status_named_def Let_def status_words
      split: assertion_status.splits if_splits)

interpretation ccodec: status_codec command_status_string parse_command_status
  command_status_named
  by unfold_locales
    (auto simp: parse_command_status_def command_status_named_def Let_def status_words
      split: command_status.splits if_splits)

section \<open>The trace\<close>

record execution_result =
  res_stdout :: string
  res_stderr :: string
  res_exitCode :: goint
  res_success :: bool

type_synonym ctxmap = "string \<rightharpoonup> anyval"

record command_log =
  l_exec :: exec
  l_status :: command_status
  l_start :: gotime
  l_end :: gotime
  l_result :: execution_result
  l_err :: "goerr option"

text \<open>\<open>Context\<close> is nil for an assertion that never ran.\<close>

record assertion_context =
  ac_assertion :: assertion
  ac_status :: assertion_status
  ac_start :: gotime
  ac_end :: gotime
  ac_passed :: bool
  ac_score :: goint
  ac_minScore :: goint
  ac_context :: "ctxmap option"
  ac_preCmdLogs :: "command_log list"
  ac_cmdLogs :: "command_log list"
  ac_postCmdLogs :: "command_log list"
  ac_outputs :: "string list"

record section_context =
  sc_section :: pb_section
  sc_assertions :: "assertion_context list"

record execution_trace =
  t_playbook :: playbook
  t_sections :: "section_context list"
  t_start :: gotime
  t_end :: gotime
  t_username :: string
  t_os :: string
  t_arch :: string
  t_totalPassed :: nat
  t_totalFailed :: nat

text \<open>The assertion records of a trace, in order.\<close>

definition trace_assertions :: "execution_trace \<Rightarrow> assertion_context list" where
  "trace_assertions t = concat (map sc_assertions (t_sections t))"

section \<open>Round trip\<close>

text \<open>
  C12: Every named assertion status and every named command status survives the JSON codec, the
  decoder accepts its text in any case and with surrounding white space, and no text decodes
  to an unnamed status.
\<close>

theorem status_json_roundtrip:
  "(assertion_status_named s \<longrightarrow> unmarshal_assertion_status (marshal_assertion_status s) = Inr s)
   \<and> (command_status_named c \<longrightarrow> unmarshal_command_status (marshal_command_status c) = Inr c)
   \<and> (unmarshal_assertion_status (JStr t) = Inr s
        \<longleftrightarrow> assertion_status_named s \<and> to_lower (trim_space t) = assertion_status_string s)
   \<and> (unmarshal_command_status (JStr t) = Inr c
        \<longleftrightarrow> command_status_named c \<and> to_lower (trim_space t) = command_status_string c)"
proof -
  have a: "parse_assertion_status t = Inr s
      \<longleftrightarrow> assertion_status_named s \<and> to_lower (trim_space t) = assertion_status_string s"
    by (rule acodec.parse_iff)
      (auto simp: parse_assertion_status_def assertion_status_named_def Let_def status_words
        split: assertion_status.splits if_splits)
  have c: "parse_command_status t = Inr c
      \<longleftrightarrow> command_status_named c \<and> to_lower (trim_space t) = command_status_string c"
    by (rule ccodec.parse_iff)
      (auto simp: parse_command_status_def command_status_named_def Let_def status_words
        split: command_status.splits if_splits)
  show ?thesis
    by (simp add: unmarshal_assertion_status_def marshal_assertion_status_def json_string_def
        unmarshal_command_status_def marshal_command_status_def acodec.parse_text
        ccodec.parse_text a c)
qed

theorem status_json_roundtrip_witness:
  "unmarshal_assertion_status (marshal_assertion_status AssertionStatusFailed)
     = Inr AssertionStatusFailed
   \<and> unmarshal_command_status (marshal_command_status CommandStatusCompleted)
     = Inr CommandStatusCompleted"
  using status_json_roundtrip [of AssertionStatusFailed CommandStatusCompleted "[]"]
  by (simp add: assertion_status_named_def command_status_named_def)

end
