(* ===== verification/Executor.thy ===== *)
theory Executor
  imports TraceTypes
begin

text \<open>
  One command execution (\<open>executor/executor.go\<close>): \<open>RunExec\<close>, \<open>RunJS\<close>, \<open>PerformGather\<close>,
  \<open>EvaluateRule\<close> and \<open>CleanupOutput\<close>. The state of the outside world is a value of type
  \<open>'w\<close> that every effect takes and returns. The JavaScript engine (goja), the ANSI stripper
  and the regular-expression engine are parameters; a script run by the engine may change the
  assertion context it is given, so an evaluation returns the context too.
\<close>

section \<open>Parameters\<close>

text \<open>The host values \<open>RunJS\<close> reads: \<open>runtime.GOOS\<close>, the environment, the directory.\<close>

record host =
  h_goos :: string
  h_goarch :: string
  h_environ :: "string list"
  h_getenv :: "string \<Rightarrow> string"
  h_cwd :: string

record script_globals =
  sg_os :: string
  sg_arch :: string
  sg_env :: "string \<rightharpoonup> string"
  sg_user :: string
  sg_cwd :: string

text \<open>What is injected into an engine: a script's environment, or a command's output.\<close>

datatype js_inputs =
    ScriptInputs script_globals
  | OutputInputs string string

text \<open>
  The engine over its values \<open>'j\<close>: \<open>RunString\<close>, \<open>AssertFunction\<close> with the call of the
  function, \<open>String\<close>, \<open>ToInteger\<close> and the test for undefined or null.
\<close>

record ('j, 'w) engine =
  js_run :: "js_inputs \<Rightarrow> string \<Rightarrow> ctxmap \<Rightarrow> 'w \<Rightarrow> (goerr + 'j) \<times> ctxmap \<times> 'w"
  js_is_fn :: "'j \<Rightarrow> bool"
  js_call :: "'j \<Rightarrow> js_inputs \<Rightarrow> ctxmap \<Rightarrow> 'w \<Rightarrow> (goerr + 'j) \<times> ctxmap \<times> 'w"
  js_string :: "'j \<Rightarrow> string"
  js_int :: "'j \<Rightarrow> goint"
  js_nullish :: "'j \<Rightarrow> bool"

record execution_request =
  rq_script :: string
  rq_shell :: string
  rq_extension :: string

type_synonym 'w runner =
  "execution_request \<Rightarrow> 'w \<Rightarrow> (execution_result \<times> goerr option) \<times> 'w"

text \<open>
  \<open>regex pat s\<close> is the error of \<open>regexp.Compile\<close> or what \<open>FindStringSubmatch\<close> returns
  (the empty list for nil); \<open>MatchString\<close> is that it is not empty.
\<close>

record ('j, 'w) exec_env =
  x_engine :: "('j, 'w) engine"
  x_host :: host
  x_regex :: "string \<Rightarrow> string \<Rightarrow> goerr + string list"
  x_local :: "'w runner"
  x_elevated :: "'w runner option"

definition empty_result :: execution_result where
  "empty_result = \<lparr>res_stdout = [], res_stderr = [], res_exitCode = 0, res_success = False\<rparr>"

definition skipped_result :: execution_result where
  "skipped_result = empty_result\<lparr>res_success := True\<rparr>"

section \<open>\<open>RunJS\<close>\<close>

fun env_pairs :: "string list \<Rightarrow> (string \<rightharpoonup> string)" where
  "env_pairs [] = Map.empty"
| "env_pairs (e # es) =
     (case str_split2 (CHR ''='') e of
        [k, v] \<Rightarrow> (\<lambda>x. case env_pairs es x of None \<Rightarrow> (if x = k then Some v else None) | Some v' \<Rightarrow> Some v')
      | _ \<Rightarrow> env_pairs es)"

definition os_name :: "host \<Rightarrow> string" where
  "os_name h = (if h_goos h = ''darwin'' then ''mac'' else h_goos h)"

definition host_user :: "host \<Rightarrow> string" where
  "host_user h =
     (let user = h_getenv h ''USER'' in if user = [] then h_getenv h ''USERNAME'' else user)"

definition script_globals_of :: "host \<Rightarrow> script_globals" where
  "script_globals_of h =
     \<lparr>sg_os = os_name h, sg_arch = h_goarch h, sg_env = env_pairs (h_environ h),
      sg_user = host_user h, sg_cwd = h_cwd h\<rparr>"

definition run_js ::
    "('j, 'w) exec_env \<Rightarrow> string \<Rightarrow> ctxmap \<Rightarrow> 'w \<Rightarrow> (goerr + string) \<times> ctxmap \<times> 'w" where
  "run_js E code ctx w =
     (let J = x_engine E; inp = ScriptInputs (script_globals_of (x_host E)) in
      case js_run J inp code ctx w of
        (Inl err, ctx1, w1) \<Rightarrow> (Inl err, ctx1, w1)
      | (Inr val, ctx1, w1) \<Rightarrow>
          if js_is_fn J val then
            (case js_call J val inp ctx1 w1 of
               (Inl err, ctx2, w2) \<Rightarrow> (Inl err, ctx2, w2)
             | (Inr res, ctx2, w2) \<Rightarrow> (Inr (js_string J res), ctx2, w2))
          else if js_nullish J val then (Inr [], ctx1, w1)
          else (Inr (js_string J val), ctx1, w1))"

section \<open>Gathering and evaluation\<close>

text \<open>
  Both take a function over the output: run the code, call the value if it is a function,
  and read the result.
\<close>

definition run_output_js ::
    "('j, 'w) exec_env \<Rightarrow> string \<Rightarrow> execution_result \<Rightarrow> ctxmap \<Rightarrow> 'w
       \<Rightarrow> (goerr + 'j) \<times> ctxmap \<times> 'w" where
  "run_output_js E code res ctx w =
     (let J = x_engine E; inp = OutputInputs (res_stdout res) (res_stderr res) in
      case js_run J inp code ctx w of
        (Inl err, ctx1, w1) \<Rightarrow> (Inl err, ctx1, w1)
      | (Inr val, ctx1, w1) \<Rightarrow>
          if js_is_fn J val then js_call J val inp ctx1 w1 else (Inr val, ctx1, w1))"

definition matched_input :: "bool \<Rightarrow> execution_result \<Rightarrow> string" where
  "matched_input includeStdErr res =
     (if includeStdErr \<and> res_stdout res = [] then res_stderr res else res_stdout res)"

definition perform_gather ::
    "('j, 'w) exec_env \<Rightarrow> gather_spec \<Rightarrow> execution_result \<Rightarrow> ctxmap \<Rightarrow> 'w
       \<Rightarrow> (goerr + string) \<times> ctxmap \<times> 'w" where
  "perform_gather E g res ctx w =
     (let input = matched_input (gather_include_stderr g) res in
      if g_func g \<noteq> [] then
        (case run_output_js E (g_func g) res ctx w of
           (Inl err, ctx1, w1) \<Rightarrow> (Inl err, ctx1, w1)
         | (Inr v, ctx1, w1) \<Rightarrow> (Inr (js_string (x_engine E) v), ctx1, w1))
      else if g_regex g \<noteq> [] then
        (case x_regex E (g_regex g) input of
           Inl err \<Rightarrow> (Inl err, ctx, w)
         | Inr ms \<Rightarrow>
             (Inr (case ms of [] \<Rightarrow> [] | [m] \<Rightarrow> m | _ # m1 # _ \<Rightarrow> m1), ctx, w))
      else (Inr [], ctx, w))"

definition evaluate_rule ::
    "('j, 'w) exec_env \<Rightarrow> evaluation_rule \<Rightarrow> execution_result \<Rightarrow> ctxmap \<Rightarrow> 'w
       \<Rightarrow> (goint \<times> goerr option) \<times> ctxmap \<times> 'w" where
  "evaluate_rule E rule res ctx w =
     (let input = matched_input (rule_include_stderr rule) res in
      if r_func rule \<noteq> [] then
        (case run_output_js E (r_func rule) res ctx w of
           (Inl err, ctx1, w1) \<Rightarrow> ((0, Some err), ctx1, w1)
         | (Inr v, ctx1, w1) \<Rightarrow> ((js_int (x_engine E) v, None), ctx1, w1))
      else if r_regex rule \<noteq> [] then
        (case x_regex E (r_regex rule) input of
           Inl err \<Rightarrow> ((0, Some err), ctx, w)
         | Inr ms \<Rightarrow> ((if ms \<noteq> [] then 1 else -1, None), ctx, w))
      else ((0, None), ctx, w))"

section \<open>\<open>RunExec\<close>\<close>

fun gather_all ::
    "('j, 'w) exec_env \<Rightarrow> execution_result \<Rightarrow> gather_spec list \<Rightarrow> ctxmap \<Rightarrow> 'w
       \<Rightarrow> goerr option \<times> ctxmap \<times> 'w" where
  "gather_all E res [] ctx w = (None, ctx, w)"
| "gather_all E res (g # gs) ctx w =
     (case perform_gather E g res ctx w of
        (Inl err, ctx1, w1) \<Rightarrow> (Some (''gather error for key '' @ g_key g @ '': '' @ err), ctx1, w1)
      | (Inr v, ctx1, w1) \<Rightarrow> gather_all E res gs (ctx1(g_key g \<mapsto> AStr v)) w1)"

text \<open>The script to run, and whether a generated script was empty.\<close>

definition exec_script ::
    "('j, 'w) exec_env \<Rightarrow> exec \<Rightarrow> ctxmap \<Rightarrow> 'w \<Rightarrow> (goerr + string) \<times> ctxmap \<times> 'w" where
  "exec_script E e ctx w =
     (if e_func e \<noteq> [] then
        (case run_js E (e_func e) ctx w of
           (Inl err, ctx1, w1) \<Rightarrow> (Inl (''JS error in Exec.Func: '' @ err), ctx1, w1)
         | (Inr s, ctx1, w1) \<Rightarrow> (Inr s, ctx1, w1))
      else (Inr (e_script e), ctx, w))"

definition exec_shell ::
    "('j, 'w) exec_env \<Rightarrow> exec \<Rightarrow> ctxmap \<Rightarrow> 'w \<Rightarrow> (goerr + string) \<times> ctxmap \<times> 'w" where
  "exec_shell E e ctx w =
     (if e_shellFunc e \<noteq> [] then
        (case run_js E (e_shellFunc e) ctx w of
           (Inl err, ctx1, w1) \<Rightarrow> (Inl (''JS error in Exec.ShellFunc: '' @ err), ctx1, w1)
         | (Inr s, ctx1, w1) \<Rightarrow> (Inr (if s \<noteq> [] then s else e_shell e), ctx1, w1))
      else (Inr (e_shell e), ctx, w))"

definition run_request ::
    "('j, 'w) exec_env \<Rightarrow> bool \<Rightarrow> execution_request \<Rightarrow> 'w \<Rightarrow> (execution_result \<times> goerr option) \<times> 'w"
  where
  "run_request E elev req w =
     (if elev then
        (case x_elevated E of
           None \<Rightarrow> ((empty_result, Some ''elevated runner required but not configured''), w)
         | Some r \<Rightarrow> r req w)
      else x_local E req w)"

text \<open>
  \<open>RunExec\<close> returns the result, the error, the execution with the \<open>Script\<close> it stored through
  the pointer, the context map and the world.
\<close>

definition run_exec ::
    "('j, 'w) exec_env \<Rightarrow> exec \<Rightarrow> ctxmap \<Rightarrow> 'w
       \<Rightarrow> (execution_result \<times> goerr option) \<times> exec \<times> ctxmap \<times> 'w" where
  "run_exec E e ctx w =
     (case exec_script E e ctx w of
        (Inl err, ctx1, w1) \<Rightarrow> ((empty_result, Some err), e, ctx1, w1)
      | (Inr script, ctx1, w1) \<Rightarrow>
          if e_func e \<noteq> [] \<and> script = [] then ((skipped_result, None), e, ctx1, w1)
          else
            (let e1 = e\<lparr>e_script := script\<rparr> in
             if script = [] then ((skipped_result, None), e1, ctx1, w1)
             else
               (case exec_shell E e ctx1 w1 of
                  (Inl err, ctx2, w2) \<Rightarrow> ((empty_result, Some err), e1, ctx2, w2)
                | (Inr shell, ctx2, w2) \<Rightarrow>
                    (let req = \<lparr>rq_script = script, rq_shell = shell,
                                rq_extension = e_scriptFileExtension e\<rparr> in
                     case run_request E (e_requireElevation e) req w2 of
                       ((res, Some err), w3) \<Rightarrow> ((res, Some err), e1, ctx2, w3)
                     | ((res, None), w3) \<Rightarrow>
                         (case gather_all E res (e_gather e) ctx2 w3 of
                            (gerr, ctx3, w4) \<Rightarrow> ((res, gerr), e1, ctx3, w4))))))"

section \<open>\<open>CleanupOutput\<close>\<close>

definition drop_rune :: "nat \<Rightarrow> bool" where
  "drop_rune r \<longleftrightarrow> r = 7 \<or> (r < 32 \<and> r \<noteq> 10 \<and> r \<noteq> 13 \<and> r \<noteq> 9)"

text \<open>
  \<open>strings.Map\<close> with the control-character filter: a rune is dropped or written back; an
  invalid byte is written as the three bytes of U+FFFD.
\<close>

function map_drop_runes :: "string \<Rightarrow> string" where
  "map_drop_runes [] = []"
| "map_drop_runes (c # s) =
     (let (r, n) = decode_rune (c # s) in
      (if drop_rune r then []
       else if r = rune_error \<and> n = 1 then [CHR 0xEF, CHR 0xBF, CHR 0xBD]
       else take n (c # s))
      @ map_drop_runes (drop (n - 1) s))"
  by pat_completeness auto
termination
  by (relation "measure length") auto

declare map_drop_runes.simps(2) [simp del]

definition cleanup_output :: "(string \<Rightarrow> string) \<Rightarrow> string \<Rightarrow> string" where
  "cleanup_output strip input = trim_space (map_drop_runes (strip input))"

lemma map_drop_runes_ascii:
  assumes "of_char c < (0x80 :: nat)"
  shows "map_drop_runes (c # s) = (if drop_rune (of_char c) then [] else [c]) @ map_drop_runes s"
proof -
  have "rune_error \<noteq> of_char c" using assms by (auto simp: rune_error_def)
  then show ?thesis by (simp add: map_drop_runes.simps(2) decode_rune_ascii [OF assms])
qed

text \<open>Text fit for a report: no control characters but newline, return and tab.\<close>

definition printable :: "string \<Rightarrow> bool" where
  "printable s \<longleftrightarrow> list_all (\<lambda>c. \<not> drop_rune (of_char c)) s"

lemma drop_rune_ge: "drop_rune r \<Longrightarrow> r < 0x80"
  by (auto simp: drop_rune_def)

lemma decode_rune_bytes:
  assumes "decode_rune (c # s) = (r, n)" and "\<not> drop_rune r"
  shows "list_all (\<lambda>c. \<not> drop_rune (of_char c)) (take n (c # s))"
proof (cases "of_char c < (0x80 :: nat)")
  case True
  then have "r = of_char c" "n = 1"
    using assms(1) decode_rune_ascii [OF True, of s] by auto
  with assms(2) show ?thesis by simp
next
  case False
  have "\<not> drop_rune (of_char x)" if "x \<in> set (take n (c # s))" for x
    using decode_rune_high [of c x s] that False assms(1) by (auto dest!: drop_rune_ge)
  then show ?thesis by (simp add: list_all_iff)
qed

lemma printable_map_drop_runes: "printable (map_drop_runes s)"
proof (induction s rule: map_drop_runes.induct)
  case (2 c s)
  obtain r n where d: "decode_rune (c # s) = (r, n)" by (cases "decode_rune (c # s)")
  have "printable (map_drop_runes (drop (n - 1) s))" by (rule "2.IH" [OF d [symmetric] refl])
  then show ?case
    using decode_rune_bytes [OF d]
    by (auto simp: map_drop_runes.simps(2) d printable_def drop_rune_def)
qed (simp add: printable_def)

lemma printable_subset: "set t \<subseteq> set s \<Longrightarrow> printable s \<Longrightarrow> printable t"
  by (auto simp: printable_def list_all_iff)

lemma printable_cleanup: "printable (cleanup_output strip s)"
  unfolding cleanup_output_def
  by (rule printable_subset [OF set_trim_space printable_map_drop_runes])

end
