(* ===== verification/Report.thy ===== *)
theory Report
  imports TraceTypes
begin

text \<open>
  Report generation (\<open>report/report.go\<close>): the structured report, the Markdown document and the
  log, as functions of the execution trace. The time formats of the standard library and the
  YAML encoder are parameters. \<open>GenerateReport\<close> stores the title and the date in the
  playbook's frontmatter map, which the caller shares, so it also returns the playbook as the
  caller sees it afterwards.
\<close>

section \<open>Data\<close>

record report_assertion =
  ra_start :: gotime
  ra_end :: gotime
  ra_passed :: bool
  ra_score :: goint
  ra_minScore :: goint
  ra_context :: "ctxmap option"

record final_report =
  fr_start :: gotime
  fr_end :: gotime
  fr_username :: string
  fr_os :: string
  fr_arch :: string
  fr_assertions :: "string \<rightharpoonup> report_assertion"
  fr_passed :: nat
  fr_failed :: nat

record final_result =
  fin_structured :: final_report
  fin_log :: string
  fin_markdown :: string

record report_formats =
  rf_rfc3339 :: "gotime \<Rightarrow> string"
  rf_date :: "gotime \<Rightarrow> string"
  rf_datetime :: "gotime \<Rightarrow> string"
  rf_yaml :: "(string \<rightharpoonup> anyval) \<Rightarrow> string"

abbreviation nl :: string where
  "nl \<equiv> [CHR 0x0A]"

definition redacted :: string where
  "redacted = ''[REDACTED]''"

definition stdout_marker :: string where
  "stdout_marker = ''# --- STDOUT ---''"

definition stderr_marker :: string where
  "stderr_marker = ''# --- STDERR ---''"

text \<open>The check mark and the cross of the verdict lines, in UTF-8.\<close>

definition mark_pass :: string where
  "mark_pass = [CHR 0xE2, CHR 0x9C, CHR 0x85]"

definition mark_fail :: string where
  "mark_fail = [CHR 0xE2, CHR 0x9D, CHR 0x8C]"

section \<open>The log\<close>

definition with_newline :: "string \<Rightarrow> string" where
  "with_newline s = s @ (if has_suffix s nl then [] else nl)"

definition stream_log :: "bool \<Rightarrow> string \<Rightarrow> string \<Rightarrow> string" where
  "stream_log exclude title s =
     (if s = [] then []
      else title @ nl @ (if exclude then redacted @ nl else with_newline s))"

definition execution_log :: "exec \<Rightarrow> execution_result \<Rightarrow> goerr option \<Rightarrow> string" where
  "execution_log e res err =
     (let script = trim_space (e_script e);
          isMultiline = 1 < length (str_split (CHR 0x0A) script);
          cmdTitle = (if isMultiline then ''SCRIPT'' else ''COMMAND: '' @ script) in
      ''>>>>> '' @ cmdTitle @ '' <<<<<'' @ nl
      @ (if isMultiline then with_newline script @ ''<<<<< END SCRIPT'' @ nl else nl)
      @ (case err of None \<Rightarrow> [] | Some e \<Rightarrow> ''>>> ERROR: '' @ e @ '' <<<'' @ nl)
      @ stream_log (e_excludeFromReport e) ''>>> STDOUT <<<'' (res_stdout res)
      @ stream_log (e_excludeFromReport e) ''>>> STDERR <<<'' (res_stderr res)
      @ nl)"

definition command_log_text :: "command_log \<Rightarrow> string" where
  "command_log_text c =
     execution_log (l_exec c) (l_result c) (l_err c)
     @ (case l_err c of
          None \<Rightarrow> []
        | Some e \<Rightarrow> ''>>>>> Error executing command: '' @ e @ '' <<<<<'' @ nl @ nl)"

definition assertion_log :: "assertion_context \<Rightarrow> string" where
  "assertion_log a =
     ''>>>>>>> ASSERTION: '' @ a_title (ac_assertion a) @ '' <<<<<<<'' @ nl @ nl
     @ concat (map command_log_text (ac_cmdLogs a))"

definition section_log :: "section_context \<Rightarrow> string" where
  "section_log sc =
     ''>>>>>>>>> SECTION: '' @ s_title (sc_section sc) @ '' <<<<<<<<<'' @ nl @ nl
     @ concat (map assertion_log (sc_assertions sc))"

section \<open>The Markdown document\<close>

definition is_evidence_material :: "string \<Rightarrow> bool" where
  "is_evidence_material s =
     (if trim_space s = [] then False
      else if s = redacted \<or> s = stdout_marker \<or> s = stderr_marker then False
      else True)"

definition evidence_block :: "string list \<Rightarrow> string" where
  "evidence_block outputs =
     (if list_ex is_evidence_material outputs
      then ''**Evidence:**'' @ nl @ ''```'' @ nl @ str_join outputs nl @ nl @ ''```'' @ nl @ nl
      else [])"

definition verdict_text :: "assertion_context \<Rightarrow> string" where
  "verdict_text a =
     (let asn = ac_assertion a in
      if ac_passed a then
        (if a_passDescription asn \<noteq> []
         then ''> '' @ mark_pass @ '' **Pass:** '' @ a_passDescription asn @ nl @ nl
         else ''> '' @ mark_pass @ '' **Assertion Passed**'')
      else
        (if a_failDescription asn \<noteq> []
         then ''> '' @ mark_fail @ '' **Fail:** '' @ a_failDescription asn @ nl @ nl
         else ''> '' @ mark_fail @ '' **Assertion Failed**''))"

definition assertion_markdown :: "assertion_context \<Rightarrow> string" where
  "assertion_markdown a =
     (let asn = ac_assertion a in
      ''### '' @ a_title asn @ nl @ nl
      @ a_description asn @ nl @ nl
      @ evidence_block (ac_outputs a)
      @ verdict_text a)"

definition section_markdown :: "section_context \<Rightarrow> string" where
  "section_markdown sc =
     ''## '' @ s_title (sc_section sc) @ nl @ nl
     @ concat (map (\<lambda>d. d @ ''  '' @ nl) (s_description (sc_section sc)))
     @ nl
     @ concat (map assertion_markdown (sc_assertions sc))
     @ ''---'' @ nl @ nl"

section \<open>The structured report\<close>

definition report_entry :: "assertion_context \<Rightarrow> report_assertion" where
  "report_entry a =
     \<lparr>ra_start = ac_start a, ra_end = ac_end a, ra_passed = ac_passed a, ra_score = ac_score a,
      ra_minScore = ac_minScore a, ra_context = ac_context a\<rparr>"

definition report_entries :: "assertion_context list \<Rightarrow> (string \<rightharpoonup> report_assertion)" where
  "report_entries as =
     foldl (\<lambda>m a. m(a_code (ac_assertion a) \<mapsto> report_entry a)) Map.empty as"

section \<open>\<open>GenerateReport\<close>\<close>

definition add_missing :: "string \<Rightarrow> string \<Rightarrow> (string \<rightharpoonup> anyval) \<Rightarrow> (string \<rightharpoonup> anyval)" where
  "add_missing k v m = (case m k of None \<Rightarrow> m(k \<mapsto> AStr v) | Some _ \<Rightarrow> m)"

definition filled_frontmatter :: "report_formats \<Rightarrow> execution_trace \<Rightarrow> (string \<rightharpoonup> anyval)" where
  "filled_frontmatter F t =
     (let m0 = (case p_reportFrontmatter (t_playbook t) of None \<Rightarrow> Map.empty | Some m \<Rightarrow> m);
          dateStr = (if t_start t = 0 then [] else rf_date F (t_start t))
      in add_missing ''date'' dateStr (add_missing ''title'' (p_title (t_playbook t)) m0))"

definition generate_report :: "report_formats \<Rightarrow> execution_trace \<Rightarrow> final_result \<times> playbook" where
  "generate_report F t =
     (let p = t_playbook t;
          logName = (if t_start t = 0 then ''execution trace'' else rf_rfc3339 F (t_start t));
          fm = filled_frontmatter F t;
          structured =
            \<lparr>fr_start = t_start t, fr_end = t_end t, fr_username = t_username t, fr_os = t_os t,
             fr_arch = t_arch t, fr_assertions = report_entries (trace_assertions t),
             fr_passed = t_totalPassed t, fr_failed = t_totalFailed t\<rparr>
      in (\<lparr>fin_structured = structured,
           fin_log = ''>>>>>>>>>>>> REPORT LOG: '' @ logName @ '' <<<<<<<<<<<<'' @ nl @ nl
             @ concat (map section_log (t_sections t)),
           fin_markdown = ''---'' @ nl @ rf_yaml F fm @ ''---'' @ nl @ nl
             @ ''# '' @ p_title p @ nl @ nl @ ''Generated on: '' @ rf_datetime F (t_start t)
             @ nl @ nl @ ''---'' @ nl @ nl
             @ concat (map section_markdown (t_sections t))\<rparr>,
          (case p_reportFrontmatter p of
             None \<Rightarrow> p
           | Some _ \<Rightarrow> p\<lparr>p_reportFrontmatter := Some fm\<rparr>)))"

section \<open>Generating twice\<close>

lemma add_missing_id: "m k \<noteq> None \<Longrightarrow> add_missing k v m = m"
  by (auto simp: add_missing_def)

lemma add_missing_dom: "add_missing k v m k \<noteq> None" "m j \<noteq> None \<Longrightarrow> add_missing k v m j \<noteq> None"
  by (auto simp: add_missing_def split: option.splits)

lemma filled_frontmatter_dom:
  "filled_frontmatter F t ''title'' \<noteq> None" "filled_frontmatter F t ''date'' \<noteq> None"
  by (simp_all add: filled_frontmatter_def Let_def add_missing_dom)

lemma filled_again:
  assumes "p_reportFrontmatter (t_playbook t') = Some (filled_frontmatter F t)"
  shows "filled_frontmatter F' t' = filled_frontmatter F t"
  using assms filled_frontmatter_dom [of F t]
  by (simp add: filled_frontmatter_def [of F' t'] Let_def add_missing_id)

lemma left_playbook:
  "snd (generate_report F t) =
     (case p_reportFrontmatter (t_playbook t) of
        None \<Rightarrow> t_playbook t
      | Some m \<Rightarrow> (t_playbook t)\<lparr>p_reportFrontmatter := Some (filled_frontmatter F t)\<rparr>)"
  by (simp add: generate_report_def Let_def)

lemma generate_report_again:
  "generate_report F (t\<lparr>t_playbook := snd (generate_report F t)\<rparr>) = generate_report F t"
proof (cases "p_reportFrontmatter (t_playbook t)")
  case None
  then show ?thesis by (simp add: left_playbook)
next
  case (Some m)
  let ?p = "snd (generate_report F t)"
  have p: "?p = (t_playbook t)\<lparr>p_reportFrontmatter := Some (filled_frontmatter F t)\<rparr>"
    using Some by (simp add: left_playbook)
  have "filled_frontmatter F (t\<lparr>t_playbook := ?p\<rparr>) = filled_frontmatter F t"
    by (rule filled_again) (simp add: p)
  then show ?thesis
    using Some by (simp add: generate_report_def Let_def p trace_assertions_def)
qed

text \<open>
  The front matter a reader expects: the author's entries, the title of the playbook and the date
  of the run where the author gave none, and nothing else.
\<close>

definition author_entries :: "playbook \<Rightarrow> (string \<rightharpoonup> anyval)" where
  "author_entries p k = (case p_reportFrontmatter p of None \<Rightarrow> None | Some m \<Rightarrow> m k)"

definition front_matter :: "report_formats \<Rightarrow> playbook \<Rightarrow> gotime \<Rightarrow> (string \<rightharpoonup> anyval)" where
  "front_matter F p start k =
     (case author_entries p k of
        Some v \<Rightarrow> Some v
      | None \<Rightarrow>
          if k = ''title'' then Some (AStr (p_title p))
          else if k = ''date'' then Some (AStr (if start = 0 then [] else rf_date F start))
          else None)"

definition front_block :: "report_formats \<Rightarrow> (string \<rightharpoonup> anyval) \<Rightarrow> string" where
  "front_block F fm = ''---'' @ nl @ rf_yaml F fm @ ''---'' @ nl"

lemma filled_front_matter: "filled_frontmatter F t = front_matter F (t_playbook t) (t_start t)"
  by (rule ext)
    (auto simp: filled_frontmatter_def front_matter_def author_entries_def add_missing_def Let_def
      split: option.splits)

lemma markdown_front: "prefix (front_block F (filled_frontmatter F t)) (fin_markdown (fst (generate_report F t)))"
  by (simp add: generate_report_def Let_def front_block_def prefix_def)

lemma markdown_front_again:
  assumes "t_playbook t' = snd (generate_report F t)"
  shows "prefix (front_block F (front_matter F (t_playbook t)
           (if p_reportFrontmatter (t_playbook t) = None then t_start t' else t_start t)))
     (fin_markdown (fst (generate_report F t')))"
proof (cases "p_reportFrontmatter (t_playbook t)")
  case None
  with assms have "t_playbook t' = t_playbook t" by (simp add: left_playbook)
  then show ?thesis using markdown_front [of F t'] None by (simp add: filled_front_matter)
next
  case (Some m)
  with assms have "p_reportFrontmatter (t_playbook t') = Some (filled_frontmatter F t)"
    by (simp add: left_playbook)
  then have "filled_frontmatter F t' = filled_frontmatter F t" by (rule filled_again)
  then show ?thesis using markdown_front [of F t'] Some by (simp add: filled_front_matter)
qed

text \<open>
  C14: The Markdown report opens with a front matter block that holds exactly the author's
  entries and, where the author gave none, the title of the playbook and the date of the run.
  Generating the report a second time, from the playbook the first generation left behind, gives
  the same report. A report of a later run of that playbook opens with its own date if the
  playbook has no front matter of its own, and with the date of the first run if it has.
\<close>

theorem report_front_matter:
  "prefix (front_block F (front_matter F (t_playbook t) (t_start t)))
     (fin_markdown (fst (generate_report F t)))
   \<and> generate_report F (t\<lparr>t_playbook := snd (generate_report F t)\<rparr>) = generate_report F t
   \<and> prefix (front_block F (front_matter F (t_playbook t)
          (if p_reportFrontmatter (t_playbook t) = None then later else t_start t)))
      (fin_markdown (fst (generate_report F
         (t\<lparr>t_playbook := snd (generate_report F t), t_start := later\<rparr>))))"
proof (intro conjI)
  let ?t = "t\<lparr>t_playbook := snd (generate_report F t), t_start := later\<rparr>"
  show "prefix (front_block F (front_matter F (t_playbook t) (t_start t)))
      (fin_markdown (fst (generate_report F t)))"
    using markdown_front [of F t] by (simp add: filled_front_matter)
  have "t_playbook ?t = snd (generate_report F t)" "t_start ?t = later" by simp_all
  then show "prefix (front_block F (front_matter F (t_playbook t)
        (if p_reportFrontmatter (t_playbook t) = None then later else t_start t)))
      (fin_markdown (fst (generate_report F ?t)))"
    using markdown_front_again [of ?t F t] by (simp only:)
qed (rule generate_report_again)

text \<open>
  A playbook with a frontmatter keeps the date of the first report generated from it: every
  later report of the same loaded playbook, whatever its start time, is written with the
  frontmatter of the first one.
\<close>

lemma generate_report_stale_date:
  assumes "p_reportFrontmatter (t_playbook t) = Some m"
    and "t_playbook t' = snd (generate_report F t)"
  shows "filled_frontmatter F t' = filled_frontmatter F t"
proof (rule filled_again)
  show "p_reportFrontmatter (t_playbook t') = Some (filled_frontmatter F t)"
    using assms by (simp add: generate_report_def Let_def)
qed

definition dated_trace :: "gotime \<Rightarrow> (string \<rightharpoonup> anyval) \<Rightarrow> execution_trace" where
  "dated_trace t fm =
     \<lparr>t_playbook = \<lparr>p_title = ''P'', p_reportFrontmatter = Some fm, p_sections = [],
                    p_reportDestination = [], p_reportDestinationFolder = [],
                    p_reportDestinationHTTPS = None\<rparr>,
      t_sections = [], t_start = t, t_end = t, t_username = ''u'', t_os = ''linux'',
      t_arch = ''amd64'', t_totalPassed = 0, t_totalFailed = 0\<rparr>"

definition day_formats :: report_formats where
  "day_formats = \<lparr>rf_rfc3339 = goint_str \<circ> word_of_int, rf_date = goint_str \<circ> word_of_int,
                  rf_datetime = goint_str \<circ> word_of_int, rf_yaml = (\<lambda>m. [])\<rparr>"

text \<open>A report on day 1 and another on day 2 of the same playbook: both are dated day 1.\<close>

lemma generate_report_stale_date_witness:
  "filled_frontmatter day_formats
      ((dated_trace 2 Map.empty)\<lparr>t_playbook := snd (generate_report day_formats (dated_trace 1 Map.empty))\<rparr>)
    = filled_frontmatter day_formats (dated_trace 1 Map.empty)"
  by (rule generate_report_stale_date [where m = Map.empty]) (simp_all add: dated_trace_def)

section \<open>Redaction\<close>

text \<open>The trace with the output of excluded commands replaced, where there is any.\<close>

definition redact_stream :: "string \<Rightarrow> string" where
  "redact_stream s = (if s = [] then [] else redacted)"

definition redact_log :: "command_log \<Rightarrow> command_log" where
  "redact_log c =
     (if e_excludeFromReport (l_exec c)
      then c\<lparr>l_result := (l_result c)\<lparr>res_stdout := redact_stream (res_stdout (l_result c)),
                                   res_stderr := redact_stream (res_stderr (l_result c))\<rparr>\<rparr>
      else c)"

lemma stream_log_redact [simp]: "stream_log True title (redact_stream s) = stream_log True title s"
  by (simp add: stream_log_def redact_stream_def redacted_def)

lemma command_log_text_redact: "command_log_text (redact_log c) = command_log_text c"
  by (simp add: command_log_text_def execution_log_def redact_log_def Let_def)

section \<open>The structured report holds every assertion\<close>

lemma report_entries_foldl:
  assumes "distinct (map (a_code \<circ> ac_assertion) as)"
  shows "foldl (\<lambda>m a. m(a_code (ac_assertion a) \<mapsto> report_entry a)) m as c =
    (case find (\<lambda>a. a_code (ac_assertion a) = c) as of None \<Rightarrow> m c | Some a \<Rightarrow> Some (report_entry a))"
  using assms
proof (induction as arbitrary: m)
  case (Cons a as)
  have "find (\<lambda>x. a_code (ac_assertion x) = c) as = None" if "a_code (ac_assertion a) = c"
    using Cons.prems that by (auto simp: find_None_iff) (metis image_eqI)
  with Cons show ?case by auto
qed simp

lemma report_entries_dom: "dom (report_entries as) = (a_code \<circ> ac_assertion) ` set as"
proof -
  have "dom (foldl (\<lambda>m a. m(a_code (ac_assertion a) \<mapsto> report_entry a)) m as)
      = (a_code \<circ> ac_assertion) ` set as \<union> dom m" for m
    by (induction as arbitrary: m) auto
  then show ?thesis by (simp add: report_entries_def)
qed

lemma report_entries_lookup:
  assumes "distinct (map (a_code \<circ> ac_assertion) as)" and "a \<in> set as"
  shows "report_entries as (a_code (ac_assertion a)) = Some (report_entry a)"
proof -
  have "find (\<lambda>x. a_code (ac_assertion x) = a_code (ac_assertion a)) as = Some a"
    using assms by (induction as) (auto simp: rev_image_eqI)
  then show ?thesis
    unfolding report_entries_def using report_entries_foldl [OF assms(1)] by simp
qed

lemma report_entries_card:
  "distinct (map (a_code \<circ> ac_assertion) as) \<Longrightarrow> card (dom (report_entries as)) = length as"
  by (metis distinct_card length_map list.set_map report_entries_dom)

end
