(* ===== verification/Director.thy ===== *)
theory Director
  imports Executor Report
begin

text \<open>
  The execution director (\<open>director/director.go\<close>) and the events it sends to an observer
  (\<open>director/observer.go\<close>). The director is the nest of loops of \<open>RunWithObserver\<close>: sections,
  assertions, and the pre-, main and post-commands of an assertion, each loop polling the
  context for cancellation before an iteration; \<open>unwindRemaining\<close> completes the trace of a
  cancelled run. A callback is an event of a list, in the order of the calls.
\<close>

section \<open>Events\<close>

record progress_result =
  pr_code :: string
  pr_status :: string
  pr_passed :: bool
  pr_score :: goint
  pr_minScore :: goint
  pr_durationMs :: goint
  pr_output :: string

datatype obs_event =
    OnRunStart string playbook
  | OnSectionStart pb_section nat nat
  | OnAssertionStart assertion nat nat
  | OnAssertionComplete assertion progress_result
  | OnLog string
  | OnRunComplete execution_trace final_report
  | OnRunCancelled string execution_trace
  | OnRunError goerr

section \<open>The director's surroundings and state\<close>

text \<open>
  The functions the director calls: \<open>runExec\<close>, \<open>EvaluateRule\<close>, \<open>ctx.Err() != nil\<close> and
  \<open>time.Now\<close>. Cancellation may come at any time, so polling reads it from the world.
\<close>

record 'w director_env =
  de_run :: "exec \<Rightarrow> ctxmap \<Rightarrow> 'w \<Rightarrow> (execution_result \<times> goerr option) \<times> exec \<times> ctxmap \<times> 'w"
  de_eval :: "evaluation_rule \<Rightarrow> execution_result \<Rightarrow> ctxmap \<Rightarrow> 'w
                \<Rightarrow> (goint \<times> goerr option) \<times> ctxmap \<times> 'w"
  de_cancelled :: "'w \<Rightarrow> bool \<times> 'w"
  de_now :: "'w \<Rightarrow> gotime \<times> 'w"
  de_host :: host
  de_formats :: report_formats

text \<open>The variables of one assertion's run.\<close>

record 'w astate =
  st_world :: 'w
  st_ctx :: ctxmap
  st_score :: goint
  st_cancelled :: bool
  st_cmdLogs :: "command_log list"
  st_outputs :: "string list"
  st_events :: "obs_event list"

text \<open>The variables of the whole run: the world, the events so far, the trace, the totals.\<close>

record 'w rstate =
  rs_world :: 'w
  rs_events :: "obs_event list"
  rs_sections :: "section_context list"
  rs_passed :: nat
  rs_failed :: nat

text \<open>How a loop was left: at its end, or to unwind from a section and an assertion index.\<close>

datatype run_end = Finished | Unwind nat nat

section \<open>One command\<close>

definition run_logged ::
    "'w director_env \<Rightarrow> exec \<Rightarrow> 'w astate \<Rightarrow> command_log \<times> exec \<times> 'w astate" where
  "run_logged D e st =
     (let (t0, w0) = de_now D (st_world st);
          ((res, err), e', ctx', w1) = de_run D e (st_ctx st) w0;
          (t1, w2) = de_now D w1
      in (\<lparr>l_exec = e,
           l_status = (if err = None then CommandStatusCompleted else CommandStatusFailed),
           l_start = t0, l_end = t1, l_result = res, l_err = err\<rparr>,
          e', st\<lparr>st_world := w2, st_ctx := ctx'\<rparr>))"

definition outputs_of :: "bool \<Rightarrow> execution_result \<Rightarrow> string list" where
  "outputs_of excluded res =
     (if excluded then [redacted]
      else if res_stderr res \<noteq> [] then
        (if res_stdout res \<noteq> [] then [stdout_marker, res_stdout res] else [])
        @ [stderr_marker, res_stderr res]
      else [res_stdout res])"

definition exit_rule_matches :: "exit_code_rule \<Rightarrow> goint \<Rightarrow> bool" where
  "exit_rule_matches r code \<longleftrightarrow>
     (case x_min r of None \<Rightarrow> True | Some m \<Rightarrow> \<not> int_lt code m)
     \<and> (case x_max r of None \<Rightarrow> True | Some m \<Rightarrow> \<not> int_lt m code)"

fun exit_verdict :: "exit_code_rule list \<Rightarrow> goint \<Rightarrow> goint" where
  "exit_verdict [] code = (if code = 0 then 1 else -1)"
| "exit_verdict (r # rs) code =
     (if exit_rule_matches r code then x_result r else exit_verdict rs code)"

definition apply_rule ::
    "'w director_env \<Rightarrow> evaluation_rule \<Rightarrow> execution_result \<Rightarrow> goint \<Rightarrow> 'w astate
       \<Rightarrow> goint \<times> 'w astate" where
  "apply_rule D rule res result st =
     (if r_regex rule \<noteq> [] \<or> r_func rule \<noteq> [] then
        (let ((verdict, err), ctx', w') = de_eval D rule res (st_ctx st) (st_world st)
         in (if verdict \<noteq> 0 then verdict else result, st\<lparr>st_ctx := ctx', st_world := w'\<rparr>))
      else (result, st))"

definition score_of :: "cmd \<Rightarrow> goint \<Rightarrow> goint" where
  "score_of c result =
     (if result = 1 then get_pass_score c else if result = -1 then get_fail_score c else 0)"

definition cmd_step :: "'w director_env \<Rightarrow> cmd \<Rightarrow> 'w astate \<Rightarrow> 'w astate" where
  "cmd_step D c st =
     (let (lg, e', st1) = run_logged D (c_exec c) st;
          st2 = st1\<lparr>st_cmdLogs := st_cmdLogs st1 @ [lg]\<rparr>
      in case l_err lg of
           Some err \<Rightarrow> st2\<lparr>st_score := st_score st2 + get_fail_score c\<rparr>
         | None \<Rightarrow>
             (let res = l_result lg;
                  st3 = st2\<lparr>st_outputs := st_outputs st2 @ outputs_of (e_excludeFromReport e') res\<rparr>;
                  r0 = exit_verdict (c_exitCodeRules c) (res_exitCode res);
                  (r1, st4) = apply_rule D (c_stdOutRule c) res r0 st3;
                  (r2, st5) = apply_rule D (c_stdErrRule c) res r1 st4
              in st5\<lparr>st_score := st_score st5 + score_of c r2\<rparr>))"

section \<open>The loops of an assertion\<close>

text \<open>A poll of the context: the world moves on, and the flag is kept if it is set.\<close>

definition poll :: "'w director_env \<Rightarrow> 'w astate \<Rightarrow> 'w astate" where
  "poll D st = (let (c, w) = de_cancelled D (st_world st) in st\<lparr>st_world := w, st_cancelled := c\<rparr>)"

text \<open>The warning sign of the log line, in UTF-8.\<close>

definition mark_warn :: string where
  "mark_warn = [CHR 0xE2, CHR 0x9A, CHR 0xA0, CHR 0xEF, CHR 0xB8, CHR 0x8F]"

definition side_error :: "string \<Rightarrow> assertion \<Rightarrow> goerr \<Rightarrow> obs_event" where
  "side_error kind a err =
     OnLog (''      '' @ mark_warn @ '' '' @ kind @ '' Error ('' @ a_code a @ ''): '' @ err)"

fun side_loop ::
    "'w director_env \<Rightarrow> string \<Rightarrow> assertion \<Rightarrow> exec list \<Rightarrow> 'w astate
       \<Rightarrow> command_log list \<times> 'w astate" where
  "side_loop D kind a [] st = ([], st)"
| "side_loop D kind a (e # es) st =
     (let st0 = poll D st in
      if st_cancelled st0 then ([], st0)
      else
        (let (lg, e', st1) = run_logged D e st0;
             st2 = (case l_err lg of
                      None \<Rightarrow> st1
                    | Some err \<Rightarrow> st1\<lparr>st_events := st_events st1 @ [side_error kind a err]\<rparr>);
             (lgs, st3) = side_loop D kind a es st2
         in (lg # lgs, st3)))"

fun cmd_loop :: "'w director_env \<Rightarrow> cmd list \<Rightarrow> 'w astate \<Rightarrow> 'w astate" where
  "cmd_loop D [] st = st"
| "cmd_loop D (c # cs) st =
     (let st0 = poll D st in if st_cancelled st0 then st0 else cmd_loop D cs (cmd_step D c st0))"

section \<open>One assertion\<close>

definition gather_excluded :: "exec \<Rightarrow> string list" where
  "gather_excluded e = map g_key (filter g_excludeFromReport (e_gather e))"

definition excluded_keys :: "assertion \<Rightarrow> string list" where
  "excluded_keys a =
     concat (map gather_excluded (a_preCmds a))
     @ concat (map (\<lambda>c. gather_excluded (c_exec c)) (a_cmds a))
     @ concat (map gather_excluded (a_postCmds a))"

definition reported_context :: "assertion \<Rightarrow> ctxmap \<Rightarrow> ctxmap" where
  "reported_context a ctx = (\<lambda>k. if k \<in> set (excluded_keys a) then None else ctx k)"

text \<open>\<open>t1.Sub(t0).Milliseconds()\<close>: the difference saturates at 64 bits and truncates to zero.\<close>

definition millis_between :: "gotime \<Rightarrow> gotime \<Rightarrow> goint" where
  "millis_between t0 t1 =
     (let d = max (- (2 ^ 63)) (min (2 ^ 63 - 1) (t1 - t0))
      in word_of_int (sgn d * (\<bar>d\<bar> div 1000000)))"

definition run_commands ::
    "'w director_env \<Rightarrow> assertion \<Rightarrow> 'w astate
       \<Rightarrow> command_log list \<times> command_log list \<times> 'w astate" where
  "run_commands D a st0 =
     (let (pre, st1) = side_loop D ''PreCmd'' a (a_preCmds a) st0;
          st2 = (if st_cancelled st1 then st1 else cmd_loop D (a_cmds a) st1);
          (post, st3) = (if st_cancelled st2 then ([], st2)
                         else side_loop D ''PostCmd'' a (a_postCmds a) st2)
      in (pre, post, st3))"

definition run_assertion ::
    "'w director_env \<Rightarrow> assertion \<Rightarrow> 'w \<Rightarrow> obs_event list
       \<Rightarrow> assertion_context \<times> 'w \<times> obs_event list" where
  "run_assertion D a w evs =
     (let (t0, w0) = de_now D w;
          (pre, post, st) = run_commands D a
            \<lparr>st_world = w0, st_ctx = Map.empty, st_score = 0, st_cancelled = False,
             st_cmdLogs = [], st_outputs = [], st_events = evs\<rparr>;
          (t1, w1) = de_now D (st_world st);
          minScore = get_min_passing_score a;
          passed = (\<not> st_cancelled st \<and> int_le minScore (st_score st));
          ac = \<lparr>ac_assertion = a,
                ac_status = (if st_cancelled st then AssertionStatusCancelled
                             else if passed then AssertionStatusPassed
                             else AssertionStatusFailed),
                ac_start = t0, ac_end = t1, ac_passed = passed,
                ac_score = (if st_cancelled st then 0 else st_score st),
                ac_minScore = (if st_cancelled st then 0 else minScore),
                ac_context = Some (if st_cancelled st then Map.empty
                                   else reported_context a (st_ctx st)),
                ac_preCmdLogs = pre, ac_cmdLogs = st_cmdLogs st, ac_postCmdLogs = post,
                ac_outputs = st_outputs st\<rparr>;
          ev = OnAssertionComplete a
                 \<lparr>pr_code = a_code a,
                  pr_status = (if st_cancelled st then ''cancelled''
                               else if passed then ''passed'' else ''failed''),
                  pr_passed = passed, pr_score = st_score st, pr_minScore = minScore,
                  pr_durationMs = millis_between t0 t1,
                  pr_output = str_join (st_outputs st) nl\<rparr>
      in (ac, w1, st_events st @ [ev]))"

section \<open>Sections, unwinding, the run\<close>

definition push_assertion :: "nat \<Rightarrow> assertion_context \<Rightarrow> section_context list \<Rightarrow> section_context list" where
  "push_assertion i ac scs =
     scs[i := (scs ! i)\<lparr>sc_assertions := sc_assertions (scs ! i) @ [ac]\<rparr>]"

fun run_assertions ::
    "'w director_env \<Rightarrow> nat \<Rightarrow> nat \<Rightarrow> (nat \<times> assertion) list \<Rightarrow> 'w rstate \<Rightarrow> run_end \<times> 'w rstate" where
  "run_assertions D sIdx ntotal [] rs = (Finished, rs)"
| "run_assertions D sIdx ntotal ((j, a) # jas) rs =
     (let (c, w) = de_cancelled D (rs_world rs) in
      if c then (Unwind sIdx j, rs\<lparr>rs_world := w\<rparr>)
      else
        (let (ac, w', evs) = run_assertion D a w
               (rs_events rs @ [OnAssertionStart a (j + 1) ntotal]);
             rs1 = rs\<lparr>rs_world := w', rs_events := evs,
                      rs_sections := push_assertion sIdx ac (rs_sections rs)\<rparr>
         in if ac_status ac = AssertionStatusCancelled then (Unwind sIdx (j + 1), rs1)
            else run_assertions D sIdx ntotal jas
                   (if ac_passed ac then rs1\<lparr>rs_passed := rs_passed rs1 + 1\<rparr>
                    else rs1\<lparr>rs_failed := rs_failed rs1 + 1\<rparr>)))"

fun run_sections ::
    "'w director_env \<Rightarrow> nat \<Rightarrow> (nat \<times> pb_section) list \<Rightarrow> 'w rstate \<Rightarrow> run_end \<times> 'w rstate" where
  "run_sections D ntotal [] rs = (Finished, rs)"
| "run_sections D ntotal ((i, s) # iss) rs =
     (let (c, w) = de_cancelled D (rs_world rs) in
      if c then (Unwind i 0, rs\<lparr>rs_world := w\<rparr>)
      else
        (let rs0 = rs\<lparr>rs_world := w, rs_events := rs_events rs @ [OnSectionStart s (i + 1) ntotal],
                      rs_sections := rs_sections rs @ [\<lparr>sc_section = s, sc_assertions = []\<rparr>]\<rparr>
         in case run_assertions D i (length (s_assertions s)) (enum_from 0 (s_assertions s)) rs0 of
              (Finished, rs1) \<Rightarrow> run_sections D ntotal iss rs1
            | (Unwind i' j', rs1) \<Rightarrow> (Unwind i' j', rs1)))"

definition cancelled_context :: "assertion \<Rightarrow> assertion_context" where
  "cancelled_context a =
     \<lparr>ac_assertion = a, ac_status = AssertionStatusCancelled, ac_start = 0, ac_end = 0,
      ac_passed = False, ac_score = 0, ac_minScore = get_min_passing_score a, ac_context = None,
      ac_preCmdLogs = [], ac_cmdLogs = [], ac_postCmdLogs = [], ac_outputs = []\<rparr>"

definition cancelled_progress :: "assertion \<Rightarrow> progress_result" where
  "cancelled_progress a =
     \<lparr>pr_code = a_code a, pr_status = ''cancelled'', pr_passed = False, pr_score = 0,
      pr_minScore = get_min_passing_score a, pr_durationMs = 0, pr_output = []\<rparr>"

fun unwind_assertions :: "nat \<Rightarrow> assertion list \<Rightarrow> 'w rstate \<Rightarrow> 'w rstate" where
  "unwind_assertions i [] rs = rs"
| "unwind_assertions i (a # as) rs =
     unwind_assertions i as
       (rs\<lparr>rs_sections := push_assertion i (cancelled_context a) (rs_sections rs),
           rs_events := rs_events rs @ [OnAssertionComplete a (cancelled_progress a)]\<rparr>)"

fun unwind_sections :: "nat \<Rightarrow> nat \<Rightarrow> pb_section list \<Rightarrow> 'w rstate \<Rightarrow> 'w rstate" where
  "unwind_sections i aStart [] rs = rs"
| "unwind_sections i aStart (s # ss) rs =
     (let rs0 = (if i < length (rs_sections rs) then rs
                 else rs\<lparr>rs_sections := rs_sections rs @ [\<lparr>sc_section = s, sc_assertions = []\<rparr>]\<rparr>)
      in unwind_sections (Suc i) 0 ss (unwind_assertions i (drop aStart (s_assertions s)) rs0))"

definition unwind_remaining :: "playbook \<Rightarrow> nat \<Rightarrow> nat \<Rightarrow> 'w rstate \<Rightarrow> 'w rstate" where
  "unwind_remaining p i j rs = unwind_sections i j (drop i (p_sections p)) rs"

definition run_with_observer ::
    "'w director_env \<Rightarrow> playbook \<Rightarrow> string \<Rightarrow> 'w \<Rightarrow> execution_trace \<times> obs_event list \<times> 'w" where
  "run_with_observer D p runID w =
     (let (now, w0) = de_now D w;
          t0 = \<lparr>t_playbook = p, t_sections = [], t_start = now, t_end = 0,
                t_username = host_user (de_host D), t_os = os_name (de_host D),
                t_arch = h_goarch (de_host D), t_totalPassed = 0, t_totalFailed = 0\<rparr>;
          (fin, rs) = run_sections D (length (p_sections p)) (enum_from 0 (p_sections p))
            \<lparr>rs_world = w0, rs_events = [OnRunStart runID p], rs_sections = [],
             rs_passed = 0, rs_failed = 0\<rparr>
      in case fin of
           Unwind i j \<Rightarrow>
             (let rs1 = unwind_remaining p i j rs;
                  (te, w1) = de_now D (rs_world rs1);
                  t = t0\<lparr>t_sections := rs_sections rs1, t_end := te\<rparr>
              in (t, rs_events rs1 @ [OnRunCancelled runID t], w1))
         | Finished \<Rightarrow>
             (let (te, w1) = de_now D (rs_world rs);
                  t = t0\<lparr>t_sections := rs_sections rs, t_end := te,
                         t_totalPassed := rs_passed rs, t_totalFailed := rs_failed rs\<rparr>;
                  (rep, p') = generate_report (de_formats D) t;
                  t' = t\<lparr>t_playbook := p'\<rparr>
              in (t', rs_events rs @ [OnRunComplete t' (fin_structured rep)], w1)))"

section \<open>Observers\<close>

text \<open>\<open>ConsoleObserver\<close>: what each event appends to the terminal output.\<close>

fun console_line :: "obs_event \<Rightarrow> string" where
  "console_line (OnSectionStart s i n) = ''  Processing Section: '' @ s_title s @ nl"
| "console_line (OnAssertionComplete a r) =
     (let status = (if pr_status r = ''cancelled'' then mark_warn @ '' CANCELLED''
                    else if \<not> pr_passed r then mark_fail @ '' FAIL''
                    else mark_pass @ '' PASS'')
      in ''    - '' @ a_title a @ '': '' @ status @ '' (Score: '' @ goint_str (pr_score r) @ ''/''
         @ goint_str (pr_minScore r) @ '')'' @ nl)"
| "console_line (OnLog msg) = msg @ nl"
| "console_line (OnRunCancelled rid t) = ''  '' @ mark_warn @ '' Execution cancelled'' @ nl"
| "console_line (OnRunError err) = ''  '' @ mark_fail @ '' Execution error: '' @ err @ nl"
| "console_line _ = []"

definition console_output :: "obs_event list \<Rightarrow> string" where
  "console_output evs = concat (map console_line evs)"

text \<open>\<open>Run\<close>: the command line's entry point, with the console observer and no run id.\<close>

definition director_run ::
    "'w director_env \<Rightarrow> playbook \<Rightarrow> 'w \<Rightarrow> execution_trace \<times> string \<times> 'w" where
  "director_run D p w =
     (let (t, evs, w') = run_with_observer D p [] w in (t, console_output evs, w'))"

end
