(* ===== verification/DirectorRun.thy ===== *)
theory DirectorRun
  imports Director
begin

text \<open>
  What a run of the director amounts to: the trace has a record for every assertion of the
  playbook and the observer one completion event for each, in playbook order and with the same
  verdict, whether the run completes or is cancelled anywhere; what a cancellation leaves; and
  which totals are reported. The contracts of the functions the director calls are locales,
  interpreted on the executor's.
\<close>

section \<open>What the observer is told\<close>

fun completions :: "obs_event list \<Rightarrow> (assertion \<times> progress_result) list" where
  "completions [] = []"
| "completions (OnAssertionComplete a r # es) = (a, r) # completions es"
| "completions (e # es) = completions es"

lemma completions_append [simp]: "completions (xs @ ys) = completions xs @ completions ys"
  by (induction xs rule: completions.induct) auto

fun closes_run :: "obs_event \<Rightarrow> bool" where
  "closes_run (OnRunComplete t r) = True"
| "closes_run (OnRunCancelled i t) = True"
| "closes_run (OnRunError e) = True"
| "closes_run _ = False"

text \<open>Events of the inside of a run.\<close>

definition inner :: "obs_event list \<Rightarrow> bool" where
  "inner es \<longleftrightarrow> list_all (\<lambda>e. \<not> closes_run e \<and> (case e of OnRunStart i p \<Rightarrow> False | _ \<Rightarrow> True)) es"

definition is_log :: "obs_event \<Rightarrow> bool" where
  "is_log e \<longleftrightarrow> (case e of OnLog m \<Rightarrow> True | _ \<Rightarrow> False)"

lemma inner_append [simp]: "inner (xs @ ys) \<longleftrightarrow> inner xs \<and> inner ys"
  by (simp add: inner_def)

lemma inner_nil [simp]: "inner []"
  by (simp add: inner_def)

lemma logs_silent: "list_all is_log es \<Longrightarrow> completions es = [] \<and> inner es"
  by (induction es) (auto simp: is_log_def inner_def split: obs_event.splits)

text \<open>
  A started assertion is completed before another one starts; the argument is the one under way.
\<close>

fun well_bracketed :: "assertion option \<Rightarrow> obs_event list \<Rightarrow> bool" where
  "well_bracketed cur [] = (cur = None)"
| "well_bracketed cur (OnAssertionStart a i n # es) = (cur = None \<and> well_bracketed (Some a) es)"
| "well_bracketed cur (OnAssertionComplete a r # es) = ((cur = None \<or> cur = Some a) \<and> well_bracketed None es)"
| "well_bracketed cur (e # es) = well_bracketed cur es"

lemma bracketed_append: "well_bracketed cur xs \<Longrightarrow> well_bracketed None ys \<Longrightarrow> well_bracketed cur (xs @ ys)"
  by (induction cur xs rule: well_bracketed.induct) auto

lemma bracketed_logs: "list_all is_log es \<Longrightarrow> well_bracketed cur (es @ fs) = well_bracketed cur fs"
  by (induction es) (auto simp: is_log_def split: obs_event.splits)

text \<open>The completion event of an assertion says what its record in the trace says.\<close>

definition agrees :: "assertion_context \<Rightarrow> assertion \<times> progress_result \<Rightarrow> bool" where
  "agrees ac ar =
     (case ar of (a, r) \<Rightarrow>
        ac_assertion ac = a \<and> pr_code r = a_code a
        \<and> pr_status r = assertion_status_string (ac_status ac)
        \<and> pr_passed r = ac_passed ac
        \<and> pr_minScore r = get_min_passing_score a
        \<and> pr_output r = str_join (ac_outputs ac) nl
        \<and> (ac_status ac \<noteq> AssertionStatusCancelled \<longrightarrow>
             pr_score r = ac_score ac \<and> pr_minScore r = ac_minScore ac
             \<and> pr_durationMs r = millis_between (ac_start ac) (ac_end ac)))"

text \<open>How an assertion ends: with a verdict by its score, or cancelled and not passed.\<close>

definition verdict_ok :: "assertion_context \<Rightarrow> bool" where
  "verdict_ok ac \<longleftrightarrow>
     (case ac_status ac of
        AssertionStatusPassed \<Rightarrow> ac_passed ac \<and> int_le (ac_minScore ac) (ac_score ac)
      | AssertionStatusFailed \<Rightarrow> \<not> ac_passed ac \<and> \<not> int_le (ac_minScore ac) (ac_score ac)
      | AssertionStatusCancelled \<Rightarrow> \<not> ac_passed ac
      | _ \<Rightarrow> False)"

definition is_cancelled :: "assertion_context \<Rightarrow> bool" where
  "is_cancelled ac \<longleftrightarrow> ac_status ac = AssertionStatusCancelled"

text \<open>
  A stretch of a run: assertions, their records, the events in between. A record comes from a
  run of its assertion or from the unwinding.
\<close>

definition arises :: "'w director_env \<Rightarrow> assertion_context \<Rightarrow> bool" where
  "arises D ac \<longleftrightarrow>
     (\<exists>a. ac = cancelled_context a)
     \<or> (\<exists>a w evs w' evs'. run_assertion D a w evs = (ac, w', evs'))"

definition stretch ::
    "'w director_env \<Rightarrow> assertion list \<Rightarrow> assertion_context list \<Rightarrow> obs_event list \<Rightarrow> bool"
  where
  "stretch D as acs evs \<longleftrightarrow>
     map ac_assertion acs = as \<and> list_all2 agrees acs (completions evs)
     \<and> list_all (arises D) acs \<and> inner evs \<and> well_bracketed None evs"

lemma arises_run: "run_assertion D a w evs = (ac, w', evs') \<Longrightarrow> arises D ac"
  by (auto simp: arises_def)

lemma arises_cancelled [simp]: "arises D (cancelled_context a)"
  by (auto simp: arises_def)

lemma stretch_nil [simp]: "stretch D [] [] []"
  by (simp add: stretch_def)

lemma stretch_append:
  "stretch D as acs evs \<Longrightarrow> stretch D bs bcs fvs \<Longrightarrow> stretch D (as @ bs) (acs @ bcs) (evs @ fvs)"
  by (auto simp: stretch_def intro: list_all2_appendI bracketed_append)

section \<open>The loops of an assertion\<close>

lemma run_logged_state:
  assumes "run_logged D e st = (lg, e', st')"
  shows "l_exec lg = e \<and> st_score st' = st_score st \<and> st_cmdLogs st' = st_cmdLogs st
    \<and> st_outputs st' = st_outputs st \<and> st_events st' = st_events st
    \<and> st_cancelled st' = st_cancelled st
    \<and> (l_status lg = CommandStatusCompleted \<longleftrightarrow> l_err lg = None)"
  using assms by (auto simp: run_logged_def split: prod.splits if_splits)

lemma poll_state:
  "st_score (poll D st) = st_score st \<and> st_cmdLogs (poll D st) = st_cmdLogs st
    \<and> st_outputs (poll D st) = st_outputs st \<and> st_events (poll D st) = st_events st"
  by (simp add: poll_def split: prod.splits)

lemma apply_rule_state:
  assumes "apply_rule D rule res r st = (r', st')"
  shows "st_score st' = st_score st \<and> st_cmdLogs st' = st_cmdLogs st
    \<and> st_outputs st' = st_outputs st \<and> st_events st' = st_events st
    \<and> st_cancelled st' = st_cancelled st"
  using assms by (auto simp: apply_rule_def split: prod.splits if_splits)

lemma side_loop_state:
  assumes "side_loop D kind a es st = (lgs, st')"
  shows "st_score st' = st_score st \<and> st_cmdLogs st' = st_cmdLogs st
    \<and> st_outputs st' = st_outputs st
    \<and> (\<exists>fvs. st_events st' = st_events st @ fvs \<and> list_all is_log fvs)
    \<and> map l_exec lgs = take (length lgs) es
    \<and> (\<not> st_cancelled st' \<longrightarrow> length lgs = length es)"
  using assms
proof (induction es arbitrary: st lgs)
  case (Cons e es)
  note p = poll_state [of D st]
  show ?case
  proof (cases "st_cancelled (poll D st)")
    case True
    then show ?thesis using Cons.prems p by auto
  next
    case False
    obtain lg e' st1 where r: "run_logged D e (poll D st) = (lg, e', st1)"
      by (cases "run_logged D e (poll D st)") auto
    define st2 where "st2 = (case l_err lg of None \<Rightarrow> st1
        | Some err \<Rightarrow> st1\<lparr>st_events := st_events st1 @ [side_error kind a err]\<rparr>)"
    obtain lgs' where l: "side_loop D kind a es st2 = (lgs', st')" "lgs = lg # lgs'"
      using Cons.prems False r by (auto simp: st2_def [symmetric] split: prod.splits)
    note rs = run_logged_state [OF r]
    have e2: "\<exists>fvs. st_events st2 = st_events st @ fvs \<and> list_all is_log fvs"
      using rs p by (cases "l_err lg") (auto simp: st2_def side_error_def is_log_def)
    have s2: "st_score st2 = st_score st" "st_cmdLogs st2 = st_cmdLogs st"
      "st_outputs st2 = st_outputs st"
      using rs p by (cases "l_err lg"; simp add: st2_def)+
    show ?thesis using Cons.IH [OF l(1)] e2 s2 rs l(2) by fastforce
  qed
qed auto

lemma cmd_step_state:
  "\<exists>lg. st_cmdLogs (cmd_step D c st) = st_cmdLogs st @ [lg] \<and> l_exec lg = c_exec c
     \<and> st_events (cmd_step D c st) = st_events st"
proof -
  obtain lg e' st1 where r: "run_logged D (c_exec c) st = (lg, e', st1)"
    by (cases "run_logged D (c_exec c) st") auto
  show ?thesis
    using run_logged_state [OF r]
    by (cases "l_err lg")
      (auto simp: cmd_step_def r Let_def split: prod.splits dest!: apply_rule_state)
qed

lemma cmd_loop_state:
  "\<exists>lgs. st_cmdLogs (cmd_loop D cs st) = st_cmdLogs st @ lgs
     \<and> map l_exec lgs = map c_exec (take (length lgs) cs)
     \<and> (\<not> st_cancelled (cmd_loop D cs st) \<longrightarrow> length lgs = length cs)
     \<and> st_events (cmd_loop D cs st) = st_events st"
proof (induction cs arbitrary: st)
  case (Cons c cs)
  note p = poll_state [of D st]
  show ?case
  proof (cases "st_cancelled (poll D st)")
    case True
    then show ?thesis using p by (auto simp: Let_def intro: exI [of _ "[]"])
  next
    case False
    let ?s = "cmd_step D c (poll D st)"
    obtain lg where s: "st_cmdLogs ?s = st_cmdLogs st @ [lg]" "l_exec lg = c_exec c"
      "st_events ?s = st_events st"
      using cmd_step_state [of D c "poll D st"] p by auto
    from Cons.IH [of ?s] s obtain lgs where
      "st_cmdLogs (cmd_loop D cs ?s) = st_cmdLogs st @ lg # lgs"
      "map l_exec lgs = map c_exec (take (length lgs) cs)"
      "\<not> st_cancelled (cmd_loop D cs ?s) \<longrightarrow> length lgs = length cs"
      "st_events (cmd_loop D cs ?s) = st_events st"
      by auto
    then show ?thesis using False s(2) by (intro exI [of _ "lg # lgs"]) (auto simp: Let_def)
  qed
qed auto

section \<open>One assertion\<close>

lemma run_assertion_stretch:
  assumes "run_assertion D a w evs = (ac, w', evs')"
  obtains fvs where "evs' = evs @ fvs" "stretch D [a] [ac] (OnAssertionStart a i n # fvs)"
proof -
  obtain t0 w0 where n: "de_now D w = (t0, w0)" by (cases "de_now D w")
  let ?st0 = "\<lparr>st_world = w0, st_ctx = Map.empty, st_score = 0, st_cancelled = False,
               st_cmdLogs = [], st_outputs = [], st_events = evs\<rparr>"
  obtain pre post st where rc: "run_commands D a ?st0 = (pre, post, st)"
    by (cases "run_commands D a ?st0") auto
  obtain pre' st1 where s1: "side_loop D ''PreCmd'' a (a_preCmds a) ?st0 = (pre', st1)"
    by (cases "side_loop D ''PreCmd'' a (a_preCmds a) ?st0")
  define st2 where "st2 = (if st_cancelled st1 then st1 else cmd_loop D (a_cmds a) st1)"
  obtain post' st3 where s3: "side_loop D ''PostCmd'' a (a_postCmds a) st2 = (post', st3)"
    by (cases "side_loop D ''PostCmd'' a (a_postCmds a) st2")
  have st: "st = (if st_cancelled st2 then st2 else st3)"
    using rc s1 s3 by (auto simp: run_commands_def st2_def [symmetric] split: prod.splits if_splits)
  from side_loop_state [OF s1] obtain l1 where l1: "st_events st1 = evs @ l1" "list_all is_log l1"
    by auto
  have "st_events st2 = st_events st1"
    using cmd_loop_state [of D "a_cmds a" st1] by (auto simp: st2_def)
  with side_loop_state [OF s3] l1 obtain l2 where
    l2: "st_events st = evs @ l1 @ l2" "list_all is_log l2"
    by (cases "st_cancelled st2") (auto simp: st)
  have silent: "completions (l1 @ l2) = []" "inner (l1 @ l2)"
    using logs_silent [of "l1 @ l2"] l1 l2 by auto
  have br: "well_bracketed cur ((l1 @ l2) @ fs) = well_bracketed cur fs" for cur fs
    using l1 l2 by (intro bracketed_logs) simp
  obtain ev where "evs' = evs @ (l1 @ l2) @ [ev]"
    "stretch D [a] [ac] (OnAssertionStart a i n # (l1 @ l2) @ [ev])"
    using assms l2(1) silent arises_run [OF assms] br
    by (auto simp: run_assertion_def n rc stretch_def agrees_def inner_def Let_def
        simp del: append_assoc split: prod.splits if_splits)
  then show thesis by (rule that)
qed

section \<open>The loops over assertions and sections\<close>

text \<open>
  The record of the section being run is the last one; the loops only add assertion records to
  it.
\<close>

lemma push_last [simp]:
  "push_assertion (length scs) ac (scs @ [sc])
     = scs @ [sc\<lparr>sc_assertions := sc_assertions sc @ [ac]\<rparr>]"
  by (simp add: push_assertion_def)

text \<open>How the totals and the way the loop was left depend on the records it added.\<close>

definition left_by :: "nat \<Rightarrow> nat \<Rightarrow> nat \<Rightarrow> assertion_context list \<Rightarrow> run_end \<Rightarrow> bool" where
  "left_by i j n acs fin \<longleftrightarrow>
     (case fin of
        Finished \<Rightarrow> length acs = n \<and> list_all (\<lambda>ac. \<not> is_cancelled ac) acs
      | Unwind i' j' \<Rightarrow> i' = i \<and> j' = j + length acs \<and> length acs \<le> n
          \<and> list_all is_cancelled (dropWhile (\<lambda>ac. \<not> is_cancelled ac) acs))"

definition passed_in :: "assertion_context list \<Rightarrow> nat" where
  "passed_in acs = length (filter ac_passed acs)"

definition failed_in :: "assertion_context list \<Rightarrow> nat" where
  "failed_in acs = length (filter (\<lambda>ac. \<not> ac_passed ac \<and> \<not> is_cancelled ac) acs)"

lemmas tally = passed_in_def failed_in_def

lemma run_assertions_state:
  assumes "run_assertions D i n (enum_from j as) rs = (fin, rs')"
    and "rs_sections rs = scs @ [sc]" and "length scs = i"
  shows "\<exists>acs evs. rs_sections rs' = scs @ [sc\<lparr>sc_assertions := sc_assertions sc @ acs\<rparr>]
    \<and> rs_events rs' = rs_events rs @ evs
    \<and> stretch D (take (length acs) as) acs evs \<and> left_by i j (length as) acs fin
    \<and> (fin = Finished \<longrightarrow> rs_passed rs' = rs_passed rs + passed_in acs
                         \<and> rs_failed rs' = rs_failed rs + failed_in acs)"
  using assms
proof (induction as arbitrary: j rs sc)
  case Nil
  then show ?case
    by (intro exI [of _ "[]"]) (auto simp: left_by_def tally)
next
  case (Cons a as)
  obtain c w where c: "de_cancelled D (rs_world rs) = (c, w)"
    by (cases "de_cancelled D (rs_world rs)")
  show ?case
  proof (cases c)
    case True
    then show ?thesis using Cons.prems c
      by (intro exI [of _ "[]"]) (auto simp: left_by_def)
  next
    case False
    let ?start = "OnAssertionStart a (j + 1) n"
    obtain ac w' evs1 where
      ra: "run_assertion D a w (rs_events rs @ [?start]) = (ac, w', evs1)"
      by (cases "run_assertion D a w (rs_events rs @ [?start])") auto
    obtain fvs where fvs: "evs1 = (rs_events rs @ [?start]) @ fvs"
      and st1: "stretch D [a] [ac] (?start # fvs)"
      by (rule run_assertion_stretch [OF ra])
    define rs1 where "rs1 = rs\<lparr>rs_world := w', rs_events := evs1,
                               rs_sections := push_assertion i ac (rs_sections rs)\<rparr>"
    have sec1: "rs_sections rs1 = scs @ [sc\<lparr>sc_assertions := sc_assertions sc @ [ac]\<rparr>]"
      using push_last [of scs ac sc] Cons.prems(2,3) by (simp add: rs1_def)
    show ?thesis
    proof (cases "is_cancelled ac")
      case True
      then have e: "fin = Unwind i (j + 1)" "rs' = rs1"
        using Cons.prems(1) c False ra by (auto simp: rs1_def is_cancelled_def Let_def)
      show ?thesis
        using sec1 st1 True
        by (intro exI [of _ "[ac]"] exI [of _ "?start # fvs"])
          (auto simp: e left_by_def rs1_def fvs)
    next
      case nc: False
      define rs2 where "rs2 = (if ac_passed ac then rs1\<lparr>rs_passed := rs_passed rs1 + 1\<rparr>
                               else rs1\<lparr>rs_failed := rs_failed rs1 + 1\<rparr>)"
      have rest: "run_assertions D i n (enum_from (Suc j) as) rs2 = (fin, rs')"
        using Cons.prems(1) c False ra nc
        by (auto simp: rs1_def rs2_def is_cancelled_def Let_def)
      have sec2: "rs_sections rs2 = scs @ [sc\<lparr>sc_assertions := sc_assertions sc @ [ac]\<rparr>]"
        and ev2: "rs_events rs2 = rs_events rs @ ?start # fvs"
        using sec1 by (auto simp: rs2_def rs1_def fvs)
      have tally2: "rs_passed rs2 = rs_passed rs + passed_in [ac]"
        "rs_failed rs2 = rs_failed rs + failed_in [ac]"
        using nc by (auto simp: rs2_def rs1_def tally)
      from Cons.IH [OF rest sec2 Cons.prems(3)] obtain acs evs where
        ih: "rs_sections rs' = scs @ [sc\<lparr>sc_assertions := sc_assertions sc @ ac # acs\<rparr>]"
        "rs_events rs' = rs_events rs2 @ evs" "stretch D (take (length acs) as) acs evs"
        "left_by i (Suc j) (length as) acs fin"
        "fin = Finished \<longrightarrow> rs_passed rs' = rs_passed rs2 + passed_in acs
                           \<and> rs_failed rs' = rs_failed rs2 + failed_in acs"
        by auto
      have "stretch D (a # take (length acs) as) (ac # acs) ((?start # fvs) @ evs)"
        using stretch_append [OF st1 ih(3)] by simp
      then show ?thesis
        using ih nc tally2
        by (intro exI [of _ "ac # acs"] exI [of _ "(?start # fvs) @ evs"])
          (auto simp: left_by_def ev2 tally split: run_end.splits)
    qed
  qed
qed

subsection \<open>Unwinding\<close>

definition cancelled_events :: "assertion list \<Rightarrow> obs_event list" where
  "cancelled_events as = map (\<lambda>a. OnAssertionComplete a (cancelled_progress a)) as"

lemma cancelled_events_simps [simp]:
  "cancelled_events [] = []"
  "cancelled_events (a # as) = OnAssertionComplete a (cancelled_progress a) # cancelled_events as"
  "cancelled_events (as @ bs) = cancelled_events as @ cancelled_events bs"
  by (simp_all add: cancelled_events_def)

lemma stretch_cancelled: "stretch D as (map cancelled_context as) (cancelled_events as)"
  by (induction as)
    (auto simp: stretch_def agrees_def arises_def inner_def cancelled_context_def
      cancelled_progress_def)

lemma unwind_assertions_eq:
  assumes "rs_sections rs = scs @ [sc]" and "length scs = i"
  shows "unwind_assertions i as rs =
    rs\<lparr>rs_sections := scs @ [sc\<lparr>sc_assertions := sc_assertions sc @ map cancelled_context as\<rparr>],
       rs_events := rs_events rs @ cancelled_events as\<rparr>"
  using assms
proof (induction as arbitrary: rs sc)
  case (Cons a as)
  let ?rs = "rs\<lparr>rs_sections := push_assertion i (cancelled_context a) (rs_sections rs),
               rs_events := rs_events rs @ [OnAssertionComplete a (cancelled_progress a)]\<rparr>"
  have "rs_sections ?rs = scs @ [sc\<lparr>sc_assertions := sc_assertions sc @ [cancelled_context a]\<rparr>]"
    using push_last [of scs "cancelled_context a" sc] Cons.prems by simp
  from Cons.IH [OF this Cons.prems(2)] show ?case by simp
qed simp

definition cancelled_section :: "pb_section \<Rightarrow> section_context" where
  "cancelled_section s = \<lparr>sc_section = s, sc_assertions = map cancelled_context (s_assertions s)\<rparr>"

lemma unwind_sections_new:
  assumes "length (rs_sections rs) = i"
  shows "unwind_sections i 0 ss rs =
    rs\<lparr>rs_sections := rs_sections rs @ map cancelled_section ss,
       rs_events := rs_events rs @ cancelled_events (concat (map s_assertions ss))\<rparr>"
  using assms
proof (induction ss arbitrary: i rs)
  case (Cons s ss)
  let ?rs0 = "rs\<lparr>rs_sections := rs_sections rs @ [\<lparr>sc_section = s, sc_assertions = []\<rparr>]\<rparr>"
  have "unwind_assertions i (s_assertions s) ?rs0 =
      rs\<lparr>rs_sections := rs_sections rs @ [cancelled_section s],
         rs_events := rs_events rs @ cancelled_events (s_assertions s)\<rparr>"
    using unwind_assertions_eq [of ?rs0 "rs_sections rs" _ i "s_assertions s"] Cons.prems
    by (simp add: cancelled_section_def)
  moreover have "length (rs_sections rs @ [cancelled_section s]) = Suc i"
    using Cons.prems by simp
  ultimately show ?case
    using Cons.prems Cons.IH [of _ "Suc i"] by simp
qed simp

lemma unwind_sections_open:
  assumes "rs_sections rs = scs @ [sc]" and "length scs = i"
  shows "unwind_sections i j (s # ss) rs =
    rs\<lparr>rs_sections := scs
         @ [sc\<lparr>sc_assertions := sc_assertions sc @ map cancelled_context (drop j (s_assertions s))\<rparr>]
         @ map cancelled_section ss,
       rs_events := rs_events rs
         @ cancelled_events (drop j (s_assertions s) @ concat (map s_assertions ss))\<rparr>"
  using assms unwind_assertions_eq [OF assms]
    unwind_sections_new [of "unwind_assertions i (drop j (s_assertions s)) rs" "Suc i" ss]
  by simp

section \<open>The loop over sections\<close>

definition section_ok :: "pb_section \<Rightarrow> section_context \<Rightarrow> bool" where
  "section_ok s sc \<longleftrightarrow> sc_section sc = s \<and> map ac_assertion (sc_assertions sc) = s_assertions s"

text \<open>The records of some sections, in full: after the loop and the unwinding it ended with.\<close>

definition covered ::
    "'w director_env \<Rightarrow> pb_section list \<Rightarrow> section_context list \<Rightarrow> obs_event list \<Rightarrow> bool"
  where
  "covered D ss scs evs \<longleftrightarrow>
     list_all2 section_ok ss scs
     \<and> stretch D (concat (map s_assertions ss)) (concat (map sc_assertions scs)) evs"

lemma covered_nil [simp]: "covered D [] [] []"
  by (simp add: covered_def)

lemma covered_append:
  "covered D ss scs evs \<Longrightarrow> covered D us ucs fvs \<Longrightarrow> covered D (ss @ us) (scs @ ucs) (evs @ fvs)"
  by (auto simp: covered_def intro: list_all2_appendI stretch_append)

lemma covered_one:
  "stretch D (s_assertions s) acs evs
     \<Longrightarrow> covered D [s] [\<lparr>sc_section = s, sc_assertions = acs\<rparr>] evs"
  by (simp add: covered_def section_ok_def stretch_def)

lemma covered_cancelled:
  "covered D ss (map cancelled_section ss) (cancelled_events (concat (map s_assertions ss)))"
proof (induction ss)
  case (Cons s ss)
  have "covered D [s] [cancelled_section s] (cancelled_events (s_assertions s))"
    unfolding cancelled_section_def by (rule covered_one [OF stretch_cancelled])
  from covered_append [OF this Cons] show ?case by simp
qed simp

lemma covered_start:
  "covered D ss scs evs \<Longrightarrow> covered D ss scs (OnSectionStart s i n # evs)"
  by (simp add: covered_def stretch_def inner_def)

definition unwound :: "nat \<Rightarrow> pb_section list \<Rightarrow> run_end \<Rightarrow> 'w rstate \<Rightarrow> 'w rstate" where
  "unwound i ss fin rs =
     (case fin of Finished \<Rightarrow> rs | Unwind i' j' \<Rightarrow> unwind_sections i' j' (drop (i' - i) ss) rs)"

text \<open>Before the first cancelled record none is cancelled, after it all are.\<close>

definition cancelled_tail :: "assertion_context list \<Rightarrow> bool" where
  "cancelled_tail acs \<longleftrightarrow> list_all is_cancelled (dropWhile (\<lambda>ac. \<not> is_cancelled ac) acs)"

lemma cancelled_contexts: "list_all is_cancelled (map cancelled_context as)"
  by (simp add: list_all_iff is_cancelled_def cancelled_context_def)

lemma cancelled_tail_all: "list_all is_cancelled acs \<Longrightarrow> cancelled_tail acs"
  by (auto simp: cancelled_tail_def list_all_iff dest: set_dropWhileD)

lemma cancelled_tail_append:
  "cancelled_tail acs \<Longrightarrow> list_all is_cancelled bcs \<Longrightarrow> cancelled_tail (acs @ bcs)"
proof (induction acs)
  case (Cons a acs)
  then show ?case by (cases "is_cancelled a") (simp_all add: cancelled_tail_def)
qed (simp add: cancelled_tail_all)

lemma cancelled_tail_prefix:
  "list_all (\<lambda>ac. \<not> is_cancelled ac) acs \<Longrightarrow> cancelled_tail bcs \<Longrightarrow> cancelled_tail (acs @ bcs)"
  by (induction acs) (auto simp: cancelled_tail_def)

lemma cancelled_sections:
  "list_all is_cancelled (concat (map sc_assertions (map cancelled_section ss)))"
  by (induction ss) (auto simp: cancelled_section_def cancelled_contexts)

definition outcome :: "run_end \<Rightarrow> nat \<Rightarrow> nat \<Rightarrow> 'w rstate \<Rightarrow> assertion_context list \<Rightarrow> bool" where
  "outcome fin np nf rs acs \<longleftrightarrow>
     (case fin of
        Finished \<Rightarrow> list_all (\<lambda>ac. \<not> is_cancelled ac) acs
          \<and> rs_passed rs = np + passed_in acs \<and> rs_failed rs = nf + failed_in acs
      | Unwind i j \<Rightarrow> cancelled_tail acs)"

text \<open>The bookkeeping of a section whose assertions all ran, followed by the rest.\<close>

lemma outcome_step:
  assumes "list_all (\<lambda>ac. \<not> is_cancelled ac) acs"
    and "outcome fin (np + passed_in acs) (nf + failed_in acs) rs bcs"
  shows "outcome fin np nf rs (acs @ bcs)"
  using assms by (auto simp: outcome_def tally cancelled_tail_prefix split: run_end.splits)

lemma run_sections_state:
  assumes "run_sections D n (enum_from i ss) rs = (fin, rs')"
    and "length (rs_sections rs) = i"
  shows "\<exists>scs evs. rs_sections (unwound i ss fin rs') = rs_sections rs @ scs
    \<and> rs_events (unwound i ss fin rs') = rs_events rs @ evs
    \<and> covered D ss scs evs
    \<and> outcome fin (rs_passed rs) (rs_failed rs) rs' (concat (map sc_assertions scs))
    \<and> (case fin of Finished \<Rightarrow> True | Unwind i' j' \<Rightarrow> i \<le> i')"
  using assms
proof (induction ss arbitrary: i rs)
  case Nil
  then show ?case
    by (intro exI [of _ "[]"]) (auto simp: unwound_def outcome_def tally)
next
  case (Cons s ss)
  obtain c w where c: "de_cancelled D (rs_world rs) = (c, w)"
    by (cases "de_cancelled D (rs_world rs)")
  show ?case
  proof (cases c)
    case True
    then have e: "fin = Unwind i 0" "rs' = rs\<lparr>rs_world := w\<rparr>" using Cons.prems(1) c by auto
    have "unwound i (s # ss) fin rs' = rs'
        \<lparr>rs_sections := rs_sections rs' @ map cancelled_section (s # ss),
         rs_events := rs_events rs' @ cancelled_events (concat (map s_assertions (s # ss)))\<rparr>"
      using unwind_sections_new [of rs' i "s # ss"] Cons.prems(2) e
      by (simp add: unwound_def del: unwind_sections.simps)
    then show ?thesis
      using covered_cancelled [of D "s # ss"] cancelled_tail_all [OF cancelled_sections [of "s # ss"]]
      by (intro exI [of _ "map cancelled_section (s # ss)"] exI)
        (simp add: e outcome_def del: list.map)
  next
    case False
    let ?start = "OnSectionStart s (i + 1) n"
    let ?rs0 = "rs\<lparr>rs_world := w, rs_events := rs_events rs @ [?start],
                  rs_sections := rs_sections rs @ [\<lparr>sc_section = s, sc_assertions = []\<rparr>]\<rparr>"
    obtain fin1 rs1 where ra: "run_assertions D i (length (s_assertions s))
        (enum_from 0 (s_assertions s)) ?rs0 = (fin1, rs1)"
      by (cases "run_assertions D i (length (s_assertions s)) (enum_from 0 (s_assertions s)) ?rs0")
    obtain acs evs where one:
      "rs_sections rs1 = rs_sections rs @ [\<lparr>sc_section = s, sc_assertions = acs\<rparr>]"
      "rs_events rs1 = rs_events rs @ ?start # evs"
      "stretch D (take (length acs) (s_assertions s)) acs evs"
      "left_by i 0 (length (s_assertions s)) acs fin1"
      "fin1 = Finished \<Longrightarrow> rs_passed rs1 = rs_passed rs + passed_in acs
                         \<and> rs_failed rs1 = rs_failed rs + failed_in acs"
      using run_assertions_state [OF ra, of "rs_sections rs" "\<lparr>sc_section = s, sc_assertions = []\<rparr>"]
        Cons.prems(2) by auto
    show ?thesis
    proof (cases fin1)
      case Finished
      then have all: "length acs = length (s_assertions s)" "list_all (\<lambda>ac. \<not> is_cancelled ac) acs"
        using one(4) by (auto simp: left_by_def)
      have rest: "run_sections D n (enum_from (Suc i) ss) rs1 = (fin, rs')"
        using Cons.prems(1) c False ra Finished by (simp add: Let_def)
      have "length (rs_sections rs1) = Suc i" using one(1) Cons.prems(2) by simp
      from Cons.IH [OF rest this] obtain scs fvs where ih:
        "rs_sections (unwound (Suc i) ss fin rs') = rs_sections rs1 @ scs"
        "rs_events (unwound (Suc i) ss fin rs') = rs_events rs1 @ fvs" "covered D ss scs fvs"
        "outcome fin (rs_passed rs1) (rs_failed rs1) rs' (concat (map sc_assertions scs))"
        "case fin of Finished \<Rightarrow> True | Unwind i' j' \<Rightarrow> Suc i \<le> i'" by auto
      have un: "unwound i (s # ss) fin rs' = unwound (Suc i) ss fin rs'"
        using ih(5) by (cases fin) (auto simp: unwound_def drop_Cons' Suc_diff_le)
      let ?sc = "\<lparr>sc_section = s, sc_assertions = acs\<rparr>"
      have "covered D [s] [?sc] (?start # evs)"
        using one(3) all(1) by (intro covered_start covered_one) simp
      from covered_append [OF this ih(3)]
      have "covered D (s # ss) (?sc # scs) ((?start # evs) @ fvs)" by simp
      moreover have "outcome fin (rs_passed rs) (rs_failed rs) rs'
          (concat (map sc_assertions (?sc # scs)))"
        using outcome_step [OF all(2)] ih(4) one(5) Finished by simp
      ultimately show ?thesis
        using ih(1,2,5) one(1,2)
        by (intro exI [of _ "?sc # scs"] exI [of _ "(?start # evs) @ fvs"])
          (auto simp: un split: run_end.splits)
    next
      case (Unwind i' j')
      then have e: "fin = Unwind i (length acs)" "rs' = rs1" "cancelled_tail acs"
        using Cons.prems(1) c False ra one(4) by (auto simp: left_by_def cancelled_tail_def Let_def)
      let ?left = "drop (length acs) (s_assertions s)"
      let ?sc = "\<lparr>sc_section = s, sc_assertions = acs @ map cancelled_context ?left\<rparr>"
      let ?rest = "cancelled_events (concat (map s_assertions ss))"
      have un: "unwound i (s # ss) fin rs' = rs'
          \<lparr>rs_sections := rs_sections rs @ ?sc # map cancelled_section ss,
           rs_events := rs_events rs @ ((?start # evs @ cancelled_events ?left) @ ?rest)\<rparr>"
        using unwind_sections_open [OF one(1) Cons.prems(2), of "length acs" s ss]
        by (simp add: unwound_def e one(2))
      have "stretch D (s_assertions s) (acs @ map cancelled_context ?left)
          (evs @ cancelled_events ?left)"
        using stretch_append [OF one(3) stretch_cancelled [of D ?left]] by simp
      then have "covered D [s] [?sc] (?start # evs @ cancelled_events ?left)"
        by (intro covered_start covered_one)
      from covered_append [OF this covered_cancelled [of D ss]]
      have "covered D (s # ss) (?sc # map cancelled_section ss)
          ((?start # evs @ cancelled_events ?left) @ ?rest)" by simp
      moreover have "cancelled_tail (acs @ map cancelled_context ?left
          @ concat (map sc_assertions (map cancelled_section ss)))"
        using e(3) cancelled_contexts [of ?left] cancelled_sections [of ss]
        by (intro cancelled_tail_append) auto
      ultimately show ?thesis
        by (intro exI [of _ "?sc # map cancelled_section ss"] exI)
          (simp add: un [unfolded e(1)] e(1) outcome_def)
    qed
  qed
qed

section \<open>The whole run\<close>

text \<open>The last event of a run, and what it says of the trace and of its totals.\<close>

definition closing :: "report_formats \<Rightarrow> string \<Rightarrow> execution_trace \<Rightarrow> obs_event \<Rightarrow> bool" where
  "closing F rid t cl =
     (case cl of
        OnRunComplete t' rep \<Rightarrow>
          t' = t \<and> rep = fin_structured (fst (generate_report F t))
          \<and> list_all (\<lambda>ac. \<not> is_cancelled ac) (trace_assertions t)
          \<and> t_totalPassed t = passed_in (trace_assertions t)
          \<and> t_totalFailed t = failed_in (trace_assertions t)
      | OnRunCancelled i t' \<Rightarrow>
          i = rid \<and> t' = t \<and> cancelled_tail (trace_assertions t)
          \<and> t_totalPassed t = 0 \<and> t_totalFailed t = 0
      | _ \<Rightarrow> False)"

lemma structured_eq:
  "fin_structured (fst (generate_report F t)) =
     \<lparr>fr_start = t_start t, fr_end = t_end t, fr_username = t_username t, fr_os = t_os t,
      fr_arch = t_arch t, fr_assertions = report_entries (trace_assertions t),
      fr_passed = t_totalPassed t, fr_failed = t_totalFailed t\<rparr>"
  by (simp add: generate_report_def Let_def)

lemma structured_pair:
  "generate_report F t = (rep, p') \<Longrightarrow> fin_structured rep = fin_structured (fst (generate_report F t))"
  by simp

lemma run_facts:
  assumes "run_with_observer D p rid w = (t, evs, w')"
  obtains es cl where "evs = OnRunStart rid p # es @ [cl]" "covered D (p_sections p) (t_sections t) es"
    "closing (de_formats D) rid t cl"
proof -
  obtain now w0 where n: "de_now D w = (now, w0)" by (cases "de_now D w")
  let ?rs = "\<lparr>rs_world = w0, rs_events = [OnRunStart rid p], rs_sections = [],
              rs_passed = 0, rs_failed = 0\<rparr>"
  obtain fin rs where r: "run_sections D (length (p_sections p)) (enum_from 0 (p_sections p)) ?rs
      = (fin, rs)"
    by (cases "run_sections D (length (p_sections p)) (enum_from 0 (p_sections p)) ?rs")
  from run_sections_state [OF r] obtain scs es where s:
    "rs_sections (unwound 0 (p_sections p) fin rs) = scs"
    "rs_events (unwound 0 (p_sections p) fin rs) = OnRunStart rid p # es"
    "covered D (p_sections p) scs es"
    "outcome fin 0 0 rs (concat (map sc_assertions scs))"
    by auto
  show thesis
  proof (cases fin)
    case Finished
    then show ?thesis
      using assms s
      by (intro that [of es "last evs"])
        (auto simp: run_with_observer_def n r Let_def unwound_def outcome_def closing_def
          trace_assertions_def structured_eq split: prod.splits dest!: structured_pair)
  next
    case (Unwind i j)
    then show ?thesis
      using assms s
      by (intro that [of es "last evs"])
        (auto simp: run_with_observer_def n r Let_def unwound_def outcome_def closing_def
          trace_assertions_def unwind_remaining_def split: prod.splits)
  qed
qed

lemma run_arises:
  assumes "run_with_observer D p rid w = (t, evs, w')"
  shows "list_all (arises D) (trace_assertions t)"
  using run_facts [OF assms] by (metis covered_def stretch_def trace_assertions_def)

lemma list_all_run:
  assumes "\<And>a. P (cancelled_context a)"
    and "\<And>a w evs ac w' evs'. run_assertion D a w evs = (ac, w', evs') \<Longrightarrow> P ac"
    and "run_with_observer D p rid w = (t, evs, w')"
  shows "list_all P (trace_assertions t)"
  using run_arises [OF assms(3)] assms(1,2) by (fastforce simp: list_all_iff arises_def)

text \<open>
  C1: Every run of the director, whatever its commands do and wherever it is cancelled, leaves
  a trace with one record per section and per assertion of the playbook, in playbook order, and
  sends the observer exactly one completion event for each assertion, in the same order and with
  the record's status, verdict, score, duration and output.
\<close>

theorem run_trace_covers_playbook:
  "case run_with_observer D p rid w of (t, evs, w') \<Rightarrow>
     list_all2 section_ok (p_sections p) (t_sections t)
     \<and> map ac_assertion (trace_assertions t) = all_assertions p
     \<and> map fst (completions evs) = all_assertions p
     \<and> list_all2 agrees (trace_assertions t) (completions evs)"
proof -
  obtain t evs w' where r: "run_with_observer D p rid w = (t, evs, w')"
    by (cases "run_with_observer D p rid w") auto
  obtain es cl where f: "evs = OnRunStart rid p # es @ [cl]"
    "covered D (p_sections p) (t_sections t) es" "closing (de_formats D) rid t cl"
    by (rule run_facts [OF r])
  have "completions evs = completions es"
    using f(1,3) by (cases cl) (auto simp: closing_def)
  moreover from f(2) have "list_all2 section_ok (p_sections p) (t_sections t)"
    and m: "map ac_assertion (trace_assertions t) = all_assertions p"
    and ag: "list_all2 agrees (trace_assertions t) (completions es)"
    by (auto simp: covered_def stretch_def trace_assertions_def all_assertions_def)
  moreover from ag have "map fst (completions es) = map ac_assertion (trace_assertions t)"
    by (induction rule: list_all2_induct) (auto simp: agrees_def)
  ultimately show ?thesis by (simp add: r)
qed

text \<open>
  C2: The observer sees one start event first and one closing event last, and none in between.
  A completed run reports the structured report of its trace, has no cancelled assertion and
  totals that count the passed and the failed records; a cancelled run has an uncancelled
  prefix followed by cancelled records only, and both its totals stay zero.
\<close>

theorem run_closes_once:
  "case run_with_observer D p rid w of (t, evs, w') \<Rightarrow>
     evs \<noteq> [] \<and> hd evs = OnRunStart rid p \<and> inner (butlast (tl evs))
     \<and> closing (de_formats D) rid t (last evs)"
proof -
  obtain t evs w' where r: "run_with_observer D p rid w = (t, evs, w')"
    by (cases "run_with_observer D p rid w") auto
  obtain es cl where f: "evs = OnRunStart rid p # es @ [cl]"
    "covered D (p_sections p) (t_sections t) es" "closing (de_formats D) rid t cl"
    by (rule run_facts [OF r])
  from f(2) have "inner es" by (simp add: covered_def stretch_def)
  with f(1,3) r show ?thesis by simp
qed

section \<open>Cancelled before it started\<close>

text \<open>
  C8: A run whose context is already cancelled when the first section is polled calls neither
  the runner nor the evaluator: every assertion is recorded and announced as cancelled, and the
  world has only served the clock and the poll.
\<close>

theorem run_cancelled_at_once:
  assumes "p_sections p \<noteq> []" and "de_now D w = (now, wa)" and "de_cancelled D wa = (True, wb)"
    and "de_now D wb = (te, wc)"
  shows "case run_with_observer D p rid w of (t, evs, w') \<Rightarrow>
     w' = wc \<and> t_sections t = map cancelled_section (p_sections p)
     \<and> evs = OnRunStart rid p # cancelled_events (all_assertions p) @ [OnRunCancelled rid t]"
proof -
  obtain s ss where p: "p_sections p = s # ss" using assms(1) by (cases "p_sections p") auto
  let ?rs = "\<lparr>rs_world = wb, rs_events = [OnRunStart rid p], rs_sections = [],
              rs_passed = 0, rs_failed = 0\<rparr>"
  have "unwind_remaining p 0 0 ?rs = ?rs
      \<lparr>rs_sections := map cancelled_section (p_sections p),
       rs_events := OnRunStart rid p # cancelled_events (all_assertions p)\<rparr>"
    using unwind_sections_new [of ?rs 0 "p_sections p"]
    by (simp add: unwind_remaining_def all_assertions_def)
  with assms show ?thesis
    by (simp add: run_with_observer_def p Let_def)
qed

text \<open>A playbook with one assertion, and a director whose context is cancelled.\<close>

definition no_rule :: evaluation_rule where
  "no_rule = \<lparr>r_regex = [], r_includeStdErr = None, r_func = [], r_funcFile = []\<rparr>"

definition plain_exec :: "string \<Rightarrow> exec" where
  "plain_exec s =
     \<lparr>e_shell = [], e_shellFunc = [], e_shellFuncFile = [], e_script = s,
      e_scriptFileExtension = [], e_func = [], e_funcFile = [], e_gather = [],
      e_excludeFromReport = False, e_requireElevation = False\<rparr>"

definition plain_cmd :: "string \<Rightarrow> cmd" where
  "plain_cmd s =
     \<lparr>c_exec = plain_exec s, c_passScore = None, c_failScore = None, c_stdOutRule = no_rule,
      c_stdErrRule = no_rule, c_exitCodeRules = []\<rparr>"

definition plain_assertion :: "string \<Rightarrow> string list \<Rightarrow> assertion" where
  "plain_assertion code cmds =
     \<lparr>a_code = code, a_title = code, a_description = code, a_preCmds = [],
      a_cmds = map plain_cmd cmds, a_postCmds = [], a_minPassingScore = None,
      a_passDescription = [], a_failDescription = []\<rparr>"

definition sample_playbook :: playbook where
  "sample_playbook =
     \<lparr>p_title = ''sample'', p_reportFrontmatter = None,
      p_sections = [\<lparr>s_title = ''one'', s_description = [],
                     s_assertions = [plain_assertion ''A1'' [''true'', ''exit 3'']]\<rparr>],
      p_reportDestination = [], p_reportDestinationFolder = [],
      p_reportDestinationHTTPS = None\<rparr>"

definition sample_host :: host where
  "sample_host = \<lparr>h_goos = ''linux'', h_goarch = ''amd64'', h_environ = [],
                  h_getenv = (\<lambda>x. []), h_cwd = ''/''\<rparr>"

definition sample_formats :: report_formats where
  "sample_formats = \<lparr>rf_rfc3339 = (\<lambda>t. ''t''), rf_date = (\<lambda>t. ''d''), rf_datetime = (\<lambda>t. ''dt''),
                     rf_yaml = (\<lambda>m. [])\<rparr>"

definition stopped_director :: "int director_env" where
  "stopped_director =
     \<lparr>de_run = (\<lambda>e ctx w. ((empty_result, None), e, ctx, w)),
      de_eval = (\<lambda>r res ctx w. ((0, None), ctx, w)),
      de_cancelled = (\<lambda>w. (True, w)), de_now = (\<lambda>w. (w, w + 1)),
      de_host = sample_host, de_formats = sample_formats\<rparr>"

lemma run_cancelled_at_once_witness:
  "case run_with_observer stopped_director sample_playbook ''r1'' 7 of (t, evs, w') \<Rightarrow>
     w' = 9 \<and> t_sections t = map cancelled_section (p_sections sample_playbook)
     \<and> evs = OnRunStart ''r1'' sample_playbook
              # cancelled_events (all_assertions sample_playbook) @ [OnRunCancelled ''r1'' t]"
  by (rule run_cancelled_at_once [where now = 7 and te = 8 and wa = 8 and wb = 8])
    (simp_all add: sample_playbook_def stopped_director_def)

section \<open>What is logged of an assertion\<close>

text \<open>
  The records keep the playbook's commands: the logs of each group are a prefix of the group,
  the whole of it unless the assertion was cancelled; and no gathered value of an excluded key
  is in the reported context.
\<close>

definition logs_ok :: "assertion_context \<Rightarrow> bool" where
  "logs_ok ac \<longleftrightarrow>
     (let a = ac_assertion ac;
          pre = map l_exec (ac_preCmdLogs ac);
          main = map l_exec (ac_cmdLogs ac);
          post = map l_exec (ac_postCmdLogs ac) in
      if is_cancelled ac
      then prefix pre (a_preCmds a) \<and> prefix main (map c_exec (a_cmds a)) \<and> prefix post (a_postCmds a)
      else pre = a_preCmds a \<and> main = map c_exec (a_cmds a) \<and> post = a_postCmds a)"

definition context_ok :: "assertion_context \<Rightarrow> bool" where
  "context_ok ac \<longleftrightarrow>
     (case ac_context ac of
        None \<Rightarrow> is_cancelled ac
      | Some m \<Rightarrow> list_all (\<lambda>k. m k = None) (excluded_keys (ac_assertion ac)))"

text \<open>The parts of one run of an assertion.\<close>

lemma run_assertion_parts:
  assumes "run_assertion D a w evs = (ac, w', evs')"
  obtains w0 pre st1 st2 post st3 where
    "side_loop D ''PreCmd'' a (a_preCmds a)
       \<lparr>st_world = w0, st_ctx = Map.empty, st_score = 0, st_cancelled = False,
        st_cmdLogs = [], st_outputs = [], st_events = evs\<rparr> = (pre, st1)"
    "st2 = (if st_cancelled st1 then st1 else cmd_loop D (a_cmds a) st1)"
    "(post, st3) = (if st_cancelled st2 then ([], st2)
                    else side_loop D ''PostCmd'' a (a_postCmds a) st2)"
    "ac_assertion ac = a" "ac_preCmdLogs ac = pre" "ac_cmdLogs ac = st_cmdLogs st3"
    "ac_postCmdLogs ac = post" "ac_outputs ac = st_outputs st3"
    "is_cancelled ac = st_cancelled st3"
    "ac_score ac = (if st_cancelled st3 then 0 else st_score st3)"
    "ac_minScore ac = (if st_cancelled st3 then 0 else get_min_passing_score a)"
    "ac_context ac = Some (if st_cancelled st3 then Map.empty else reported_context a (st_ctx st3))"
    "ac_status ac = (if st_cancelled st3 then AssertionStatusCancelled
                     else if ac_passed ac then AssertionStatusPassed else AssertionStatusFailed)"
    "ac_passed ac = (\<not> st_cancelled st3 \<and> int_le (get_min_passing_score a) (st_score st3))"
proof -
  obtain t0 w0 where n: "de_now D w = (t0, w0)" by (cases "de_now D w")
  let ?st0 = "\<lparr>st_world = w0, st_ctx = Map.empty, st_score = 0, st_cancelled = False,
               st_cmdLogs = [], st_outputs = [], st_events = evs\<rparr>"
  obtain pre st1 where s1: "side_loop D ''PreCmd'' a (a_preCmds a) ?st0 = (pre, st1)"
    by (cases "side_loop D ''PreCmd'' a (a_preCmds a) ?st0")
  let ?st2 = "if st_cancelled st1 then st1 else cmd_loop D (a_cmds a) st1"
  let ?last = "if st_cancelled ?st2 then ([], ?st2)
               else side_loop D ''PostCmd'' a (a_postCmds a) ?st2"
  obtain post st3 where s3: "(post, st3) = ?last" by (metis surj_pair)
  have rc: "run_commands D a ?st0 = (pre, post, st3)"
    using s1 s3 [symmetric] by (simp add: run_commands_def Let_def split: prod.splits)
  show thesis
    using assms
    by (intro that [OF s1 refl s3])
      (auto simp: run_assertion_def n rc is_cancelled_def Let_def split: prod.splits if_splits)
qed

lemma run_assertion_verdict:
  "run_assertion D a w evs = (ac, w', evs') \<Longrightarrow> verdict_ok ac"
  by (erule run_assertion_parts) (simp add: verdict_ok_def split: if_splits)

lemma run_assertion_context:
  "run_assertion D a w evs = (ac, w', evs') \<Longrightarrow> context_ok ac"
  by (erule run_assertion_parts)
    (simp add: context_ok_def reported_context_def list_all_iff)

lemma take_map_prefix: "map f xs = take n ys \<Longrightarrow> prefix (map f xs) ys"
  by (simp add: take_is_prefix)

lemma run_assertion_logs:
  assumes "run_assertion D a w evs = (ac, w', evs')"
  shows "logs_ok ac"
proof -
  obtain w0 pre st1 st2 post st3 where p:
    "side_loop D ''PreCmd'' a (a_preCmds a)
       \<lparr>st_world = w0, st_ctx = Map.empty, st_score = 0, st_cancelled = False,
        st_cmdLogs = [], st_outputs = [], st_events = evs\<rparr> = (pre, st1)"
    "st2 = (if st_cancelled st1 then st1 else cmd_loop D (a_cmds a) st1)"
    "(post, st3) = (if st_cancelled st2 then ([], st2)
                    else side_loop D ''PostCmd'' a (a_postCmds a) st2)"
    "ac_assertion ac = a" "ac_preCmdLogs ac = pre" "ac_cmdLogs ac = st_cmdLogs st3"
    "ac_postCmdLogs ac = post" "is_cancelled ac = st_cancelled st3"
    by (rule run_assertion_parts [OF assms]) blast
  note pre = side_loop_state [OF p(1)]
  have main: "map l_exec (st_cmdLogs st2) = map c_exec (take (length (st_cmdLogs st2)) (a_cmds a))
      \<and> (\<not> st_cancelled st2 \<longrightarrow> length (st_cmdLogs st2) = length (a_cmds a))"
    using cmd_loop_state [of D "a_cmds a" st1] pre p(2) by (cases "st_cancelled st1") auto
  have post: "st_cmdLogs st3 = st_cmdLogs st2
      \<and> map l_exec post = take (length post) (a_postCmds a)
      \<and> (\<not> st_cancelled st3 \<longrightarrow> \<not> st_cancelled st2 \<and> length post = length (a_postCmds a))"
    using p(3) side_loop_state [of D "''PostCmd''" a "a_postCmds a" st2 post st3]
    by (cases "st_cancelled st2") auto
  have "prefix (map l_exec pre) (a_preCmds a)" using pre take_is_prefix by metis
  moreover have "prefix (map l_exec (st_cmdLogs st2)) (map c_exec (a_cmds a))"
    using main take_is_prefix map_mono_prefix by metis
  moreover have "prefix (map l_exec post) (a_postCmds a)" using post take_is_prefix by metis
  moreover have "\<not> st_cancelled st3 \<Longrightarrow> \<not> st_cancelled st1 \<and> \<not> st_cancelled st2"
    using post p(2) by (auto split: if_splits)
  ultimately show ?thesis
    using pre main post by (auto simp: logs_ok_def p(4-8) Let_def)
qed

lemma cancelled_context_ok:
  "verdict_ok (cancelled_context a)" "logs_ok (cancelled_context a)"
  "context_ok (cancelled_context a)"
  by (simp_all add: verdict_ok_def logs_ok_def context_ok_def cancelled_context_def is_cancelled_def)

text \<open>
  C6: In every trace, cancelled or not, an assertion is passed exactly if it was not cancelled
  and its score reaches the minimum; its logs hold the playbook's own commands in order, all of
  them unless it was cancelled; and no value gathered under a key excluded from the report is in
  its context.
\<close>

theorem run_records_ok:
  "case run_with_observer D p rid w of (t, evs, w') \<Rightarrow>
     list_all verdict_ok (trace_assertions t)
     \<and> list_all logs_ok (trace_assertions t)
     \<and> list_all context_ok (trace_assertions t)"
proof -
  obtain t evs w' where r: "run_with_observer D p rid w = (t, evs, w')"
    by (cases "run_with_observer D p rid w") auto
  note all = list_all_run [OF _ _ r]
  have "list_all verdict_ok (trace_assertions t)"
    by (rule all) (simp add: cancelled_context_ok, rule run_assertion_verdict)
  moreover have "list_all logs_ok (trace_assertions t)"
    by (rule all) (simp add: cancelled_context_ok, rule run_assertion_logs)
  moreover have "list_all context_ok (trace_assertions t)"
    by (rule all) (simp add: cancelled_context_ok, rule run_assertion_context)
  ultimately show ?thesis by (simp add: r)
qed

end
