(* ===== verification/DirectorScore.thy ===== *)
theory DirectorScore
  imports DirectorRun Executor
begin

text \<open>
  What the verdict of an assertion depends on. The functions the director calls keep two
  contracts, stated as locales: running a command does not change its exclusion flag, and a
  rule without a script has a verdict that only depends on the rule and the output. Under them
  the score and the outputs of an assertion are functions of its command logs.
\<close>

section \<open>The contracts\<close>

definition logged_outputs :: "command_log \<Rightarrow> string list" where
  "logged_outputs lg =
     (if l_err lg = None then outputs_of (e_excludeFromReport (l_exec lg)) (l_result lg) else [])"

locale exclusion_kept =
  fixes D :: "'w director_env"
  assumes keeps_exclusion:
    "de_run D e ctx w = (r, e', ctx', w') \<Longrightarrow> e_excludeFromReport e' = e_excludeFromReport e"
begin

lemma run_logged_exclusion:
  "run_logged D e st = (lg, e', st') \<Longrightarrow> e_excludeFromReport e' = e_excludeFromReport e"
  by (auto simp: run_logged_def split: prod.splits dest: keeps_exclusion)

lemma cmd_step_outputs:
  "\<exists>lg. st_cmdLogs (cmd_step D c st) = st_cmdLogs st @ [lg]
     \<and> st_outputs (cmd_step D c st) = st_outputs st @ logged_outputs lg"
proof -
  obtain lg e' st1 where r: "run_logged D (c_exec c) st = (lg, e', st1)"
    by (cases "run_logged D (c_exec c) st") auto
  show ?thesis
    using run_logged_state [OF r] run_logged_exclusion [OF r]
    by (cases "l_err lg")
      (auto simp: cmd_step_def r Let_def logged_outputs_def split: prod.splits
        dest!: apply_rule_state)
qed

lemma cmd_loop_outputs:
  "\<exists>lgs. st_cmdLogs (cmd_loop D cs st) = st_cmdLogs st @ lgs
     \<and> st_outputs (cmd_loop D cs st) = st_outputs st @ concat (map logged_outputs lgs)"
proof (induction cs arbitrary: st)
  case (Cons c cs)
  note p = poll_state [of D st]
  show ?case
  proof (cases "st_cancelled (poll D st)")
    case True
    then show ?thesis using p by (auto simp: Let_def intro: exI [of _ "[]"])
  next
    case False
    let ?s = "cmd_step D c (poll D st)"
    obtain lg where s: "st_cmdLogs ?s = st_cmdLogs st @ [lg]"
      "st_outputs ?s = st_outputs st @ logged_outputs lg"
      using cmd_step_outputs [of c "poll D st"] p by auto
    from Cons.IH [of ?s] s obtain lgs where
      "st_cmdLogs (cmd_loop D cs ?s) = st_cmdLogs st @ lg # lgs"
      "st_outputs (cmd_loop D cs ?s) = st_outputs st @ concat (map logged_outputs (lg # lgs))"
      by auto
    then show ?thesis using False by (intro exI [of _ "lg # lgs"]) (auto simp: Let_def)
  qed
qed auto

lemma run_assertion_outputs:
  assumes "run_assertion D a w evs = (ac, w', evs')"
  shows "ac_outputs ac = concat (map logged_outputs (ac_cmdLogs ac))"
proof -
  obtain w0 pre st1 st2 post st3 where p:
    "side_loop D ''PreCmd'' a (a_preCmds a)
       \<lparr>st_world = w0, st_ctx = Map.empty, st_score = 0, st_cancelled = False,
        st_cmdLogs = [], st_outputs = [], st_events = evs\<rparr> = (pre, st1)"
    "st2 = (if st_cancelled st1 then st1 else cmd_loop D (a_cmds a) st1)"
    "(post, st3) = (if st_cancelled st2 then ([], st2)
                    else side_loop D ''PostCmd'' a (a_postCmds a) st2)"
    "ac_cmdLogs ac = st_cmdLogs st3" "ac_outputs ac = st_outputs st3"
    by (rule run_assertion_parts [OF assms]) blast
  note pre = side_loop_state [OF p(1)]
  have "st_outputs st2 = concat (map logged_outputs (st_cmdLogs st2))"
    using cmd_loop_outputs [of "a_cmds a" st1] pre p(2) by (cases "st_cancelled st1") auto
  moreover have "st_outputs st3 = st_outputs st2 \<and> st_cmdLogs st3 = st_cmdLogs st2"
    using p(3) side_loop_state [of D "''PostCmd''" a "a_postCmds a" st2 post st3]
    by (cases "st_cancelled st2") auto
  ultimately show ?thesis by (simp add: p(4,5))
qed

end

section \<open>Verdicts and scores\<close>

type_synonym verdict_fn = "evaluation_rule \<Rightarrow> execution_result \<Rightarrow> goint"

text \<open>A rule that speaks overrides the verdict so far.\<close>

definition overridden :: "verdict_fn \<Rightarrow> evaluation_rule \<Rightarrow> execution_result \<Rightarrow> goint \<Rightarrow> goint" where
  "overridden V rule res v =
     (if r_regex rule \<noteq> [] \<and> V rule res \<noteq> 0 then V rule res else v)"

text \<open>The verdict on a command that ran, and what its log adds to the score.\<close>

definition verdict :: "verdict_fn \<Rightarrow> cmd \<Rightarrow> execution_result \<Rightarrow> goint" where
  "verdict V c res =
     overridden V (c_stdErrRule c) res
       (overridden V (c_stdOutRule c) res (exit_verdict (c_exitCodeRules c) (res_exitCode res)))"

definition contribution :: "verdict_fn \<Rightarrow> cmd \<Rightarrow> command_log \<Rightarrow> goint" where
  "contribution V c lg =
     (case l_err lg of
        Some err \<Rightarrow> get_fail_score c
      | None \<Rightarrow> score_of c (verdict V c (l_result lg)))"

definition without_scripts :: "cmd \<Rightarrow> bool" where
  "without_scripts c \<longleftrightarrow> r_func (c_stdOutRule c) = [] \<and> r_func (c_stdErrRule c) = []"

locale pure_verdicts = exclusion_kept D for D :: "'w director_env" +
  fixes V :: verdict_fn
  assumes eval_verdict:
    "r_func rule = [] \<Longrightarrow> de_eval D rule res ctx w = ((v, err), ctx', w') \<Longrightarrow> v = V rule res"
begin

lemma apply_rule_verdict:
  assumes "r_func rule = []" and "apply_rule D rule res v st = (v', st')"
  shows "v' = overridden V rule res v"
  using assms eval_verdict [OF assms(1)]
  by (auto simp: apply_rule_def overridden_def split: prod.splits if_splits)

lemma apply_rule_full:
  "apply_rule D rule res v st = (v', st') \<Longrightarrow>
     (r_func rule = [] \<longrightarrow> v' = overridden V rule res v)
     \<and> st_score st' = st_score st \<and> st_cmdLogs st' = st_cmdLogs st"
  using apply_rule_verdict apply_rule_state by metis

lemma cmd_step_score:
  assumes "without_scripts c"
  shows "\<exists>lg. st_cmdLogs (cmd_step D c st) = st_cmdLogs st @ [lg]
     \<and> st_score (cmd_step D c st) = st_score st + contribution V c lg"
proof -
  obtain lg e' st1 where r: "run_logged D (c_exec c) st = (lg, e', st1)"
    by (cases "run_logged D (c_exec c) st") auto
  show ?thesis
    using run_logged_state [OF r] assms
    by (cases "l_err lg")
      (auto simp: cmd_step_def r Let_def contribution_def verdict_def without_scripts_def
        split: prod.splits dest!: apply_rule_full)
qed

lemma cmd_loop_score:
  assumes "list_all without_scripts cs"
  shows "\<exists>lgs. st_cmdLogs (cmd_loop D cs st) = st_cmdLogs st @ lgs
     \<and> st_score (cmd_loop D cs st) = st_score st + list_sum64 (map2 (contribution V) cs lgs)"
  using assms
proof (induction cs arbitrary: st)
  case (Cons c cs)
  note p = poll_state [of D st]
  show ?case
  proof (cases "st_cancelled (poll D st)")
    case True
    then show ?thesis using p by (auto simp: Let_def intro: exI [of _ "[]"])
  next
    case False
    let ?s = "cmd_step D c (poll D st)"
    obtain lg where s: "st_cmdLogs ?s = st_cmdLogs st @ [lg]"
      "st_score ?s = st_score st + contribution V c lg"
      using cmd_step_score [of c "poll D st"] p Cons.prems by auto
    from Cons.IH [of ?s] s Cons.prems obtain lgs where
      "st_cmdLogs (cmd_loop D cs ?s) = st_cmdLogs st @ lg # lgs"
      "st_score (cmd_loop D cs ?s)
        = st_score st + list_sum64 (map2 (contribution V) (c # cs) (lg # lgs))"
      by (auto simp: add.assoc)
    then show ?thesis using False by (intro exI [of _ "lg # lgs"]) (auto simp: Let_def)
  qed
qed auto

lemma run_assertion_score:
  assumes "run_assertion D a w evs = (ac, w', evs')" and "list_all without_scripts (a_cmds a)"
    and "\<not> is_cancelled ac"
  shows "ac_score ac = list_sum64 (map2 (contribution V) (a_cmds a) (ac_cmdLogs ac))"
proof -
  obtain w0 pre st1 st2 post st3 where p:
    "side_loop D ''PreCmd'' a (a_preCmds a)
       \<lparr>st_world = w0, st_ctx = Map.empty, st_score = 0, st_cancelled = False,
        st_cmdLogs = [], st_outputs = [], st_events = evs\<rparr> = (pre, st1)"
    "st2 = (if st_cancelled st1 then st1 else cmd_loop D (a_cmds a) st1)"
    "(post, st3) = (if st_cancelled st2 then ([], st2)
                    else side_loop D ''PostCmd'' a (a_postCmds a) st2)"
    "ac_cmdLogs ac = st_cmdLogs st3" "is_cancelled ac = st_cancelled st3"
    "ac_score ac = (if st_cancelled st3 then 0 else st_score st3)"
    by (rule run_assertion_parts [OF assms(1)]) blast
  note pre = side_loop_state [OF p(1)]
  have nc: "\<not> st_cancelled st2" "\<not> st_cancelled st1"
    using p(2,3,5) assms(3) by (auto split: if_splits)
  have "st_score st2 = list_sum64 (map2 (contribution V) (a_cmds a) (st_cmdLogs st2))"
    using cmd_loop_score [OF assms(2), of st1] pre nc p(2) by auto
  moreover have "st_score st3 = st_score st2 \<and> st_cmdLogs st3 = st_cmdLogs st2"
    using p(3) nc side_loop_state [of D "''PostCmd''" a "a_postCmds a" st2 post st3] by auto
  ultimately show ?thesis using p(4,5,6) assms(3) by simp
qed

end

section \<open>The director on the executor\<close>

definition director_of ::
    "('j, 'w) exec_env \<Rightarrow> ('w \<Rightarrow> bool \<times> 'w) \<Rightarrow> ('w \<Rightarrow> gotime \<times> 'w) \<Rightarrow> report_formats
       \<Rightarrow> 'w director_env" where
  "director_of E canc now F =
     \<lparr>de_run = run_exec E, de_eval = evaluate_rule E, de_cancelled = canc, de_now = now,
      de_host = x_host E, de_formats = F\<rparr>"

text \<open>The verdict of a rule without a script: by its regular expression alone.\<close>

definition regex_verdict :: "('j, 'w) exec_env \<Rightarrow> verdict_fn" where
  "regex_verdict E rule res =
     (if r_regex rule = [] then 0
      else case x_regex E (r_regex rule) (matched_input (rule_include_stderr rule) res) of
             Inl err \<Rightarrow> 0
           | Inr ms \<Rightarrow> if ms \<noteq> [] then 1 else -1)"

lemma run_exec_flags:
  "run_exec E e ctx w = (r, e', ctx', w') \<Longrightarrow> \<exists>s. e' = e\<lparr>e_script := s\<rparr>"
  by (auto simp: run_exec_def Let_def split: prod.splits sum.splits option.splits if_splits)
    (metis exec.surjective exec.update_convs(4))+

interpretation dir: pure_verdicts "director_of E canc now F" "regex_verdict E"
  for E :: "('j, 'w) exec_env" and canc now F
proof unfold_locales
  show "de_run (director_of E canc now F) e ctx w = (r, e', ctx', w')
      \<Longrightarrow> e_excludeFromReport e' = e_excludeFromReport e" for e ctx w r e' ctx' w'
    by (auto simp: director_of_def dest: run_exec_flags)
  show "r_func rule = [] \<Longrightarrow> de_eval (director_of E canc now F) rule res ctx w = ((v, err), ctx', w')
      \<Longrightarrow> v = regex_verdict E rule res" for rule res ctx w v err ctx' w'
    by (auto simp: director_of_def evaluate_rule_def regex_verdict_def Let_def split: sum.splits if_splits)
qed

section \<open>Default scores\<close>









section \<open>Properties of every run\<close>

lemma list_all_run_in:
  assumes "\<And>a. P (cancelled_context a)"
    and "\<And>a w evs ac w' evs'. a \<in> set (all_assertions p)
           \<Longrightarrow> run_assertion D a w evs = (ac, w', evs') \<Longrightarrow> P ac"
    and "run_with_observer D p rid w = (t, evs, w')"
  shows "list_all P (trace_assertions t)"
proof -
  obtain es cl where "covered D (p_sections p) (t_sections t) es"
    by (rule run_facts [OF assms(3)])
  then have m: "map ac_assertion (trace_assertions t) = all_assertions p"
    by (simp add: covered_def stretch_def trace_assertions_def all_assertions_def)
  show ?thesis
    unfolding list_all_iff
  proof
    fix ac assume ac: "ac \<in> set (trace_assertions t)"
    then have i: "ac_assertion ac \<in> set (all_assertions p)" using m by (metis image_eqI list.set_map)
    have "arises D ac" using run_arises [OF assms(3)] ac by (simp add: list_all_iff)
    then show "P ac"
    proof (unfold arises_def, elim disjE exE)
      fix a assume "ac = cancelled_context a"
      then show ?thesis using assms(1) by simp
    next
      fix a w evs w' evs' assume r: "run_assertion D a w evs = (ac, w', evs')"
      have "ac_assertion ac = a" by (rule run_assertion_parts [OF r]) blast
      with i r show ?thesis using assms(2) by blast
    qed
  qed
qed

lemma cancelled_context_sel:
  "is_cancelled (cancelled_context a)" "ac_outputs (cancelled_context a) = []"
  "ac_cmdLogs (cancelled_context a) = []" "ac_score (cancelled_context a) = 0"
  "\<not> ac_passed (cancelled_context a)"
  by (simp_all add: cancelled_context_def is_cancelled_def)

text \<open>
  What a reader of a report finds as evidence for one command, written down from the
  documentation of the playbook: nothing where the command failed to run, a single marker where
  the playbook excludes it from the report, otherwise what it printed, with headings as soon as
  there is something on its standard error.
\<close>

definition evidence :: "command_log \<Rightarrow> string list" where
  "evidence lg =
     (let out = res_stdout (l_result lg); err = res_stderr (l_result lg) in
      case l_err lg of
        Some e \<Rightarrow> []
      | None \<Rightarrow>
          if e_excludeFromReport (l_exec lg) then [''[REDACTED]'']
          else if err = [] then [out]
          else if out = [] then [''# --- STDERR ---'', err]
          else [''# --- STDOUT ---'', out, ''# --- STDERR ---'', err])"

lemma logged_outputs_evidence: "logged_outputs = evidence"
  by (rule ext)
    (auto split: option.splits simp: logged_outputs_def outputs_of_def evidence_def redacted_def stdout_marker_def
      stderr_marker_def Let_def)

lemma run_outputs:
  assumes "run_with_observer (director_of E canc now F) p rid w = (t, evs, w')"
  shows "list_all (\<lambda>ac. ac_outputs ac = concat (map evidence (ac_cmdLogs ac))) (trace_assertions t)"
proof (rule list_all_run [OF _ _ assms])
  fix a w evs ac w' evs'
  assume "run_assertion (director_of E canc now F) a w evs = (ac, w', evs')"
  then have "ac_outputs ac = concat (map logged_outputs (ac_cmdLogs ac))"
    by (rule dir.run_assertion_outputs)
  then show "ac_outputs ac = concat (map evidence (ac_cmdLogs ac))"
    by (simp add: logged_outputs_evidence)
qed (simp add: cancelled_context_sel)

text \<open>
  C7: In every run, the outputs of an assertion, which the report prints as evidence and the
  observer receives, are the evidence of its logged main commands in order: nothing for a command
  that failed to run, the text [REDACTED] alone for a command whose playbook entry excludes it
  from the report, and otherwise its standard output, or, where there is a standard error, each
  non-empty stream under its heading. Running a command can not change its exclusion.
\<close>

theorem run_outputs_logged:
  "case run_with_observer (director_of E canc now F) p rid w of (t, evs, w') \<Rightarrow>
     list_all (\<lambda>ac. ac_outputs ac = concat (map evidence (ac_cmdLogs ac))) (trace_assertions t)"
  by (cases "run_with_observer (director_of E canc now F) p rid w") (auto dest: run_outputs)

text \<open>
  C4: Where the output rules of a playbook's commands are regular expressions, the score of
  every assertion that was not cancelled is the 64-bit sum of its commands' contributions: the
  fail score of a command that could not run; the pass score, the fail score or nothing for one
  that did, by the verdict of its exit-code rules, overridden by its stdout rule and then its
  stderr rule where they give one.
\<close>

theorem run_scores:
  assumes "list_all (\<lambda>a. list_all without_scripts (a_cmds a)) (all_assertions p)"
  shows "case run_with_observer (director_of E canc now F) p rid w of (t, evs, w') \<Rightarrow>
     list_all (\<lambda>ac. ac_score ac =
         (if is_cancelled ac then 0
          else list_sum64 (map2 (contribution (regex_verdict E)) (a_cmds (ac_assertion ac))
                 (ac_cmdLogs ac))))
       (trace_assertions t)"
proof -
  let ?D = "director_of E canc now F"
  let ?P = "\<lambda>ac. ac_score ac = (if is_cancelled ac then 0
     else list_sum64 (map2 (contribution (regex_verdict E)) (a_cmds (ac_assertion ac)) (ac_cmdLogs ac)))"
  obtain t evs w' where r: "run_with_observer ?D p rid w = (t, evs, w')"
    by (cases "run_with_observer ?D p rid w") auto
  have "list_all ?P (trace_assertions t)"
  proof (rule list_all_run_in [OF _ _ r])
    fix a w evs ac w' evs'
    assume a: "a \<in> set (all_assertions p)" and ra: "run_assertion ?D a w evs = (ac, w', evs')"
    have s: "ac_assertion ac = a \<and> (is_cancelled ac \<longrightarrow> ac_score ac = 0)"
      by (rule run_assertion_parts [OF ra]) simp
    have "list_all without_scripts (a_cmds a)" using assms a by (simp add: list_all_iff)
    with dir.run_assertion_score [OF ra] s show "?P ac" by auto
  qed (simp add: cancelled_context_sel)
  then show ?thesis by (simp add: r)
qed

definition sample_env :: "(string, int) exec_env" where
  "sample_env =
     \<lparr>x_engine = \<lparr>js_run = (\<lambda>i code ctx w. (Inr code, ctx, w)), js_is_fn = (\<lambda>v. False),
                  js_call = (\<lambda>v i ctx w. (Inr v, ctx, w)), js_string = (\<lambda>v. v),
                  js_int = (\<lambda>v. 0), js_nullish = (\<lambda>v. False)\<rparr>,
      x_host = sample_host, x_regex = (\<lambda>pat s. Inr []),
      x_local = (\<lambda>c w. ((\<lparr>res_stdout = rq_script c, res_stderr = [],
                         res_exitCode = (if rq_script c = ''true'' then 0 else 3),
                         res_success = (rq_script c = ''true'')\<rparr>, None), w + 1)),
      x_elevated = None\<rparr>"

definition sample_director :: "int director_env" where
  "sample_director = director_of sample_env (\<lambda>w. (False, w)) (\<lambda>w. (w, w + 1)) sample_formats"

lemma run_scores_witness:
  "case run_with_observer sample_director sample_playbook ''r1'' 0 of (t, evs, w') \<Rightarrow>
     list_all (\<lambda>ac. ac_score ac =
         (if is_cancelled ac then 0
          else list_sum64 (map2 (contribution (regex_verdict sample_env))
                 (a_cmds (ac_assertion ac)) (ac_cmdLogs ac))))
       (trace_assertions t)"
  unfolding sample_director_def
  by (rule run_scores)
    (simp add: sample_playbook_def all_assertions_def plain_assertion_def plain_cmd_def
      without_scripts_def no_rule_def)



text \<open>The run of the sample: its first command passes, its second fails, so it fails with 0.\<close>

lemma sample_run:
  "map (\<lambda>ac. (ac_status ac, ac_score ac, ac_minScore ac, ac_outputs ac))
     (trace_assertions (fst (run_with_observer sample_director sample_playbook ''r1'' 0)))
   = [(AssertionStatusFailed, 0, 2, [''true'', ''exit 3''])]"
  by code_simp

end
