(* ===== verification/Redaction.thy ===== *)
theory Redaction
  imports DirectorScore
begin

text \<open>
  What the exclusion flags of a playbook keep out of the reports. The contract is the one the
  field descriptions of \<open>playbook_types.go\<close> give: \<open>excludeFromReport\<close> of a command hides its
  stdout and stderr from the log and the Markdown report, and \<open>excludeFromReport\<close> of a gather
  hides its key from the JSON report. It is stated as non-interference: a run's trace is scrubbed
  of everything the flags cover, and the reports do not change. The flags do not cover what an
  unflagged gather or a rule's script derives from the output of an excluded command: those values
  and the verdict are reported.
\<close>

section \<open>What the flags cover\<close>

text \<open>A key is hidden if a gather of one of the assertion's commands says so.\<close>

definition hidden_key :: "assertion \<Rightarrow> string \<Rightarrow> bool" where
  "hidden_key a k \<longleftrightarrow>
     list_ex (\<lambda>e. list_ex (\<lambda>g. g_excludeFromReport g \<and> g_key g = k) (e_gather e))
       (assertion_execs a)"

text \<open>
  The record without the output of excluded commands: in the three lists of logs the streams are
  blotted out, the evidence is taken anew from the blotted logs, and the hidden keys are removed.
\<close>

definition scrub_assertion :: "assertion_context \<Rightarrow> assertion_context" where
  "scrub_assertion ac =
     ac\<lparr>ac_preCmdLogs := map redact_log (ac_preCmdLogs ac),
        ac_cmdLogs := map redact_log (ac_cmdLogs ac),
        ac_postCmdLogs := map redact_log (ac_postCmdLogs ac),
        ac_outputs := concat (map (evidence \<circ> redact_log) (ac_cmdLogs ac)),
        ac_context :=
          map_option (\<lambda>m k. if hidden_key (ac_assertion ac) k then None else m k) (ac_context ac)\<rparr>"

definition scrub_section :: "section_context \<Rightarrow> section_context" where
  "scrub_section sc = sc\<lparr>sc_assertions := map scrub_assertion (sc_assertions sc)\<rparr>"

definition scrub_trace :: "execution_trace \<Rightarrow> execution_trace" where
  "scrub_trace t = t\<lparr>t_sections := map scrub_section (t_sections t)\<rparr>"

section \<open>Confinement\<close>

lemma evidence_redact: "evidence (redact_log lg) = evidence lg"
  by (simp add: evidence_def redact_log_def Let_def split: option.splits)

lemma hidden_key_excluded: "hidden_key a k \<longleftrightarrow> k \<in> set (excluded_keys a)"
  by (auto simp: hidden_key_def excluded_keys_def gather_excluded_def assertion_execs_def
      list_ex_iff)

text \<open>
  The records of a run: their evidence is that of their logs and they hold no hidden key. Each
  part of a report of such a record is that of the scrubbed one.
\<close>

definition confined :: "assertion_context \<Rightarrow> bool" where
  "confined ac \<longleftrightarrow> ac_outputs ac = concat (map evidence (ac_cmdLogs ac)) \<and> context_ok ac"

lemma run_confined:
  assumes "run_with_observer (director_of E canc now F) p rid w = (t, evs, w')"
  shows "list_all confined (trace_assertions t)"
proof -
  have "list_all context_ok (trace_assertions t)"
    by (rule list_all_run [OF _ _ assms]) (simp add: cancelled_context_ok, rule run_assertion_context)
  with run_outputs [OF assms] show ?thesis by (simp add: list_all_iff confined_def)
qed

lemma scrub_outputs: "confined ac \<Longrightarrow> ac_outputs (scrub_assertion ac) = ac_outputs ac"
  by (simp add: confined_def scrub_assertion_def comp_def evidence_redact)

lemma scrub_context: "confined ac \<Longrightarrow> ac_context (scrub_assertion ac) = ac_context ac"
  by (cases "ac_context ac")
    (auto simp: confined_def context_ok_def scrub_assertion_def hidden_key_excluded list_all_iff)

lemma scrub_entry: "confined ac \<Longrightarrow> report_entry (scrub_assertion ac) = report_entry ac"
  by (simp add: report_entry_def scrub_context) (simp add: scrub_assertion_def)

lemma scrub_log: "assertion_log (scrub_assertion ac) = assertion_log ac"
  by (simp add: assertion_log_def scrub_assertion_def comp_def command_log_text_redact)

lemma scrub_markdown: "confined ac \<Longrightarrow> assertion_markdown (scrub_assertion ac) = assertion_markdown ac"
  by (simp add: assertion_markdown_def Let_def scrub_outputs)
    (simp add: scrub_assertion_def verdict_text_def Let_def)

lemma scrub_section_log: "section_log (scrub_section sc) = section_log sc"
  by (simp add: section_log_def scrub_section_def comp_def scrub_log)

lemma scrub_section_markdown:
  "list_all confined (sc_assertions sc) \<Longrightarrow> section_markdown (scrub_section sc) = section_markdown sc"
  by (simp add: section_markdown_def scrub_section_def comp_def scrub_markdown list_all_iff
      cong: map_cong)

lemma trace_assertions_scrub:
  "trace_assertions (scrub_trace t) = map scrub_assertion (trace_assertions t)"
  by (simp add: trace_assertions_def scrub_trace_def scrub_section_def map_concat comp_def)

lemma scrub_trace_sel:
  "t_playbook (scrub_trace t) = t_playbook t" "t_start (scrub_trace t) = t_start t"
  "t_end (scrub_trace t) = t_end t" "t_username (scrub_trace t) = t_username t"
  "t_os (scrub_trace t) = t_os t" "t_arch (scrub_trace t) = t_arch t"
  "t_totalPassed (scrub_trace t) = t_totalPassed t"
  "t_totalFailed (scrub_trace t) = t_totalFailed t"
  "t_sections (scrub_trace t) = map scrub_section (t_sections t)"
  by (simp_all add: scrub_trace_def)

lemma scrub_entries:
  assumes "list_all confined as"
  shows "report_entries (map scrub_assertion as) = report_entries as"
proof -
  have a: "ac_assertion (scrub_assertion ac) = ac_assertion ac" for ac
    by (simp add: scrub_assertion_def)
  have "foldl (\<lambda>m a. m(a_code (ac_assertion a) \<mapsto> report_entry a)) m (map scrub_assertion as)
      = foldl (\<lambda>m a. m(a_code (ac_assertion a) \<mapsto> report_entry a)) m as" for m
    using assms by (induction as arbitrary: m) (simp_all add: a scrub_entry)
  then show ?thesis by (simp add: report_entries_def)
qed

lemma scrub_report:
  assumes "list_all confined (trace_assertions t)"
  shows "generate_report F (scrub_trace t) = generate_report F t"
proof -
  have s: "list_all confined (sc_assertions sc)" if "sc \<in> set (t_sections t)" for sc
    using assms that by (auto simp: trace_assertions_def list_all_iff)
  have "map (\<lambda>sc. section_markdown (scrub_section sc)) (t_sections t)
      = map section_markdown (t_sections t)"
    by (rule map_cong) (simp_all add: scrub_section_markdown s)
  then show ?thesis
    by (cases "p_reportFrontmatter (t_playbook t)")
      (simp_all add: generate_report_def Let_def trace_assertions_scrub scrub_entries [OF assms]
        filled_frontmatter_def scrub_trace_sel comp_def scrub_section_log del: map_eq_conv)
qed

lemma run_agrees:
  assumes "run_with_observer D p rid w = (t, evs, w')"
  shows "list_all2 agrees (trace_assertions t) (completions evs)"
proof -
  obtain es cl where f: "evs = OnRunStart rid p # es @ [cl]"
    "covered D (p_sections p) (t_sections t) es" "closing (de_formats D) rid t cl"
    by (rule run_facts [OF assms])
  have "completions evs = completions es" using f(1,3) by (cases cl) (auto simp: closing_def)
  with f(2) show ?thesis by (simp add: covered_def stretch_def trace_assertions_def)
qed

section \<open>No report and no completion event shows excluded output\<close>

text \<open>
  C9: What the playbook's exclusion flags cover reaches no report of a run and no completion
  event. Blot out both output streams of every excluded command in the trace of any run, take
  the evidence of the assertions anew from that, and remove every key whose gather is excluded:
  the log, the Markdown document and the structured report generated from the trace stay the same,
  and so does the output each completion event carries.
\<close>

theorem reports_hide_excluded_output:
  "case run_with_observer (director_of E canc now F) p rid w of (t, evs, w') \<Rightarrow>
     generate_report G (scrub_trace t) = generate_report G t
     \<and> map (pr_output \<circ> snd) (completions evs)
       = map (\<lambda>ac. str_join (ac_outputs ac) nl) (trace_assertions (scrub_trace t))"
proof -
  obtain t evs w' where r: "run_with_observer (director_of E canc now F) p rid w = (t, evs, w')"
    by (cases "run_with_observer (director_of E canc now F) p rid w") auto
  note c = run_confined [OF r]
  have "list_all2 agrees (trace_assertions t) (completions evs)" by (rule run_agrees [OF r])
  then have "map (pr_output \<circ> snd) (completions evs)
      = map (\<lambda>ac. str_join (ac_outputs ac) nl) (trace_assertions t)"
    by (induction rule: list_all2_induct) (auto simp: agrees_def split: prod.splits)
  also have "\<dots> = map (\<lambda>ac. str_join (ac_outputs ac) nl) (trace_assertions (scrub_trace t))"
    using c by (simp add: trace_assertions_scrub scrub_outputs list_all_iff)
  finally show ?thesis by (simp add: r scrub_report [OF c])
qed

end
