(* ===== verification/Validator.thy ===== *)
theory Validator
  imports Playbook
begin

text \<open>
  Playbook validation (\<open>playbook/validator.go\<close>): the hierarchical \<open>Validate\<close> methods, with
  the map of assertion codes seen so far threaded through them, and a declarative
  specification of the playbooks that pass.
\<close>

section \<open>Errors\<close>

record validation_error =
  v_path :: string
  v_code :: string
  v_message :: string

abbreviation verr :: "string \<Rightarrow> string \<Rightarrow> string \<Rightarrow> validation_error" where
  "verr p c m \<equiv> \<lparr>v_path = p, v_code = c, v_message = m\<rparr>"

definition validation_error_text :: "validation_error \<Rightarrow> string" where
  "validation_error_text v =
     (if v_path v \<noteq> [] then v_path v @ '': '' @ v_message v else v_message v)"

definition validation_errors_text :: "validation_error list \<Rightarrow> string" where
  "validation_errors_text ve =
     (if ve = [] then [] else str_join (map validation_error_text ve) [CHR 0x0A])"

section \<open>Assertions\<close>

definition bracketed :: "nat \<Rightarrow> string" where
  "bracketed i = ''['' @ nat_str i @ '']''"

definition section_path :: "nat \<Rightarrow> string" where
  "section_path i = ''sections'' @ bracketed i"

definition assertion_path :: "nat \<Rightarrow> nat \<Rightarrow> string" where
  "assertion_path i j = section_path i @ ''.assertions'' @ bracketed j"

definition prohibited :: "string \<Rightarrow> string \<Rightarrow> string \<Rightarrow> string \<Rightarrow> string \<Rightarrow> validation_error list" where
  "prohibited file path code field place =
     (if file \<noteq> []
      then [verr path ''PROHIBITED_AGENT_FUNC''
              (''agent error: assertion '' @ code @ '' contains '' @ field @ '' in '' @ place)]
      else [])"

definition agent_exec_errors ::
    "string \<Rightarrow> string \<Rightarrow> string \<Rightarrow> string \<Rightarrow> nat \<times> exec \<Rightarrow> validation_error list" where
  "agent_exec_errors ap code sl place ke =
     (case ke of (k, e) \<Rightarrow>
        prohibited (e_funcFile e) (ap @ ''.'' @ sl @ bracketed k @ ''.funcFile'')
          code ''funcFile'' place
        @ prohibited (e_shellFuncFile e) (ap @ ''.'' @ sl @ bracketed k @ ''.shellFuncFile'')
          code ''shellFuncFile'' place)"

definition agent_cmd_errors :: "string \<Rightarrow> string \<Rightarrow> nat \<times> cmd \<Rightarrow> validation_error list" where
  "agent_cmd_errors ap code kc =
     (case kc of (k, c) \<Rightarrow>
        let cp = ap @ ''.cmds'' @ bracketed k in
        prohibited (e_funcFile (c_exec c)) (cp @ ''.exec.funcFile'') code ''funcFile'' ''cmd''
        @ prohibited (e_shellFuncFile (c_exec c)) (cp @ ''.exec.shellFuncFile'')
            code ''shellFuncFile'' ''cmd''
        @ prohibited (r_funcFile (c_stdOutRule c)) (cp @ ''.stdOutRule.funcFile'')
            code ''funcFile'' ''stdOutRule''
        @ prohibited (r_funcFile (c_stdErrRule c)) (cp @ ''.stdErrRule.funcFile'')
            code ''funcFile'' ''stdErrRule''
        @ concat (map (\<lambda>(gIdx, g).
            prohibited (g_funcFile g) (cp @ ''.exec.gather'' @ bracketed gIdx @ ''.funcFile'')
              code ''funcFile'' ''gather'')
            (enum_from 0 (e_gather (c_exec c)))))"

definition agent_errors :: "string \<Rightarrow> assertion \<Rightarrow> validation_error list" where
  "agent_errors ap a =
     concat (map (agent_exec_errors ap (a_code a) ''preCmds'' ''preCmd'')
               (enum_from 0 (a_preCmds a)))
     @ concat (map (agent_cmd_errors ap (a_code a)) (enum_from 0 (a_cmds a)))
     @ concat (map (agent_exec_errors ap (a_code a) ''postCmds'' ''postCmd'')
               (enum_from 0 (a_postCmds a)))"

text \<open>The check of the code: the errors, and the map of codes with their declaring paths.\<close>

definition validate_code ::
    "string \<Rightarrow> (string \<rightharpoonup> string) \<Rightarrow> assertion \<Rightarrow> validation_error list \<times> (string \<rightharpoonup> string)" where
  "validate_code ap seen a =
     (if trim_space (a_code a) = []
      then ([verr (ap @ ''.code'') ''MISSING_CODE'' ''assertion code is required''], seen)
      else (case seen (a_code a) of
              Some prevPath \<Rightarrow>
                ([verr (ap @ ''.code'') ''DUPLICATE_CODE''
                   (''duplicate assertion code '' @ [CHR 0x27] @ a_code a @ [CHR 0x27]
                    @ '' previously declared at '' @ prevPath)], seen)
            | None \<Rightarrow> ([], seen(a_code a \<mapsto> ap @ ''.code''))))"

definition validate_assertion ::
    "bool \<Rightarrow> nat \<Rightarrow> nat \<Rightarrow> (string \<rightharpoonup> string) \<Rightarrow> assertion
       \<Rightarrow> validation_error list \<times> (string \<rightharpoonup> string)" where
  "validate_assertion isAgent i j seen a =
     (let ap = assertion_path i j;
          (errs, seen') = validate_code ap seen a
      in (errs @ (if isAgent then agent_errors ap a else []), seen'))"

section \<open>Sections\<close>

definition validate_title :: "string \<Rightarrow> string \<Rightarrow> string \<Rightarrow> validation_error list" where
  "validate_title path what t =
     (if trim_space t = []
      then [verr path ''MISSING_TITLE'' (what @ '' title is required'')]
      else if length (trim_space t) < 3
      then [verr path ''INVALID_TITLE'' (what @ '' title must be at least 3 characters'')]
      else [])"

fun validate_assertions ::
    "bool \<Rightarrow> nat \<Rightarrow> (nat \<times> assertion) list \<Rightarrow> (string \<rightharpoonup> string)
       \<Rightarrow> validation_error list \<times> (string \<rightharpoonup> string)" where
  "validate_assertions isAgent i [] seen = ([], seen)"
| "validate_assertions isAgent i ((j, a) # jas) seen =
     (let (errs, seen1) = validate_assertion isAgent i j seen a;
          (errs', seen2) = validate_assertions isAgent i jas seen1
      in (errs @ errs', seen2))"

definition validate_section ::
    "bool \<Rightarrow> nat \<Rightarrow> (string \<rightharpoonup> string) \<Rightarrow> pb_section
       \<Rightarrow> validation_error list \<times> (string \<rightharpoonup> string)" where
  "validate_section isAgent i seen s =
     (let sp = section_path i;
          terrs = validate_title (sp @ ''.title'') ''section'' (s_title s)
      in if s_assertions s = []
         then (terrs @ [verr (sp @ ''.assertions'') ''EMPTY_ASSERTIONS''
                          ''section must contain at least one assertion''], seen)
         else (let (errs, seen') = validate_assertions isAgent i (enum_from 0 (s_assertions s)) seen
               in (terrs @ errs, seen')))"

section \<open>The playbook\<close>

fun validate_sections ::
    "bool \<Rightarrow> (nat \<times> pb_section) list \<Rightarrow> (string \<rightharpoonup> string)
       \<Rightarrow> validation_error list \<times> (string \<rightharpoonup> string)" where
  "validate_sections isAgent [] seen = ([], seen)"
| "validate_sections isAgent ((i, s) # iss) seen =
     (let (errs, seen1) = validate_section isAgent i seen s;
          (errs', seen2) = validate_sections isAgent iss seen1
      in (errs @ errs', seen2))"

definition validate_https :: "dest_config option \<Rightarrow> validation_error list" where
  "validate_https dest =
     (case dest of
        None \<Rightarrow> [verr ''report_destination.https'' ''MISSING_HTTPS_CONFIG''
                   ''https configuration is required when report destination is https'']
      | Some c \<Rightarrow>
          (if trim_space (d_url c) = []
           then [verr ''report_destination.https.url'' ''MISSING_URL''
                   ''https destination URL is required'']
           else if \<not> has_prefix (d_url c) ''https://''
           then [verr ''report_destination.https.url'' ''INVALID_URL''
                   ''https destination URL must start with https://'']
           else [])
          @ (if d_format c \<noteq> [] \<and> d_format c \<noteq> report_format_multipart
                \<and> d_format c \<noteq> report_format_json
             then [verr ''report_destination.https.format'' ''INVALID_FORMAT''
                     (''report format must be '' @ [CHR 0x27] @ ''json'' @ [CHR 0x27] @ '' or ''
                      @ [CHR 0x27] @ ''multipart'' @ [CHR 0x27])]
             else []))"

definition validate_destination :: "playbook \<Rightarrow> validation_error list" where
  "validate_destination p =
     (if p_reportDestination p = report_destination_https
      then validate_https (p_reportDestinationHTTPS p)
      else if p_reportDestination p \<noteq> [] \<and> p_reportDestination p \<noteq> report_destination_folder
      then [verr ''report_destination'' ''INVALID_DESTINATION''
              (''report destination must be '' @ [CHR 0x27] @ ''folder'' @ [CHR 0x27] @ '' or ''
               @ [CHR 0x27] @ ''https'' @ [CHR 0x27])]
      else [])"

definition validate :: "bool \<Rightarrow> playbook \<Rightarrow> validation_error list" where
  "validate isAgent p =
     validate_title ''title'' ''playbook'' (p_title p)
     @ validate_destination p
     @ (if p_sections p = []
        then [verr ''sections'' ''EMPTY_SECTIONS'' ''playbook must contain at least one section'']
        else fst (validate_sections isAgent (enum_from 0 (p_sections p)) Map.empty))"

section \<open>The specification\<close>

text \<open>The places where an agent refuses a reference to an external script.\<close>

definition agent_exec_ok :: "exec \<Rightarrow> bool" where
  "agent_exec_ok e \<longleftrightarrow> e_funcFile e = [] \<and> e_shellFuncFile e = []"

definition agent_cmd_ok :: "cmd \<Rightarrow> bool" where
  "agent_cmd_ok c \<longleftrightarrow> agent_exec_ok (c_exec c) \<and> r_funcFile (c_stdOutRule c) = []
     \<and> r_funcFile (c_stdErrRule c) = [] \<and> list_all (\<lambda>g. g_funcFile g = []) (e_gather (c_exec c))"

definition agent_assertion_ok :: "assertion \<Rightarrow> bool" where
  "agent_assertion_ok a \<longleftrightarrow> list_all agent_exec_ok (a_preCmds a) \<and> list_all agent_cmd_ok (a_cmds a)
     \<and> list_all agent_exec_ok (a_postCmds a)"

definition title_ok :: "string \<Rightarrow> bool" where
  "title_ok t \<longleftrightarrow> 3 \<le> length (trim_space t)"

definition https_ok :: "dest_config \<Rightarrow> bool" where
  "https_ok c \<longleftrightarrow> prefix ''https://'' (d_url c)
     \<and> d_format c \<in> {[], report_format_multipart, report_format_json}"

definition destination_ok :: "playbook \<Rightarrow> bool" where
  "destination_ok p \<longleftrightarrow>
     (if p_reportDestination p = report_destination_https
      then (case p_reportDestinationHTTPS p of None \<Rightarrow> False | Some c \<Rightarrow> https_ok c)
      else p_reportDestination p \<in> {[], report_destination_folder})"

definition valid_playbook :: "bool \<Rightarrow> playbook \<Rightarrow> bool" where
  "valid_playbook isAgent p \<longleftrightarrow>
     title_ok (p_title p) \<and> destination_ok p \<and> p_sections p \<noteq> []
     \<and> (\<forall>s \<in> set (p_sections p). title_ok (s_title s) \<and> s_assertions s \<noteq> [])
     \<and> (\<forall>a \<in> set (all_assertions p). trim_space (a_code a) \<noteq> [])
     \<and> distinct (map a_code (all_assertions p))
     \<and> (isAgent \<longrightarrow> list_all agent_assertion_ok (all_assertions p))"

section \<open>The validator meets the specification\<close>

lemma prohibited_Nil [simp]: "prohibited f p c fl pl = [] \<longleftrightarrow> f = []"
  by (simp add: prohibited_def)

lemma concat_enum_Nil:
  "concat (map f (enum_from n xs)) = [] \<longleftrightarrow> (\<forall>(i, x) \<in> set (enum_from n xs). f (i, x) = [])"
  by auto

lemma enum_all: "(\<forall>(i, x) \<in> set (enum_from n xs). P x) \<longleftrightarrow> list_all P xs"
  by (induction xs arbitrary: n) auto

lemma agent_exec_errors_Nil: "agent_exec_errors ap c sl pl (k, e) = [] \<longleftrightarrow> agent_exec_ok e"
  by (simp add: agent_exec_errors_def agent_exec_ok_def)

lemma agent_cmd_errors_Nil: "agent_cmd_errors ap code (k, c) = [] \<longleftrightarrow> agent_cmd_ok c"
  by (simp add: agent_cmd_errors_def agent_cmd_ok_def agent_exec_ok_def Let_def concat_enum_Nil
      enum_all conj_assoc del: concat_eq_Nil_conv)

lemma agent_errors_Nil: "agent_errors ap a = [] \<longleftrightarrow> agent_assertion_ok a"
  by (simp add: agent_errors_def agent_assertion_ok_def concat_enum_Nil agent_exec_errors_Nil
      agent_cmd_errors_Nil enum_all del: concat_eq_Nil_conv)

lemma validate_code_fst:
  "fst (validate_code ap seen a) = [] \<longleftrightarrow> trim_space (a_code a) \<noteq> [] \<and> a_code a \<notin> dom seen"
  by (auto simp: validate_code_def split: option.splits)

lemma validate_code_dom:
  "dom (snd (validate_code ap seen a)) =
     (if trim_space (a_code a) = [] then dom seen else insert (a_code a) (dom seen))"
  by (auto simp: validate_code_def split: option.splits)

lemma validate_assertion_fst:
  "fst (validate_assertion ag i j seen a) = [] \<longleftrightarrow>
     trim_space (a_code a) \<noteq> [] \<and> a_code a \<notin> dom seen \<and> (ag \<longrightarrow> agent_assertion_ok a)"
  using validate_code_fst [of "assertion_path i j" seen a]
  by (auto simp: validate_assertion_def Let_def agent_errors_Nil split: prod.splits)

lemma validate_assertion_snd:
  "snd (validate_assertion ag i j seen a) = snd (validate_code (assertion_path i j) seen a)"
  by (simp add: validate_assertion_def Let_def split: prod.splits)

definition assertions_ok :: "bool \<Rightarrow> string set \<Rightarrow> assertion list \<Rightarrow> bool" where
  "assertions_ok ag used as \<longleftrightarrow> (\<forall>a \<in> set as. trim_space (a_code a) \<noteq> [])
     \<and> distinct (map a_code as) \<and> used \<inter> a_code ` set as = {}
     \<and> (ag \<longrightarrow> list_all agent_assertion_ok as)"

definition codes_after :: "string set \<Rightarrow> assertion list \<Rightarrow> string set" where
  "codes_after used as = used \<union> a_code ` {a \<in> set as. trim_space (a_code a) \<noteq> []}"

lemma codes_after_simps [simp]:
  "codes_after used [] = used"
  "codes_after used (a # as) =
     codes_after (if trim_space (a_code a) = [] then used else insert (a_code a) used) as"
  by (auto simp: codes_after_def)

lemma codes_after_append: "codes_after used (as @ bs) = codes_after (codes_after used as) bs"
  by (auto simp: codes_after_def)

lemma assertions_ok_Nil [simp]: "assertions_ok ag used []"
  by (simp add: assertions_ok_def)

lemma assertions_ok_append:
  "assertions_ok ag used (as @ bs) \<longleftrightarrow>
     assertions_ok ag used as \<and> assertions_ok ag (codes_after used as) bs"
proof (cases "assertions_ok ag used as")
  case True
  then have "codes_after used as = used \<union> a_code ` set as"
    by (auto simp: assertions_ok_def codes_after_def)
  with True show ?thesis by (auto simp: assertions_ok_def)
next
  case False
  then show ?thesis by (auto simp: assertions_ok_def)
qed

lemma assertions_ok_Cons:
  "assertions_ok ag used (a # as) \<longleftrightarrow>
     trim_space (a_code a) \<noteq> [] \<and> a_code a \<notin> used \<and> (ag \<longrightarrow> agent_assertion_ok a)
     \<and> assertions_ok ag (insert (a_code a) used) as"
  by (auto simp: assertions_ok_def)

lemma validate_assertions_spec:
  "(fst (validate_assertions ag i jas seen) = [] \<longleftrightarrow> assertions_ok ag (dom seen) (map snd jas))
   \<and> dom (snd (validate_assertions ag i jas seen)) = codes_after (dom seen) (map snd jas)"
proof (induction ag i jas seen rule: validate_assertions.induct)
  case (2 ag i j a jas seen)
  obtain errs seen1 where v: "validate_assertion ag i j seen a = (errs, seen1)"
    by (cases "validate_assertion ag i j seen a")
  have d: "dom seen1 = (if trim_space (a_code a) = [] then dom seen else insert (a_code a) (dom seen))"
    using validate_assertion_snd [of ag i j seen a] v by (simp add: validate_code_dom)
  have e: "errs = [] \<longleftrightarrow> trim_space (a_code a) \<noteq> [] \<and> a_code a \<notin> dom seen
      \<and> (ag \<longrightarrow> agent_assertion_ok a)"
    using validate_assertion_fst [of ag i j seen a] v by simp
  from 2 [OF v [symmetric] refl] show ?case
    by (cases "trim_space (a_code a) = []";
        simp add: v e d Let_def assertions_ok_Cons split_beta; blast)
qed simp

lemma validate_title_Nil: "validate_title p w t = [] \<longleftrightarrow> title_ok t"
  by (auto simp: validate_title_def title_ok_def)

lemma validate_section_spec:
  "(fst (validate_section ag i seen s) = [] \<longleftrightarrow> title_ok (s_title s) \<and> s_assertions s \<noteq> []
      \<and> assertions_ok ag (dom seen) (s_assertions s))
   \<and> dom (snd (validate_section ag i seen s)) = codes_after (dom seen) (s_assertions s)"
  using validate_assertions_spec [of ag i "enum_from 0 (s_assertions s)" seen]
  by (cases "s_assertions s = []")
    (simp_all add: validate_section_def Let_def validate_title_Nil split_beta)

lemma validate_sections_spec:
  "(fst (validate_sections ag iss seen) = [] \<longleftrightarrow>
      (\<forall>s \<in> set (map snd iss). title_ok (s_title s) \<and> s_assertions s \<noteq> [])
      \<and> assertions_ok ag (dom seen) (concat (map (s_assertions \<circ> snd) iss)))
   \<and> dom (snd (validate_sections ag iss seen))
       = codes_after (dom seen) (concat (map (s_assertions \<circ> snd) iss))"
proof (induction ag iss seen rule: validate_sections.induct)
  case (2 ag i s iss seen)
  obtain errs seen1 where v: "validate_section ag i seen s = (errs, seen1)"
    by (cases "validate_section ag i seen s")
  note s = validate_section_spec [of ag i seen s, unfolded v, simplified]
  from 2 [OF v [symmetric] refl] s show ?case
    by (simp add: v Let_def assertions_ok_append codes_after_append split_beta comp_def, blast)
qed simp

lemma trim_space_https: "prefix ''https://'' u \<Longrightarrow> trim_space u \<noteq> []"
proof -
  assume "prefix ''https://'' u"
  then have "CHR ''h'' \<in> set u" by (auto simp: prefix_def)
  then have "CHR ''h'' \<in> set (trim_space u)"
    by (rule trim_space_keeps) (simp add: graphic_def space1_def)
  then show ?thesis by auto
qed

lemma validate_https_Nil:
  "validate_https dest = [] \<longleftrightarrow> (case dest of None \<Rightarrow> False | Some c \<Rightarrow> https_ok c)"
  by (auto simp: validate_https_def https_ok_def has_prefix_iff trim_space_https
      split: option.splits)

lemma validate_destination_Nil: "validate_destination p = [] \<longleftrightarrow> destination_ok p"
  by (auto simp: validate_destination_def destination_ok_def validate_https_Nil)

lemma validate_valid: "validate isAgent p = [] \<longleftrightarrow> valid_playbook isAgent p"
proof (cases "p_sections p = []")
  case True
  then show ?thesis by (simp add: validate_def valid_playbook_def)
next
  case False
  have "fst (validate_sections isAgent (enum_from 0 (p_sections p)) Map.empty) = [] \<longleftrightarrow>
      (\<forall>s \<in> set (p_sections p). title_ok (s_title s) \<and> s_assertions s \<noteq> [])
      \<and> assertions_ok isAgent {} (all_assertions p)"
    using validate_sections_spec [of isAgent "enum_from 0 (p_sections p)" Map.empty]
    by (simp add: all_assertions_def flip: set_map)
  with False show ?thesis
    by (simp add: validate_def valid_playbook_def validate_title_Nil validate_destination_Nil
        assertions_ok_def conj_ac)
qed

text \<open>
  C10: A playbook passes \<open>Validate\<close> exactly when it meets the declarative specification: a title
  of at least three bytes after trimming, a destination that is \<open>folder\<close> (or empty) or a complete
  HTTPS one with an https:// address and a known format, at least one section, every section
  titled and non-empty, every assertion with a non-blank code, no code used twice anywhere in
  the playbook, and, for an agent, no external script at the places the agent checks.
\<close>

theorem validate_iff_valid: "validate isAgent p = [] \<longleftrightarrow> valid_playbook isAgent p"
  by (rule validate_valid)

section \<open>Duplicate codes\<close>

definition count_code :: "string \<Rightarrow> validation_error list \<Rightarrow> nat" where
  "count_code c errs = length (filter (\<lambda>e. v_code e = c) errs)"

definition nonblank_codes :: "assertion list \<Rightarrow> string list" where
  "nonblank_codes as = filter (\<lambda>c. trim_space c \<noteq> []) (map a_code as)"

abbreviation dups :: "validation_error list \<Rightarrow> nat" where
  "dups \<equiv> count_code ''DUPLICATE_CODE''"

lemma count_code_simps [simp]:
  "count_code c [] = 0"
  "count_code c (e # es) = (if v_code e = c then 1 else 0) + count_code c es"
  "count_code c (es @ fs) = count_code c es + count_code c fs"
  by (simp_all add: count_code_def)

lemma nonblank_codes_simps [simp]:
  "nonblank_codes [] = []"
  "nonblank_codes (a # as) = (if trim_space (a_code a) = [] then [] else [a_code a]) @ nonblank_codes as"
  "nonblank_codes (as @ bs) = nonblank_codes as @ nonblank_codes bs"
  by (simp_all add: nonblank_codes_def)

lemma count_code_concat: "count_code c (concat ess) = sum_list (map (count_code c) ess)"
  by (induction ess) auto

lemma dups_prohibited [simp]: "dups (prohibited f p c fl pl) = 0"
  by (simp add: prohibited_def)

lemma dups_agent_errors [simp]: "dups (agent_errors ap a) = 0"
  by (simp add: agent_errors_def count_code_concat agent_exec_errors_def agent_cmd_errors_def
      Let_def comp_def split_beta)

lemma dups_validate_code:
  assumes "finite (dom seen)"
  shows "dups (fst (validate_code ap seen a)) + card (dom (snd (validate_code ap seen a)))
    = length (nonblank_codes [a]) + card (dom seen)"
  using assms by (auto simp: validate_code_def domI domIff card_insert_if split: option.splits)

lemma finite_validate_code:
  "finite (dom seen) \<Longrightarrow> finite (dom (snd (validate_code ap seen a)))"
  by (simp add: validate_code_dom)

lemma dups_validate_assertions:
  assumes "finite (dom seen)"
  shows "dups (fst (validate_assertions ag i jas seen))
      + card (dom (snd (validate_assertions ag i jas seen)))
    = length (nonblank_codes (map snd jas)) + card (dom seen)"
  using assms
proof (induction ag i jas seen rule: validate_assertions.induct)
  case (2 ag i j a jas seen)
  obtain errs seen1 where v: "validate_assertion ag i j seen a = (errs, seen1)"
    by (cases "validate_assertion ag i j seen a")
  have s1: "seen1 = snd (validate_code (assertion_path i j) seen a)"
    using validate_assertion_snd [of ag i j seen a] v by simp
  have e: "dups errs = dups (fst (validate_code (assertion_path i j) seen a))"
    using v by (auto simp: validate_assertion_def Let_def split_beta)
  show ?case
    using "2.IH" [OF v [symmetric] refl] finite_validate_code [OF "2.prems"]
      dups_validate_code [OF "2.prems", of "assertion_path i j" a]
    by (simp add: v e s1 Let_def split_beta)
qed simp

lemma dups_validate_title [simp]: "dups (validate_title p w t) = 0"
  by (simp add: validate_title_def)

lemma finite_codes_after: "finite used \<Longrightarrow> finite (codes_after used as)"
  by (simp add: codes_after_def)

lemma dups_validate_section:
  assumes "finite (dom seen)"
  shows "dups (fst (validate_section ag i seen s)) + card (dom (snd (validate_section ag i seen s)))
    = length (nonblank_codes (s_assertions s)) + card (dom seen)"
  using dups_validate_assertions [OF assms, of ag i "enum_from 0 (s_assertions s)"]
  by (simp add: validate_section_def Let_def split_beta)

lemma dups_validate_sections:
  assumes "finite (dom seen)"
  shows "dups (fst (validate_sections ag iss seen)) + card (dom (snd (validate_sections ag iss seen)))
    = length (nonblank_codes (concat (map (s_assertions \<circ> snd) iss))) + card (dom seen)"
  using assms
proof (induction ag iss seen rule: validate_sections.induct)
  case (2 ag i s iss seen)
  obtain errs seen1 where v: "validate_section ag i seen s = (errs, seen1)"
    by (cases "validate_section ag i seen s")
  have "finite (dom seen1)"
    using validate_section_spec [of ag i seen s] "2.prems" by (simp add: v finite_codes_after)
  with "2.IH" [OF v [symmetric] refl] dups_validate_section [OF "2.prems", of ag i s]
  show ?case by (simp add: v Let_def split_beta)
qed simp

lemma codes_after_empty: "codes_after {} as = set (nonblank_codes as)"
  by (auto simp: codes_after_def nonblank_codes_def)

lemma dups_validate_destination [simp]: "dups (validate_destination p) = 0"
  by (simp add: validate_destination_def validate_https_def split: option.splits)

text \<open>
  C11: The validator reports a repeated assertion code once per repetition, across sections: the
  number of DUPLICATE_CODE errors is the number of assertions with a non-blank code less the
  number of different non-blank codes.
\<close>

theorem validate_duplicate_count:
  "count_code ''DUPLICATE_CODE'' (validate isAgent p)
     = length (nonblank_codes (all_assertions p)) - card (set (nonblank_codes (all_assertions p)))"
proof -
  let ?iss = "enum_from 0 (p_sections p)"
  have "dups (fst (validate_sections isAgent ?iss Map.empty))
      + card (set (nonblank_codes (all_assertions p))) = length (nonblank_codes (all_assertions p))"
    using dups_validate_sections [of Map.empty isAgent ?iss]
      validate_sections_spec [of isAgent ?iss Map.empty]
    by (simp add: all_assertions_def codes_after_empty)
  then have "dups (fst (validate_sections isAgent ?iss Map.empty))
      = length (nonblank_codes (all_assertions p)) - card (set (nonblank_codes (all_assertions p)))"
    by arith
  then show ?thesis
    by (cases "p_sections p = []") (simp_all add: validate_def all_assertions_def)
qed

section \<open>What the agent check leaves out\<close>

definition drop_gather :: "exec \<Rightarrow> exec" where
  "drop_gather e = e\<lparr>e_gather := []\<rparr>"

definition drop_side_gathers :: "assertion \<Rightarrow> assertion" where
  "drop_side_gathers a = a\<lparr>a_preCmds := map drop_gather (a_preCmds a),
     a_postCmds := map drop_gather (a_postCmds a)\<rparr>"

definition drop_gathers_section :: "pb_section \<Rightarrow> pb_section" where
  "drop_gathers_section s = s\<lparr>s_assertions := map drop_side_gathers (s_assertions s)\<rparr>"

definition drop_gathers :: "playbook \<Rightarrow> playbook" where
  "drop_gathers p = p\<lparr>p_sections := map drop_gathers_section (p_sections p)\<rparr>"

lemma enum_from_map: "enum_from n (map f xs) = map (\<lambda>(i, x). (i, f x)) (enum_from n xs)"
  by (induction xs arbitrary: n) auto

lemma agent_exec_errors_drop:
  "agent_exec_errors ap c sl pl (k, drop_gather e) = agent_exec_errors ap c sl pl (k, e)"
  by (simp add: agent_exec_errors_def drop_gather_def)

lemma agent_errors_drop: "agent_errors ap (drop_side_gathers a) = agent_errors ap a"
proof -
  have "map (agent_exec_errors ap c sl pl) (enum_from n (map drop_gather es))
      = map (agent_exec_errors ap c sl pl) (enum_from n es)" for c sl pl n es
    by (induction es arbitrary: n) (simp_all add: agent_exec_errors_drop)
  then show ?thesis by (simp add: agent_errors_def drop_side_gathers_def)
qed

lemma validate_assertion_drop:
  "validate_assertion ag i j seen (drop_side_gathers a) = validate_assertion ag i j seen a"
proof -
  have "a_code (drop_side_gathers a) = a_code a" by (simp add: drop_side_gathers_def)
  then have "validate_code ap seen (drop_side_gathers a) = validate_code ap seen a" for ap
    by (simp only: validate_code_def)
  then show ?thesis by (simp add: validate_assertion_def agent_errors_drop Let_def)
qed

lemma validate_assertions_drop:
  "validate_assertions ag i (enum_from n (map drop_side_gathers as)) seen
     = validate_assertions ag i (enum_from n as) seen"
  by (induction as arbitrary: n seen) (simp_all add: validate_assertion_drop)

lemma validate_section_drop:
  "validate_section ag i seen (drop_gathers_section s) = validate_section ag i seen s"
  by (simp add: validate_section_def drop_gathers_section_def validate_assertions_drop Let_def)

lemma validate_sections_drop:
  "validate_sections ag (enum_from n (map drop_gathers_section ss)) seen
     = validate_sections ag (enum_from n ss) seen"
  by (induction ss arbitrary: n seen) (simp_all add: validate_section_drop)

text \<open>
  The agent's check never looks at the gather specifications of pre- and post-commands: the
  errors of any playbook are those of the playbook with these specifications removed, so an
  external gather script there is accepted although external references are said to be
  disallowed for an agent.
\<close>

lemma validate_ignores_side_gathers: "validate isAgent (drop_gathers p) = validate isAgent p"
  by (simp add: validate_def drop_gathers_def validate_sections_drop validate_destination_def)

end
