(* ===== verification/GoPath.thy ===== *)
theory GoPath
  imports GoStrings
begin

text \<open>
  The lexical path functions of \<open>path/filepath\<close> that the program calls, on slash-separated
  paths: \<open>Clean\<close>, \<open>Join\<close>, \<open>Dir\<close> and \<open>Abs\<close>. Windows volume names and backslashes are not
  modelled.
\<close>

abbreviation slash :: char where
  "slash \<equiv> CHR ''/''"

definition rooted :: "string \<Rightarrow> bool" where
  "rooted p \<longleftrightarrow> has_prefix p ''/''"

text \<open>One path element, with the elements kept so far in reverse.\<close>

definition clean_step :: "bool \<Rightarrow> string list \<Rightarrow> string \<Rightarrow> string list" where
  "clean_step root st seg =
     (if seg = [] \<or> seg = ''.'' then st
      else if seg = ''..'' then
        (case st of
           [] \<Rightarrow> (if root then [] else [seg])
         | t # ts \<Rightarrow> (if t = ''..'' then seg # st else ts))
      else seg # st)"

definition path_clean :: "string \<Rightarrow> string" where
  "path_clean p =
     (let root = rooted p;
          segs = rev (foldl (clean_step root) [] (str_split slash p));
          out = (if root then ''/'' else []) @ str_join segs ''/''
      in if out = [] then ''.'' else out)"

definition path_join :: "string \<Rightarrow> string \<Rightarrow> string" where
  "path_join a b =
     (if a \<noteq> [] then path_clean (a @ ''/'' @ b) else if b \<noteq> [] then path_clean b else [])"

definition path_dir :: "string \<Rightarrow> string" where
  "path_dir p = path_clean (rev (dropWhile (\<lambda>c. c \<noteq> slash) (rev p)))"

text \<open>\<open>Abs\<close> under a working directory, which the process may fail to determine.\<close>

definition path_abs :: "string option \<Rightarrow> string \<Rightarrow> string option" where
  "path_abs cwd p =
     (if rooted p then Some (path_clean p)
      else (case cwd of None \<Rightarrow> None | Some d \<Rightarrow> Some (path_join d p)))"

section \<open>Cleaning is idempotent\<close>

text \<open>The element stacks that cleaning produces.\<close>

definition clean_stack :: "bool \<Rightarrow> string list \<Rightarrow> bool" where
  "clean_stack root st \<longleftrightarrow>
     (\<forall>x \<in> set st. x \<noteq> [] \<and> x \<noteq> ''.'' \<and> slash \<notin> set x)
     \<and> (root \<longrightarrow> ''..'' \<notin> set st)
     \<and> (\<forall>xs y ys. st = xs @ y # ys \<longrightarrow> y = ''..'' \<longrightarrow> set ys \<subseteq> {''..''})"

lemma clean_stack_Nil [simp]: "clean_stack root []"
  by (simp add: clean_stack_def)

lemma clean_stack_tl: "clean_stack root (t # ts) \<Longrightarrow> clean_stack root ts"
  unfolding clean_stack_def by (auto dest: spec [where x = "t # xs" for xs])

lemma clean_stack_dots: "clean_stack root (''..'' # ts) \<Longrightarrow> set ts \<subseteq> {''..''}"
  unfolding clean_stack_def by (metis append_Nil)

lemma clean_stack_Cons:
  assumes "clean_stack root st" and "seg \<noteq> []" "seg \<noteq> ''.''" "slash \<notin> set seg"
    and "seg = ''..'' \<Longrightarrow> \<not> root \<and> set st \<subseteq> {''..''}"
  shows "clean_stack root (seg # st)"
proof -
  have "set ys \<subseteq> {''..''}" if "seg # st = xs @ y # ys" "y = ''..''" for xs y ys
    using that assms by (cases xs) (auto simp: clean_stack_def)
  with assms show ?thesis unfolding clean_stack_def by auto
qed

lemma clean_step_stack:
  assumes "clean_stack root st" and "slash \<notin> set seg"
  shows "clean_stack root (clean_step root st seg)"
proof (cases "seg = ''..''")
  case True
  show ?thesis
  proof (cases st)
    case Nil
    with True show ?thesis by (auto simp: clean_step_def intro!: clean_stack_Cons)
  next
    case (Cons t ts)
    show ?thesis
    proof (cases "t = ''..''")
      case True
      have "\<not> root" using assms(1) Cons True by (auto simp: clean_stack_def)
      moreover have "set st \<subseteq> {''..''}" using clean_stack_dots assms(1) Cons True by auto
      ultimately show ?thesis
        using assms Cons True \<open>seg = ''..''\<close> by (auto simp: clean_step_def intro!: clean_stack_Cons)
    next
      case False
      with Cons assms(1) \<open>seg = ''..''\<close> show ?thesis
        by (auto simp: clean_step_def dest: clean_stack_tl)
    qed
  qed
next
  case False
  with assms show ?thesis by (auto simp: clean_step_def intro!: clean_stack_Cons)
qed

lemma clean_steps_stack:
  "clean_stack root st \<Longrightarrow> \<forall>s \<in> set segs. slash \<notin> set s
   \<Longrightarrow> clean_stack root (foldl (clean_step root) st segs)"
  by (induction segs arbitrary: st) (auto intro: clean_step_stack)

lemma str_split_no_sep: "s \<in> set (str_split c p) \<Longrightarrow> c \<notin> set s"
  by (induction p arbitrary: s) (auto split: list.splits if_splits)

text \<open>Cleaning a clean stack element by element changes nothing.\<close>

lemma clean_step_id:
  assumes "clean_stack root (seg # st)"
  shows "clean_step root st seg = seg # st"
proof -
  have seg: "seg \<noteq> []" "seg \<noteq> ''.''" using assms by (auto simp: clean_stack_def)
  show ?thesis
  proof (cases "seg = ''..''")
    case True
    then have "\<not> root" "set st \<subseteq> {''..''}"
      using assms clean_stack_dots [of root st] by (auto simp: clean_stack_def)
    with True show ?thesis by (cases st) (auto simp: clean_step_def)
  next
    case False
    with seg show ?thesis by (simp add: clean_step_def)
  qed
qed

lemma clean_steps_id:
  "clean_stack root (rev segs @ st) \<Longrightarrow> foldl (clean_step root) st segs = rev segs @ st"
proof (induction segs arbitrary: st)
  case (Cons s segs)
  have sub: "clean_stack root (xs @ ys) \<Longrightarrow> clean_stack root ys" for xs ys
    by (induction xs) (auto dest: clean_stack_tl)
  have "clean_step root st s = s # st"
    using Cons.prems sub [of "rev segs" "s # st"] by (intro clean_step_id) simp
  with Cons show ?case by simp
qed simp

lemma str_split_append_no_sep:
  "c \<notin> set x \<Longrightarrow> str_split c (x @ c # s) = x # str_split c s"
  by (induction x) auto

lemma str_split_id: "c \<notin> set x \<Longrightarrow> str_split c x = [x]"
  by (induction x) auto

lemma str_split_str_join:
  "xs \<noteq> [] \<Longrightarrow> \<forall>x \<in> set xs. c \<notin> set x \<Longrightarrow> str_split c (str_join xs [c]) = xs"
proof (induction xs)
  case (Cons x xs)
  then show ?case
    by (cases xs) (auto simp: str_split_id str_split_append_no_sep)
qed simp

lemma rooted_join: "\<forall>x \<in> set segs. x \<noteq> [] \<and> slash \<notin> set x \<Longrightarrow> \<not> rooted (str_join segs ''/'')"
  by (cases segs rule: remdups_adj.cases)
    (auto simp: rooted_def has_prefix_def neq_Nil_conv)

lemma path_clean_idem [simp]: "path_clean (path_clean p) = path_clean p"
proof -
  let ?root = "rooted p"
  define st where "st = foldl (clean_step ?root) [] (str_split slash p)"
  have cs: "clean_stack ?root st"
    unfolding st_def by (rule clean_steps_stack) (auto dest: str_split_no_sep)
  have mem: "\<forall>x \<in> set (rev st). x \<noteq> [] \<and> slash \<notin> set x" using cs by (simp add: clean_stack_def)
  have stfix: "foldl (clean_step ?root) [] (rev st) = st"
    using clean_steps_id [of ?root "rev st" "[]"] cs by simp
  have pc: "path_clean p = (let out = (if ?root then ''/'' else []) @ str_join (rev st) ''/''
      in if out = [] then ''.'' else out)"
    by (simp add: path_clean_def st_def Let_def)
  show ?thesis
  proof (cases "st = []")
    case True
    with pc show ?thesis
      by (cases ?root) (simp_all add: path_clean_def rooted_def has_prefix_def clean_step_def)
  next
    case False
    have sp: "str_split slash (str_join (rev st) ''/'') = rev st"
      using False mem by (intro str_split_str_join) auto
    have nr: "\<not> rooted (str_join (rev st) ''/'')" using mem by (rule rooted_join)
    have ne: "str_join (rev st) ''/'' \<noteq> []"
      using sp False by (metis list.set_intros(1) mem rev.simps(1) str_split.simps(1))
    show ?thesis
    proof (cases ?root)
      case True
      have "str_split slash (''/'' @ str_join (rev st) ''/'') = [] # rev st" using sp by simp
      moreover have "rooted (''/'' @ str_join (rev st) ''/'')"
        by (simp add: rooted_def has_prefix_def)
      ultimately show ?thesis using True stfix pc
        by (simp add: path_clean_def Let_def clean_step_def)
    next
      case False
      then show ?thesis using sp nr ne stfix pc by (simp add: path_clean_def Let_def)
    qed
  qed
qed

text \<open>The field of the shell names the runner knows.\<close>

lemma known_shells:
  "str_fields ''!'' = [''!'']"
  "str_fields ''powershell'' = [''powershell'']"
  "str_fields ''pwsh'' = [''pwsh'']"
  "str_fields ''bash'' = [''bash'']"
  "str_fields ''sh'' = [''sh'']"
  "str_fields ''zsh'' = [''zsh'']"
  by (simp_all add: str_fields_def str_fields_from.simps space1_def space2_def space3_def)

end
