(* ===== verification/LocalRunner.thy ===== *)
theory LocalRunner
  imports Executor GoPath
begin

text \<open>
  The local command runner (\<open>executor/exec_runner.go\<close>, with the defaults of the platform
  files): how a request becomes a process, and how the process becomes a result. The operating
  system is a parameter: the clock, \<open>LookPath\<close>, and the run of a process, whose standard
  streams and failure it returns.
\<close>

section \<open>Processes\<close>

record tmp_file =
  tf_path :: string
  tf_content :: string
  tf_executable :: bool

record proc_spec =
  ps_name :: string
  ps_args :: "string list"
  ps_file :: "tmp_file option"
  ps_extra_env :: "string list"

text \<open>How \<open>cmd.Run\<close> can fail: the process exited, or it never ran.\<close>

datatype run_error = ExitError goint | StartError goerr

record 'w os_env =
  os_goos :: string
  os_tempdir :: string
  os_look_path :: "string \<Rightarrow> bool"
  os_unixnano :: "'w \<Rightarrow> int \<times> 'w"
  os_run :: "proc_spec \<Rightarrow> 'w \<Rightarrow> (string \<times> string \<times> run_error option) \<times> 'w"
  os_strip_ansi :: "string \<Rightarrow> string"

text \<open>What the switch over the shell decides: nothing to run, a process, or a Go panic.\<close>

datatype command_plan = PlanSkip | PlanRun proc_spec | PlanPanic

definition default_shell :: "'w os_env \<Rightarrow> string" where
  "default_shell os =
     (if os_goos os = ''windows'' then (if os_look_path os ''pwsh'' then ''pwsh'' else ''powershell'')
      else if os_goos os = ''darwin'' then ''zsh''
      else ''bash'')"

definition effective_shell :: "'w os_env \<Rightarrow> execution_request \<Rightarrow> string" where
  "effective_shell os c = (if rq_shell c = [] then default_shell os else rq_shell c)"

definition dotted_extension :: "string \<Rightarrow> string" where
  "dotted_extension ext = (if ext \<noteq> [] \<and> \<not> has_prefix ext ''.'' then ''.'' @ ext else ext)"

definition tmp_path :: "'w os_env \<Rightarrow> int \<Rightarrow> string \<Rightarrow> string" where
  "tmp_path os nano ext = path_join (os_tempdir os) (''cp_'' @ int_str nano @ ext)"

definition extra_env :: "string list" where
  "extra_env = [''TERM=dumb'', ''NO_COLOR=1'', ''LANG=en_US.UTF-8'']"

abbreviation newline :: string where
  "newline \<equiv> [CHR 0x0A]"

definition file_plan :: "string \<Rightarrow> string list \<Rightarrow> tmp_file \<Rightarrow> string list \<Rightarrow> command_plan" where
  "file_plan name before f after =
     PlanRun \<lparr>ps_name = name, ps_args = before @ tf_path f # after, ps_file = Some f,
             ps_extra_env = extra_env\<rparr>"

definition plan_command :: "'w os_env \<Rightarrow> execution_request \<Rightarrow> 'w \<Rightarrow> command_plan \<times> 'w" where
  "plan_command os c w =
     (let shell = effective_shell os c;
          command = rq_script c;
          extension = dotted_extension (rq_extension c) in
      if shell = ''!'' then
        (case str_fields command of
           [] \<Rightarrow> (PlanSkip, w)
         | nm # args \<Rightarrow>
             (PlanRun \<lparr>ps_name = nm, ps_args = args, ps_file = None, ps_extra_env = extra_env\<rparr>, w))
      else if shell = ''powershell'' \<or> shell = ''pwsh'' then
        (let ext = (if extension \<noteq> [] then extension else ''.ps1'');
             (nano, w1) = os_unixnano os w;
             f = \<lparr>tf_path = tmp_path os nano ext,
                  tf_content = ''$ErrorActionPreference = '' @ [CHR 0x27] @ ''Stop'' @ [CHR 0x27]
                                @ newline @ command @ newline,
                  tf_executable = False\<rparr>
         in (file_plan shell [''-ExecutionPolicy'', ''Bypass'', ''-File''] f [], w1))
      else if shell = ''bash'' \<or> shell = ''sh'' \<or> shell = ''zsh'' then
        (let ext = (if extension \<noteq> [] then extension
                    else if shell = ''zsh'' then ''.zsh'' else ''.sh'');
             (nano, w1) = os_unixnano os w;
             f = \<lparr>tf_path = tmp_path os nano ext,
                  tf_content = (if shell = ''bash'' \<or> shell = ''zsh''
                                then ''set -o pipefail'' @ newline @ command @ newline
                                else command @ newline),
                  tf_executable = True\<rparr>
         in (file_plan shell [] f [], w1))
      else
        (case str_fields shell of
           [] \<Rightarrow> (PlanPanic, w)
         | nm # args \<Rightarrow>
             (let (nano, w1) = os_unixnano os w;
                  f = \<lparr>tf_path = tmp_path os nano extension, tf_content = command,
                       tf_executable = True\<rparr>
              in (file_plan nm args f [], w1))))"

definition exit_code_of :: "run_error option \<Rightarrow> goint" where
  "exit_code_of err =
     (case err of None \<Rightarrow> 0 | Some (ExitError c) \<Rightarrow> c | Some (StartError e) \<Rightarrow> -1)"

text \<open>\<open>Run\<close>: the left side is the panic of an index into an empty slice.\<close>

definition local_run ::
    "'w os_env \<Rightarrow> execution_request \<Rightarrow> 'w \<Rightarrow> unit + (execution_result \<times> goerr option) \<times> 'w" where
  "local_run os c w =
     (case plan_command os c w of
        (PlanPanic, w1) \<Rightarrow> Inl ()
      | (PlanSkip, w1) \<Rightarrow> Inr ((skipped_result, None), w1)
      | (PlanRun ps, w1) \<Rightarrow>
          (case os_run os ps w1 of
             ((out, errout, err), w2) \<Rightarrow>
               Inr ((\<lparr>res_stdout = cleanup_output (os_strip_ansi os) out,
                      res_stderr = cleanup_output (os_strip_ansi os) errout,
                      res_exitCode = exit_code_of err,
                      res_success = (err = None)\<rparr>, None), w2)))"

text \<open>As a runner for \<open>RunExec\<close>, wherever it returns; after a panic there is no process left.\<close>

definition local_runner :: "'w os_env \<Rightarrow> 'w runner" where
  "local_runner os c w =
     (case local_run os c w of Inr r \<Rightarrow> r | Inl _ \<Rightarrow> ((empty_result, Some ''panic''), w))"

section \<open>The runner contract\<close>

text \<open>
  What \<open>RunExec\<close> and everything behind it may rely on from an \<open>ExecCmdRunner\<close>: the streams
  of a result are cleaned text, and a successful result has exit code 0.
\<close>

locale exec_runner =
  fixes run :: "'w runner"
  assumes run_printable:
      "run c w = ((res, err), w') \<Longrightarrow> printable (res_stdout res) \<and> printable (res_stderr res)"
    and run_success: "run c w = ((res, err), w') \<Longrightarrow> res_success res \<Longrightarrow> res_exitCode res = 0"
begin

definition good_result :: "execution_result \<Rightarrow> bool" where
  "good_result res \<longleftrightarrow> printable (res_stdout res) \<and> printable (res_stderr res)
     \<and> (res_success res \<longrightarrow> res_exitCode res = 0)"

lemma good_run: "run c w = ((res, err), w') \<Longrightarrow> good_result res"
  using run_printable [of c w res err w'] run_success [of c w res err w']
  by (auto simp: good_result_def)

lemma good_const: "good_result empty_result" "good_result skipped_result"
  by (simp_all add: good_result_def empty_result_def skipped_result_def printable_def)

lemma good_request:
  assumes "x_local E = run" and "x_elevated E \<in> {None, Some run}"
    and "run_request E elev c w = ((res, err), w')"
  shows "good_result res"
  using assms by (auto simp: run_request_def good_const good_run split: if_splits option.splits)

lemma good_run_exec:
  assumes "x_local E = run" and "x_elevated E \<in> {None, Some run}"
    and "run_exec E e ctx w = ((res, err), e', ctx', w')"
  shows "good_result res"
  using assms(3)
  by (auto simp: run_exec_def Let_def good_const split: prod.splits sum.splits option.splits if_splits
      dest: good_request [OF assms(1,2)])

end

lemma exit_code_none [simp]: "exit_code_of None = 0"
  by (simp add: exit_code_of_def)

lemma local_runner_cases:
  assumes "local_runner os c w = ((res, err), w')"
  obtains "res = empty_result" | "res = skipped_result"
  | out errout re where
      "res = \<lparr>res_stdout = cleanup_output (os_strip_ansi os) out,
             res_stderr = cleanup_output (os_strip_ansi os) errout,
             res_exitCode = exit_code_of re, res_success = (re = None)\<rparr>"
  using assms
  by (auto simp: local_runner_def local_run_def split: prod.splits command_plan.splits)

interpretation lrun: exec_runner "local_runner os" for os :: "'w os_env"
proof unfold_locales
  fix c w res err w'
  assume h: "local_runner os c w = ((res, err), w')"
  show "printable (res_stdout res) \<and> printable (res_stderr res)"
    using h by (cases rule: local_runner_cases)
      (auto simp: empty_result_def skipped_result_def printable_cleanup, simp_all add: printable_def)
  show "res_success res \<Longrightarrow> res_exitCode res = 0"
    using h by (cases rule: local_runner_cases) (auto simp: empty_result_def skipped_result_def)
qed

section \<open>Properties\<close>

lemma file_plan_runs [simp]: "file_plan nm b f a \<noteq> PlanPanic"
  by (simp add: file_plan_def)

lemma plan_panic: "fst (plan_command os c w) = PlanPanic \<longleftrightarrow> str_fields (effective_shell os c) = []"
proof -
  let ?sh = "effective_shell os c"
  consider "?sh = ''!''" | "?sh = ''powershell'' \<or> ?sh = ''pwsh''"
    | "?sh = ''bash'' \<or> ?sh = ''sh'' \<or> ?sh = ''zsh''"
    | "?sh \<notin> {''!'', ''powershell'', ''pwsh'', ''bash'', ''sh'', ''zsh''}"
    by blast
  then show ?thesis
  proof cases
    case 1
    then show ?thesis
      by (cases "str_fields (rq_script c)") (simp_all add: plan_command_def known_shells)
  next
    case 2
    then show ?thesis by (elim disjE) (simp_all add: plan_command_def known_shells Let_def split_beta)
  next
    case 3
    then show ?thesis by (elim disjE) (simp_all add: plan_command_def known_shells Let_def split_beta)
  next
    case 4
    then show ?thesis
      by (cases "str_fields ?sh") (simp_all add: plan_command_def Let_def split_beta)
  qed
qed

text \<open>
  C13: Whatever a playbook runs locally, the two output streams that reach the director, the
  report and the log hold no control characters other than newline, carriage return and tab,
  and a result marked successful has exit code 0; this holds on every path of \<open>RunExec\<close>,
  its skips and errors included.
\<close>

theorem run_exec_local_output_clean:
  assumes "x_local E = local_runner os" and "x_elevated E \<in> {None, Some (local_runner os)}"
    and "run_exec E e ctx w = ((res, err), e', ctx', w')"
  shows "printable (res_stdout res) \<and> printable (res_stderr res)
    \<and> (res_success res \<longrightarrow> res_exitCode res = 0)"
  using lrun.good_run_exec [OF assms] by (simp add: lrun.good_result_def)

text \<open>A process that rings the bell, run without a shell.\<close>

definition bell_os :: "int os_env" where
  "bell_os =
     \<lparr>os_goos = ''linux'', os_tempdir = ''/tmp'', os_look_path = (\<lambda>s. False),
      os_unixnano = (\<lambda>w. (w, w + 1)),
      os_run = (\<lambda>ps w. ((ps_name ps @ [CHR 0x07, CHR 0x0A], [CHR 0x07], None), w + 1)),
      os_strip_ansi = (\<lambda>s. s)\<rparr>"

definition bell_env :: "(string, int) exec_env" where
  "bell_env =
     \<lparr>x_engine = \<lparr>js_run = (\<lambda>i code ctx w. (Inr code, ctx, w)), js_is_fn = (\<lambda>v. False),
                  js_call = (\<lambda>v i ctx w. (Inr v, ctx, w)), js_string = (\<lambda>v. v),
                  js_int = (\<lambda>v. 0), js_nullish = (\<lambda>v. False)\<rparr>,
      x_host = \<lparr>h_goos = ''linux'', h_goarch = ''amd64'', h_environ = [],
                h_getenv = (\<lambda>x. []), h_cwd = ''/''\<rparr>,
      x_regex = (\<lambda>pat s. Inr []), x_local = local_runner bell_os,
      x_elevated = Some (local_runner bell_os)\<rparr>"

definition bell_exec :: exec where
  "bell_exec =
     \<lparr>e_shell = ''!'', e_shellFunc = [], e_shellFuncFile = [], e_script = ''ring twice'',
      e_scriptFileExtension = [], e_func = [], e_funcFile = [], e_gather = [],
      e_excludeFromReport = False, e_requireElevation = True\<rparr>"

definition bell_result :: execution_result where
  "bell_result =
     \<lparr>res_stdout = ''ring'', res_stderr = [], res_exitCode = 0, res_success = True\<rparr>"

lemma bell_fields: "str_fields ''ring twice'' = [''ring'', ''twice'']"
  by code_simp

lemma bell_clean:
  "cleanup_output (\<lambda>s. s) (''ring'' @ [CHR 0x07, CHR 0x0A]) = ''ring''"
  "cleanup_output (\<lambda>s. s) [CHR 0x07] = []"
proof -
  have m: "map_drop_runes (''ring'' @ [CHR 0x07, CHR 0x0A]) = ''ring'' @ [CHR 0x0A]"
    "map_drop_runes [CHR 0x07] = []"
    by (simp_all add: map_drop_runes_ascii drop_rune_def)
  have t: "trim_space (''ring'' @ [CHR 0x0A]) = ''ring''" "trim_space [] = []"
    by (code_simp, code_simp)
  show "cleanup_output (\<lambda>s. s) (''ring'' @ [CHR 0x07, CHR 0x0A]) = ''ring''"
    "cleanup_output (\<lambda>s. s) [CHR 0x07] = []"
    by (simp_all only: cleanup_output_def m t)
qed

lemma bell_run: "run_exec bell_env bell_exec Map.empty 0
    = ((bell_result, None), bell_exec, fst (snd (snd (run_exec bell_env bell_exec Map.empty 0))), 1)"
proof -
  have "run_exec bell_env bell_exec Map.empty 0 = ((bell_result, None), bell_exec, Map.empty, 1)"
    by (simp add: run_exec_def exec_script_def exec_shell_def run_request_def bell_env_def
        bell_exec_def local_runner_def local_run_def plan_command_def effective_shell_def
        bell_fields bell_clean [simplified] bell_os_def bell_result_def dotted_extension_def)
  then show ?thesis by simp
qed

lemma run_exec_local_output_clean_witness:
  "printable (res_stdout bell_result) \<and> printable (res_stderr bell_result)
    \<and> res_success bell_result \<and> res_exitCode bell_result = 0"
proof -
  have "printable (res_stdout bell_result) \<and> printable (res_stderr bell_result)
    \<and> (res_success bell_result \<longrightarrow> res_exitCode bell_result = 0)"
    by (rule run_exec_local_output_clean [OF _ _ bell_run]) (simp_all add: bell_env_def)
  then show ?thesis by (simp add: bell_result_def)
qed

text \<open>
  C15: The local runner panics (an index into an empty slice) exactly on a request whose shell is
  made of white space only, which the playbook validator accepts; on every other request it
  returns a result without an error.
\<close>

theorem local_run_panics_iff:
  "local_run os c w = Inl () \<longleftrightarrow> rq_shell c \<noteq> [] \<and> str_fields (rq_shell c) = []"
proof -
  have "local_run os c w = Inl () \<longleftrightarrow> fst (plan_command os c w) = PlanPanic"
    by (auto simp: local_run_def split: prod.splits command_plan.splits)
  also have "\<dots> \<longleftrightarrow> str_fields (effective_shell os c) = []"
    by (rule plan_panic)
  also have "\<dots> \<longleftrightarrow> rq_shell c \<noteq> [] \<and> str_fields (rq_shell c) = []"
    by (simp add: effective_shell_def default_shell_def known_shells)
  finally show ?thesis .
qed

end
