(* ===== verification/ServerState.thy ===== *)
theory ServerState
  imports Report Validator GoPath
begin

text \<open>
  The state container of the web server and of the command line's single run
  (\<open>internal/server/types.go\<close>, \<open>internal/server/state.go\<close>): its data, every operation of
  \<open>StateManager\<close>, and the invariants they keep. Each operation holds the manager's mutex from
  start to end, so it is one step on the record. The process's working directory is a parameter,
  the report writers and the clock are too.
\<close>

section \<open>Constants\<close>

abbreviation StatusIdle :: string where "StatusIdle \<equiv> ''idle''"
abbreviation StatusLoaded :: string where "StatusLoaded \<equiv> ''loaded''"
abbreviation StatusRunningElevating :: string where
  "StatusRunningElevating \<equiv> ''running.elevating''"
abbreviation StatusRunning :: string where "StatusRunning \<equiv> ''running''"
abbreviation StatusRunningCancelling :: string where
  "StatusRunningCancelling \<equiv> ''running.cancelling''"
abbreviation StatusCompletedConfirmingSubmission :: string where
  "StatusCompletedConfirmingSubmission \<equiv> ''completed.confirming_submission''"
abbreviation StatusCompletedSubmitting :: string where
  "StatusCompletedSubmitting \<equiv> ''completed.submitting''"
abbreviation StatusCompletedSubmitted :: string where
  "StatusCompletedSubmitted \<equiv> ''completed.submitted''"
abbreviation StatusCompletedSubmissionError :: string where
  "StatusCompletedSubmissionError \<equiv> ''completed.submission_error''"
abbreviation StatusCompleted :: string where "StatusCompleted \<equiv> ''completed''"

abbreviation ErrCodePlaybookParseFailed :: string where
  "ErrCodePlaybookParseFailed \<equiv> ''PLAYBOOK_PARSE_FAILED''"
abbreviation ErrCodePlaybookValidationFailed :: string where
  "ErrCodePlaybookValidationFailed \<equiv> ''PLAYBOOK_VALIDATION_FAILED''"
abbreviation ErrCodeRemoteFetchFailed :: string where
  "ErrCodeRemoteFetchFailed \<equiv> ''REMOTE_FETCH_FAILED''"
abbreviation ErrCodeElevationFailed :: string where
  "ErrCodeElevationFailed \<equiv> ''ELEVATION_FAILED''"
abbreviation ErrCodeExecutionAborted :: string where
  "ErrCodeExecutionAborted \<equiv> ''EXECUTION_ABORTED''"
abbreviation ErrCodeFolderWriteFailed :: string where
  "ErrCodeFolderWriteFailed \<equiv> ''FOLDER_WRITE_FAILED''"
abbreviation ErrCodeRemoteSubmissionFailed :: string where
  "ErrCodeRemoteSubmissionFailed \<equiv> ''REMOTE_SUBMISSION_FAILED''"
abbreviation ErrCodeRemoteSubmissionTimeout :: string where
  "ErrCodeRemoteSubmissionTimeout \<equiv> ''REMOTE_SUBMISSION_TIMEOUT''"
abbreviation ErrCodeConflict :: string where "ErrCodeConflict \<equiv> ''CONFLICT''"

abbreviation FolderSourceDefault :: string where "FolderSourceDefault \<equiv> ''default''"
abbreviation FolderSourceCLI :: string where "FolderSourceCLI \<equiv> ''cli''"
abbreviation FolderSourcePlaybook :: string where "FolderSourcePlaybook \<equiv> ''playbook''"
abbreviation FolderSourceCustom :: string where "FolderSourceCustom \<equiv> ''custom''"
abbreviation FolderSourceOff :: string where "FolderSourceOff \<equiv> ''off''"
abbreviation HttpsSourcePlaybook :: string where "HttpsSourcePlaybook \<equiv> ''playbook''"
abbreviation HttpsSourceCustom :: string where "HttpsSourceCustom \<equiv> ''custom''"
abbreviation HttpsSourceOff :: string where "HttpsSourceOff \<equiv> ''off''"

section \<open>Data\<close>

datatype err_detail = NoDetail | ValidationDetail "validation_error list"

record app_error =
  err_code :: string
  err_message :: string
  err_detail :: err_detail

record https_config =
  hc_url :: string
  hc_format :: string
  hc_secret :: string
  hc_headers :: strmap

record https_inspection =
  hi_url :: string
  hi_format :: string
  hi_hasSignatureSecret :: bool
  hi_configuredHeaders :: "string list"

record dest_defaults =
  dd_hasFolder :: bool
  dd_folderPath :: string
  dd_hasHTTPS :: bool
  dd_https :: "https_inspection option"

record dest_state =
  ds_folder :: string
  ds_folderSource :: string
  ds_httpsSource :: string
  ds_https :: "https_config option"
  ds_playbookDefaults :: "dest_defaults option"

record state_response =
  sr_status :: string
  sr_errors :: "app_error list"
  sr_reportDestination :: dest_state
  sr_activeRunID :: string

record playbook_inspection =
  pi_title :: string
  pi_reportFrontmatter :: "(string \<rightharpoonup> anyval) option"
  pi_sections :: "pb_section list"
  pi_reportDestination :: string
  pi_reportDestinationFolder :: string
  pi_reportDestinationHTTPS :: "https_inspection option"
  pi_requiresElevation :: bool

record assertion_snapshot =
  as_code :: string
  as_title :: string
  as_status :: string
  as_passed :: bool
  as_score :: goint
  as_minScore :: goint
  as_durationMs :: goint
  as_output :: string

record execution_snapshot =
  sn_runID :: string
  sn_status :: string
  sn_activeAssertionCode :: string
  sn_lastEventID :: int
  sn_durationMs :: goint
  sn_assertions :: "assertion_snapshot list"
  sn_logs :: "string list"

record dest_update =
  du_folder :: "string option"
  du_folderSource :: "string option"
  du_httpsSource :: "string option"
  du_https :: "https_config option"

text \<open>
  A run's context and its done channel are named by the run; \<open>sm_cancel\<close> is the run whose
  cancel function is stored. The raw bytes of the playbook are a string.
\<close>

record state_manager =
  sm_status :: string
  sm_errors :: "app_error list"
  sm_reportDestination :: dest_state
  sm_cliFolder :: string
  sm_isUI :: bool
  sm_playbook :: "playbook option"
  sm_playbookRaw :: string
  sm_activeRunID :: string
  sm_cancel :: "nat option"
  sm_done :: "nat option"
  sm_isCancelled :: bool
  sm_runStartTime :: gotime
  sm_snapshot :: execution_snapshot
  sm_lastReport :: "final_result option"

section \<open>Construction and reading\<close>

definition resolve_folder_path :: "string option \<Rightarrow> string \<Rightarrow> string" where
  "resolve_folder_path cwd dir =
     (let dir' = (if dir = [] then ''reports'' else dir) in
      case path_abs cwd dir' of Some p \<Rightarrow> p | None \<Rightarrow> dir')"

definition empty_snapshot :: execution_snapshot where
  "empty_snapshot =
     \<lparr>sn_runID = [], sn_status = StatusIdle, sn_activeAssertionCode = [], sn_lastEventID = 0,
      sn_durationMs = 0, sn_assertions = [], sn_logs = []\<rparr>"

text \<open>The destination before a playbook is loaded, and after it is unloaded.\<close>

definition initial_destination :: "string option \<Rightarrow> string \<Rightarrow> dest_state" where
  "initial_destination cwd cliFolder =
     \<lparr>ds_folder = resolve_folder_path cwd cliFolder,
      ds_folderSource = (if cliFolder \<noteq> [] then FolderSourceCLI else FolderSourceDefault),
      ds_httpsSource = HttpsSourceOff, ds_https = None, ds_playbookDefaults = None\<rparr>"

definition new_state_manager :: "string option \<Rightarrow> string \<Rightarrow> bool \<Rightarrow> state_manager" where
  "new_state_manager cwd cliFolder isUI =
     \<lparr>sm_status = StatusIdle, sm_errors = [],
      sm_reportDestination = initial_destination cwd cliFolder,
      sm_cliFolder = cliFolder, sm_isUI = isUI, sm_playbook = None, sm_playbookRaw = [],
      sm_activeRunID = [], sm_cancel = None, sm_done = None, sm_isCancelled = False,
      sm_runStartTime = 0, sm_snapshot = empty_snapshot, sm_lastReport = None\<rparr>"

definition state_response_of :: "state_manager \<Rightarrow> state_response" where
  "state_response_of sm =
     \<lparr>sr_status = sm_status sm, sr_errors = sm_errors sm,
      sr_reportDestination = sm_reportDestination sm, sr_activeRunID = sm_activeRunID sm\<rparr>"

text \<open>The four statuses of a run or a submission in progress.\<close>

definition busy_status :: "string \<Rightarrow> bool" where
  "busy_status s \<longleftrightarrow> s = StatusRunningElevating \<or> s = StatusRunning \<or> s = StatusRunningCancelling
     \<or> s = StatusCompletedSubmitting"

definition can_mutate :: "state_manager \<Rightarrow> bool" where
  "can_mutate sm \<longleftrightarrow> \<not> busy_status (sm_status sm)"

section \<open>Loading a playbook\<close>

definition inspect_https :: "dest_config \<Rightarrow> https_inspection" where
  "inspect_https c =
     \<lparr>hi_url = d_url c,
      hi_format = (if d_format c = [] then ''multipart'' else d_format c),
      hi_hasSignatureSecret = (d_signatureSecret c \<noteq> []),
      hi_configuredHeaders = map fst (d_additionalHeaders c)\<rparr>"

definition playbook_defaults :: "string option \<Rightarrow> playbook \<Rightarrow> dest_defaults" where
  "playbook_defaults cwd pb =
     \<lparr>dd_hasFolder = (p_reportDestinationFolder pb \<noteq> []),
      dd_folderPath = resolve_folder_path cwd (p_reportDestinationFolder pb),
      dd_hasHTTPS = (p_reportDestinationHTTPS pb \<noteq> None),
      dd_https = map_option inspect_https (p_reportDestinationHTTPS pb)\<rparr>"

definition ui_destination :: "string option \<Rightarrow> string \<Rightarrow> playbook \<Rightarrow> dest_state \<Rightarrow> dest_state" where
  "ui_destination cwd cliFolder pb d =
     (let d1 = (if cliFolder \<noteq> [] then
                  d\<lparr>ds_folderSource := FolderSourceCLI,
                    ds_folder := resolve_folder_path cwd cliFolder\<rparr>
                else if p_reportDestinationFolder pb \<noteq> [] then
                  d\<lparr>ds_folderSource := FolderSourcePlaybook,
                    ds_folder := resolve_folder_path cwd (p_reportDestinationFolder pb)\<rparr>
                else
                  d\<lparr>ds_folderSource := FolderSourceDefault,
                    ds_folder := resolve_folder_path cwd ''reports''\<rparr>)
      in d1\<lparr>ds_httpsSource := (if p_reportDestination pb = report_destination_https
                               then HttpsSourcePlaybook else HttpsSourceOff)\<rparr>)"

definition cli_destination :: "string option \<Rightarrow> string \<Rightarrow> playbook \<Rightarrow> dest_state \<Rightarrow> dest_state" where
  "cli_destination cwd cliFolder pb d =
     (if cliFolder \<noteq> [] then
        d\<lparr>ds_folderSource := FolderSourceCLI, ds_folder := resolve_folder_path cwd cliFolder,
          ds_httpsSource := HttpsSourceOff\<rparr>
      else if p_reportDestination pb = report_destination_https then
        d\<lparr>ds_folderSource := FolderSourceOff, ds_httpsSource := HttpsSourcePlaybook\<rparr>
      else if p_reportDestinationFolder pb \<noteq> [] then
        d\<lparr>ds_httpsSource := HttpsSourceOff, ds_folderSource := FolderSourcePlaybook,
          ds_folder := resolve_folder_path cwd (p_reportDestinationFolder pb)\<rparr>
      else
        d\<lparr>ds_httpsSource := HttpsSourceOff, ds_folderSource := FolderSourceDefault,
          ds_folder := resolve_folder_path cwd ''reports''\<rparr>)"

definition pending_snapshot :: "assertion \<Rightarrow> assertion_snapshot" where
  "pending_snapshot a =
     \<lparr>as_code = a_code a, as_title = a_title a, as_status = ''pending'', as_passed = False,
      as_score = 0, as_minScore = get_min_passing_score a, as_durationMs = 0, as_output = []\<rparr>"

definition set_playbook ::
    "string option \<Rightarrow> playbook \<Rightarrow> string \<Rightarrow> validation_error list \<Rightarrow> state_manager \<Rightarrow> state_manager"
  where
  "set_playbook cwd pb raw valErrors sm =
     (let d = (sm_reportDestination sm)\<lparr>ds_playbookDefaults := Some (playbook_defaults cwd pb)\<rparr>
      in sm\<lparr>sm_playbook := Some pb, sm_playbookRaw := raw, sm_status := StatusLoaded,
            sm_errors := (if valErrors \<noteq> []
                          then [\<lparr>err_code = ErrCodePlaybookValidationFailed,
                                 err_message = ''Playbook validation failed'',
                                 err_detail = ValidationDetail valErrors\<rparr>]
                          else []),
            sm_isCancelled := False, sm_lastReport := None, sm_activeRunID := [],
            sm_reportDestination :=
              (if sm_isUI sm then ui_destination cwd (sm_cliFolder sm) pb d
               else cli_destination cwd (sm_cliFolder sm) pb d),
            sm_snapshot := empty_snapshot\<lparr>sn_status := StatusLoaded,
                             sn_assertions := map pending_snapshot (all_assertions pb)\<rparr>\<rparr>)"

definition set_load_error :: "string \<Rightarrow> string \<Rightarrow> err_detail \<Rightarrow> state_manager \<Rightarrow> state_manager" where
  "set_load_error code msg detail sm =
     sm\<lparr>sm_status := StatusIdle, sm_playbook := None, sm_playbookRaw := [],
        sm_errors := [\<lparr>err_code = code, err_message = msg, err_detail = detail\<rparr>],
        sm_snapshot := empty_snapshot\<rparr>"

definition unload_playbook :: "string option \<Rightarrow> state_manager \<Rightarrow> goerr option \<times> state_manager" where
  "unload_playbook cwd sm =
     (if busy_status (sm_status sm)
      then (Some ''cannot unload playbook during execution or submission'', sm)
      else (None,
            sm\<lparr>sm_status := StatusIdle, sm_playbook := None, sm_playbookRaw := [], sm_errors := [],
               sm_lastReport := None, sm_isCancelled := False, sm_activeRunID := [],
               sm_reportDestination := initial_destination cwd (sm_cliFolder sm),
               sm_snapshot := empty_snapshot\<rparr>))"

definition get_playbook_inspection :: "state_manager \<Rightarrow> goerr + playbook_inspection" where
  "get_playbook_inspection sm =
     (case sm_playbook sm of
        None \<Rightarrow> Inl ''no playbook loaded''
      | Some pb \<Rightarrow>
          Inr \<lparr>pi_title = p_title pb, pi_reportFrontmatter = p_reportFrontmatter pb,
               pi_sections = p_sections pb, pi_reportDestination = p_reportDestination pb,
               pi_reportDestinationFolder = p_reportDestinationFolder pb,
               pi_reportDestinationHTTPS = map_option inspect_https (p_reportDestinationHTTPS pb),
               pi_requiresElevation = requires_elevation (Some pb)\<rparr>)"

section \<open>Destinations and reports\<close>

definition folder_locked :: "string option \<Rightarrow> state_manager \<Rightarrow> dest_update \<Rightarrow> bool" where
  "folder_locked cwd sm req \<longleftrightarrow>
     sm_cliFolder sm \<noteq> []
     \<and> ((case du_folderSource req of None \<Rightarrow> False | Some fs \<Rightarrow> fs \<noteq> FolderSourceCLI)
        \<or> (case du_folder req of
             None \<Rightarrow> False
           | Some fd \<Rightarrow> resolve_folder_path cwd fd \<noteq> resolve_folder_path cwd (sm_cliFolder sm)))"

definition update_destination ::
    "string option \<Rightarrow> dest_update \<Rightarrow> state_manager \<Rightarrow> goerr option \<times> state_manager" where
  "update_destination cwd req sm =
     (if busy_status (sm_status sm)
      then (Some ''cannot update destination during execution or submission'', sm)
      else if folder_locked cwd sm req
      then (Some ''cannot modify destination: folder is locked by --folder CLI flag'', sm)
      else
        (let d0 = sm_reportDestination sm;
             d1 = (case du_folderSource req of None \<Rightarrow> d0 | Some fs \<Rightarrow> d0\<lparr>ds_folderSource := fs\<rparr>);
             d2 = (case du_folder req of
                     None \<Rightarrow> d1 | Some fd \<Rightarrow> d1\<lparr>ds_folder := resolve_folder_path cwd fd\<rparr>);
             d3 = (case du_httpsSource req of None \<Rightarrow> d2 | Some hs \<Rightarrow> d2\<lparr>ds_httpsSource := hs\<rparr>);
             d4 = (case du_https req of None \<Rightarrow> d3 | Some h \<Rightarrow> d3\<lparr>ds_https := Some h\<rparr>)
         in (None, sm\<lparr>sm_reportDestination := d4\<rparr>)))"

definition get_execution_snapshot :: "(gotime \<Rightarrow> goint) \<Rightarrow> state_manager \<Rightarrow> execution_snapshot" where
  "get_execution_snapshot since sm =
     (let snap = sm_snapshot sm;
          snap1 = (if sm_runStartTime sm \<noteq> 0
                      \<and> (sm_status sm = StatusRunning \<or> sm_status sm = StatusRunningElevating
                         \<or> sm_status sm = StatusRunningCancelling)
                   then snap\<lparr>sn_durationMs := since (sm_runStartTime sm)\<rparr> else snap)
      in snap1\<lparr>sn_status := sm_status sm\<rparr>)"

definition get_last_report :: "state_manager \<Rightarrow> final_result option \<times> bool" where
  "get_last_report sm = (sm_lastReport sm, sm_isCancelled sm)"

definition has_validation_errors :: "state_manager \<Rightarrow> bool" where
  "has_validation_errors sm \<longleftrightarrow>
     list_ex (\<lambda>e. err_code e = ErrCodePlaybookValidationFailed) (sm_errors sm)"

definition set_status :: "string \<Rightarrow> state_manager \<Rightarrow> state_manager" where
  "set_status s sm = sm\<lparr>sm_status := s\<rparr>"

text \<open>The report writers: what they return, over the state of the world.\<close>

record 'w writers =
  wr_folder :: "string \<Rightarrow> final_result \<Rightarrow> 'w \<Rightarrow> goerr option \<times> 'w"
  wr_http :: "dest_config \<Rightarrow> final_result \<Rightarrow> 'w \<Rightarrow> goerr option \<times> 'w"

definition custom_config :: "https_config \<Rightarrow> dest_config" where
  "custom_config h =
     \<lparr>d_url = hc_url h, d_format = hc_format h, d_signatureSecret = hc_secret h,
      d_additionalHeaders = hc_headers h\<rparr>"

definition dispatch_http ::
    "'w writers \<Rightarrow> dest_config \<Rightarrow> final_result \<Rightarrow> 'w \<Rightarrow> goerr option \<times> 'w" where
  "dispatch_http W cfg res w =
     (case wr_http W cfg res w of
        (None, w') \<Rightarrow> (None, w')
      | (Some e, w') \<Rightarrow> (Some (''failed to send report to HTTPS endpoint: '' @ e), w'))"

definition dispatch_https_step ::
    "'w writers \<Rightarrow> state_manager \<Rightarrow> final_result \<Rightarrow> 'w \<Rightarrow> goerr option \<times> 'w" where
  "dispatch_https_step W sm res w =
     (let d = sm_reportDestination sm in
      if ds_httpsSource d = HttpsSourcePlaybook then
        (case Option.bind (sm_playbook sm) p_reportDestinationHTTPS of
           None \<Rightarrow> (Some (''report destination is https, but reportDestinationHttps '' @
                          ''configuration is missing''), w)
         | Some cfg \<Rightarrow> dispatch_http W cfg res w)
      else if ds_httpsSource d = HttpsSourceCustom then
        (case ds_https d of
           None \<Rightarrow> (None, w)
         | Some h \<Rightarrow> dispatch_http W (custom_config h) res w)
      else (None, w))"

definition dispatch_report ::
    "'w writers \<Rightarrow> state_manager \<Rightarrow> final_result \<Rightarrow> 'w \<Rightarrow> goerr option \<times> 'w" where
  "dispatch_report W sm res w =
     (let d = sm_reportDestination sm in
      if ds_folderSource d \<noteq> FolderSourceOff then
        (case wr_folder W (if ds_folder d = [] then ''reports'' else ds_folder d) res w of
           (Some e, w') \<Rightarrow> (Some (''failed to write report to folder: '' @ e), w')
         | (None, w') \<Rightarrow> dispatch_https_step W sm res w')
      else dispatch_https_step W sm res w)"

section \<open>The manager's operations as steps\<close>

inductive sm_step :: "string option \<Rightarrow> state_manager \<Rightarrow> state_manager \<Rightarrow> bool" for cwd where
  sm_set_playbook: "sm_step cwd sm (set_playbook cwd pb raw errs sm)"
| sm_set_load_error: "sm_step cwd sm (set_load_error code msg detail sm)"
| sm_unload: "sm_step cwd sm (snd (unload_playbook cwd sm))"
| sm_update: "sm_step cwd sm (snd (update_destination cwd req sm))"
| sm_set_status: "sm_step cwd sm (set_status st sm)"

text \<open>With a folder given on the command line, the folder destination is that folder.\<close>

definition folder_lock :: "string option \<Rightarrow> string \<Rightarrow> state_manager \<Rightarrow> bool" where
  "folder_lock cwd cli sm \<longleftrightarrow>
     sm_cliFolder sm = cli
     \<and> (if cli = [] then True
        else ds_folderSource (sm_reportDestination sm) = FolderSourceCLI
             \<and> ds_folder (sm_reportDestination sm) = resolve_folder_path cwd cli)"

lemma folder_lock_new [simp]: "folder_lock cwd cli (new_state_manager cwd cli ui)"
  by (simp add: folder_lock_def new_state_manager_def initial_destination_def)

lemma folder_lock_set_playbook:
  "folder_lock cwd cli sm \<Longrightarrow> folder_lock cwd cli (set_playbook cwd pb raw errs sm)"
  by (auto simp: folder_lock_def set_playbook_def ui_destination_def cli_destination_def Let_def)

lemma folder_lock_set_load_error:
  "folder_lock cwd cli sm \<Longrightarrow> folder_lock cwd cli (set_load_error code msg detail sm)"
  by (simp add: folder_lock_def set_load_error_def)

lemma folder_lock_unload:
  "folder_lock cwd cli sm \<Longrightarrow> folder_lock cwd cli (snd (unload_playbook cwd sm))"
  by (simp add: folder_lock_def unload_playbook_def initial_destination_def)

lemma folder_lock_update:
  "folder_lock cwd cli sm \<Longrightarrow> folder_lock cwd cli (snd (update_destination cwd req sm))"
  by (auto simp: folder_lock_def update_destination_def folder_locked_def Let_def
      split: option.splits)

lemma folder_lock_set_status:
  "folder_lock cwd cli sm \<Longrightarrow> folder_lock cwd cli (set_status st sm)"
  by (simp add: folder_lock_def set_status_def)

lemmas folder_lock_ops [go_wf] = folder_lock_set_status folder_lock_set_playbook folder_lock_set_load_error
  folder_lock_unload folder_lock_update

interpretation lock: inductive_invariant
  "\<lambda>sm. \<exists>ui. sm = new_state_manager cwd cli ui" "sm_step cwd" "folder_lock cwd cli" for cwd cli
proof unfold_locales
  show "\<exists>ui. sm = new_state_manager cwd cli ui \<Longrightarrow> folder_lock cwd cli sm" for sm
    by auto
  show "folder_lock cwd cli t" if "folder_lock cwd cli s" and "sm_step cwd s t" for s t
    using that(2,1) by cases (auto intro: go_wf)
qed

text \<open>
  C25: Where a report folder was given on the command line, no sequence of operations of the state
  manager (loading, failing to load, unloading, changing the destination, setting the status)
  makes a report go elsewhere: dispatching a report starts by writing it to that folder.
\<close>

theorem cli_folder_is_locked:
  assumes "reach (\<lambda>sm. \<exists>ui. sm = new_state_manager cwd cli ui) (sm_step cwd) sm" and "cli \<noteq> []"
    and "resolve_folder_path cwd cli = dir" and "dir \<noteq> []"
  shows "dispatch_report W sm res w =
    (case wr_folder W dir res w of
       (Some e, w') \<Rightarrow> (Some (''failed to write report to folder: '' @ e), w')
     | (None, w') \<Rightarrow> dispatch_https_step W sm res w')"
  using lock.inv_reach [OF assms(1)] assms(2-)
  by (simp add: folder_lock_def dispatch_report_def Let_def)

definition plain_writers :: "int writers" where
  "plain_writers = \<lparr>wr_folder = (\<lambda>d r w. (None, w + 1)), wr_http = (\<lambda>c r w. (None, w + 2))\<rparr>"

definition blank_playbook :: playbook where
  "blank_playbook =
     \<lparr>p_title = ''blank'', p_reportFrontmatter = None, p_sections = [], p_reportDestination = [],
      p_reportDestinationFolder = ''else'', p_reportDestinationHTTPS = None\<rparr>"

text \<open>A playbook that names another folder, loaded and unloaded.\<close>

definition relocked :: state_manager where
  "relocked = set_playbook (Some ''/home'') blank_playbook [] []
     (snd (unload_playbook (Some ''/home'') (new_state_manager (Some ''/home'') ''/out'' True)))"

lemma relocked_reach:
  "reach (\<lambda>sm. \<exists>ui. sm = new_state_manager (Some ''/home'') ''/out'' ui) (sm_step (Some ''/home''))
     relocked"
proof -
  let ?ini = "\<lambda>sm. \<exists>ui. sm = new_state_manager (Some ''/home'') ''/out'' ui"
  let ?new = "new_state_manager (Some ''/home'') ''/out'' True"
  have "reach ?ini (sm_step (Some ''/home'')) ?new" by (rule reach_init) blast
  then have "reach ?ini (sm_step (Some ''/home'')) (snd (unload_playbook (Some ''/home'') ?new))"
    by (rule reach_step) (rule sm_unload)
  then show ?thesis
    unfolding relocked_def by (rule reach_step) (rule sm_set_playbook)
qed

lemma cli_folder_is_locked_witness:
  "\<forall>res. dispatch_report plain_writers relocked res 0 =
    (case wr_folder plain_writers (path_clean ''/out'') res 0 of
       (Some e, w') \<Rightarrow> (Some (''failed to write report to folder: '' @ e), w')
     | (None, w') \<Rightarrow> dispatch_https_step plain_writers relocked res w')"
proof (rule allI, rule cli_folder_is_locked [OF relocked_reach])
  have "path_clean ''/out'' = ''/out''" by code_simp
  then show "path_clean ''/out'' \<noteq> []" by simp
  show "resolve_folder_path (Some ''/home'') ''/out'' = path_clean ''/out''"
    by (simp add: resolve_folder_path_def path_abs_def rooted_def has_prefix_def)
qed simp

section \<open>Destinations of the command line\<close>

text \<open>The one write of a command-line run: where a validated playbook's report goes.\<close>

definition single_write ::
    "'w writers \<Rightarrow> string option \<Rightarrow> string \<Rightarrow> playbook \<Rightarrow> final_result \<Rightarrow> 'w \<Rightarrow> goerr option \<times> 'w"
  where
  "single_write W cwd cli pb res w =
     (let folder = (\<lambda>d. case wr_folder W (if d = [] then ''reports'' else d) res w of
                      (Some e, w') \<Rightarrow> (Some (''failed to write report to folder: '' @ e), w')
                    | (None, w') \<Rightarrow> (None, w')) in
      if cli \<noteq> [] then folder (resolve_folder_path cwd cli)
      else if p_reportDestination pb = report_destination_https
      then dispatch_http W (the (p_reportDestinationHTTPS pb)) res w
      else folder (resolve_folder_path cwd (p_reportDestinationFolder pb)))"

lemma valid_https_present:
  "valid_playbook ag pb \<Longrightarrow> p_reportDestination pb = report_destination_https
     \<Longrightarrow> p_reportDestinationHTTPS pb \<noteq> None"
  by (auto simp: valid_playbook_def destination_ok_def split: option.splits)

lemma resolve_reports: "resolve_folder_path cwd ''reports'' = resolve_folder_path cwd []"
  by (simp add: resolve_folder_path_def)

text \<open>
  C26: On the command line a validated playbook has exactly one destination: its report is
  written either to a folder (the flag's, the playbook's or the default one) or to its HTTPS
  endpoint, never to both, and the configuration of the endpoint is always there.
\<close>

theorem cli_dispatch_single:
  assumes "valid_playbook isAgent pb" and "sm_isUI sm = False"
  shows "dispatch_report W (set_playbook cwd pb raw errs sm) res w
    = single_write W cwd (sm_cliFolder sm) pb res w"
proof -
  let ?sm = "set_playbook cwd pb raw errs sm"
  consider "sm_cliFolder sm \<noteq> []"
    | "sm_cliFolder sm = []" "p_reportDestination pb = report_destination_https"
    | "sm_cliFolder sm = []" "p_reportDestination pb \<noteq> report_destination_https"
    by blast
  then show ?thesis
  proof cases
    case 1
    then show ?thesis
      using assms(2)
      by (simp add: dispatch_report_def dispatch_https_step_def set_playbook_def cli_destination_def
          single_write_def Let_def split: prod.splits option.splits)
  next
    case 2
    then obtain cfg where "p_reportDestinationHTTPS pb = Some cfg"
      using valid_https_present [OF assms(1)] by auto
    with 2 assms(2) show ?thesis
      by (simp add: dispatch_report_def dispatch_https_step_def set_playbook_def cli_destination_def
          single_write_def Let_def)
  next
    case 3
    then show ?thesis
      using assms(2)
      by (cases "p_reportDestinationFolder pb")
        (simp_all add: dispatch_report_def dispatch_https_step_def set_playbook_def
          cli_destination_def single_write_def Let_def resolve_reports
          split: prod.splits option.splits)
  qed
qed

section \<open>Secrets\<close>

text \<open>A configuration with its secret and its header values blotted out.\<close>

definition blot :: "string \<Rightarrow> string" where
  "blot s = (if s = [] then [] else ''x'')"

definition blot_config :: "dest_config \<Rightarrow> dest_config" where
  "blot_config c =
     c\<lparr>d_signatureSecret := blot (d_signatureSecret c),
       d_additionalHeaders := map (\<lambda>(k, v). (k, blot v)) (d_additionalHeaders c)\<rparr>"

definition blot_playbook :: "playbook \<Rightarrow> playbook" where
  "blot_playbook pb =
     pb\<lparr>p_reportDestinationHTTPS := map_option blot_config (p_reportDestinationHTTPS pb)\<rparr>"

definition blot_state :: "state_manager \<Rightarrow> state_manager" where
  "blot_state sm = sm\<lparr>sm_playbook := map_option blot_playbook (sm_playbook sm)\<rparr>"

lemma inspect_blot: "inspect_https (blot_config c) = inspect_https c"
  by (auto simp: inspect_https_def blot_config_def blot_def)

lemma blot_playbook_sel [simp]:
  "p_title (blot_playbook pb) = p_title pb"
  "p_reportFrontmatter (blot_playbook pb) = p_reportFrontmatter pb"
  "p_sections (blot_playbook pb) = p_sections pb"
  "p_reportDestination (blot_playbook pb) = p_reportDestination pb"
  "p_reportDestinationFolder (blot_playbook pb) = p_reportDestinationFolder pb"
  "p_reportDestinationHTTPS (blot_playbook pb) = map_option blot_config (p_reportDestinationHTTPS pb)"
  by (simp_all add: blot_playbook_def)

lemma inspect_blot_option:
  "map_option inspect_https (map_option blot_config c) = map_option inspect_https c"
  by (simp add: option.map_comp comp_def inspect_blot)

text \<open>
  C27: A playbook's signature secret and the values of its additional headers are never shown:
  the playbook inspection and the state response after loading a playbook are those of the
  playbook with these strings blotted out.
\<close>

theorem inspection_hides_secrets:
  "get_playbook_inspection (blot_state sm) = get_playbook_inspection sm
   \<and> state_response_of (set_playbook cwd (blot_playbook pb) raw errs sm)
       = state_response_of (set_playbook cwd pb raw errs sm)"
proof -
  have "requires_elevation (Some (blot_playbook q)) = requires_elevation (Some q)" for q
    by (simp add: requires_elevation_def elevation_stats_def)
  then have "get_playbook_inspection (blot_state sm) = get_playbook_inspection sm"
    by (cases "sm_playbook sm")
      (simp_all add: get_playbook_inspection_def blot_state_def inspect_blot_option)
  moreover have "playbook_defaults cwd (blot_playbook pb) = playbook_defaults cwd pb"
    by (simp add: playbook_defaults_def inspect_blot_option)
  ultimately show ?thesis
    by (simp add: state_response_of_def set_playbook_def ui_destination_def cli_destination_def Let_def)
qed

end
