(* ===== verification/Lifecycle.thy ===== *)
theory Lifecycle
  imports ServerState
begin

text \<open>
  The lifecycle manager of the web server (\<open>internal/server/lifecycle.go\<close>): the grace period
  after the start, the count of connected clients, and the inactivity timer that shuts the server
  down. Timers are those of \<open>time.AfterFunc\<close>: stopping one prevents its callback only while it
  has not expired; the callback of an expired timer runs later, once it gets the mutex. Each
  method is one step, taken where it reads the status: it holds the manager's mutex around that,
  so nothing but the status can change in between. The callback that decides on a shutdown gives
  the mutex up before it calls \<open>onShutdown\<close>, so decision and call are two steps.
\<close>

section \<open>Timers\<close>

datatype timer_kind = GraceTimer | IdleTimer

record timers =
  tm_next :: nat
  tm_live :: "nat \<rightharpoonup> timer_kind \<times> gotime"
  tm_expired :: "timer_kind list"

definition after_func :: "gotime \<Rightarrow> timer_kind \<Rightarrow> timers \<Rightarrow> nat \<times> timers" where
  "after_func d k T =
     (tm_next T, T\<lparr>tm_next := Suc (tm_next T), tm_live := (tm_live T)(tm_next T \<mapsto> (k, d))\<rparr>)"

definition stop_timer :: "nat option \<Rightarrow> timers \<Rightarrow> timers" where
  "stop_timer t T = (case t of None \<Rightarrow> T | Some i \<Rightarrow> T\<lparr>tm_live := (tm_live T)(i := None)\<rparr>)"

section \<open>The manager\<close>

record lifecycle_config =
  lc_startupGracePeriod :: gotime
  lc_inactivityTimeout :: gotime
  lc_disableAutoShutdown :: bool

record lifecycle_manager =
  lm_startupGracePeriod :: gotime
  lm_inactivityTimeout :: gotime
  lm_disabled :: bool
  lm_activeClients :: int
  lm_graceTimer :: "nat option"
  lm_idleTimer :: "nat option"
  lm_graceExpired :: bool
  lm_stopped :: bool

definition seconds :: "int \<Rightarrow> gotime" where
  "seconds n = n * 1000000000"

definition new_lifecycle_manager :: "lifecycle_config \<Rightarrow> timers \<Rightarrow> lifecycle_manager \<times> timers" where
  "new_lifecycle_manager cfg T =
     (let gracePeriod = (if lc_startupGracePeriod cfg \<le> 0 then seconds 300
                         else lc_startupGracePeriod cfg);
          idleTimeout = (if lc_inactivityTimeout cfg \<le> 0 then seconds 60
                         else lc_inactivityTimeout cfg);
          lm = \<lparr>lm_startupGracePeriod = gracePeriod, lm_inactivityTimeout = idleTimeout,
                lm_disabled = lc_disableAutoShutdown cfg, lm_activeClients = 0,
                lm_graceTimer = None, lm_idleTimer = None, lm_graceExpired = False,
                lm_stopped = False\<rparr>
      in if lm_disabled lm then (lm\<lparr>lm_graceExpired := True\<rparr>, T)
         else (let (t, T') = after_func gracePeriod GraceTimer T
               in (lm\<lparr>lm_graceTimer := Some t\<rparr>, T')))"

definition start_idle :: "lifecycle_manager \<Rightarrow> timers \<Rightarrow> lifecycle_manager \<times> timers" where
  "start_idle lm T =
     (let (t, T') = after_func (lm_inactivityTimeout lm) IdleTimer T
      in (lm\<lparr>lm_idleTimer := Some t\<rparr>, T'))"

text \<open>The condition of the idle countdown but for the grace period, given the status.\<close>

definition may_idle :: "string \<Rightarrow> lifecycle_manager \<Rightarrow> bool" where
  "may_idle status lm \<longleftrightarrow>
     lm_activeClients lm = 0 \<and> \<not> busy_status status \<and> \<not> lm_stopped lm \<and> \<not> lm_disabled lm"

definition on_client_connect :: "lifecycle_manager \<Rightarrow> timers \<Rightarrow> lifecycle_manager \<times> timers" where
  "on_client_connect lm T =
     (lm\<lparr>lm_activeClients := lm_activeClients lm + 1, lm_idleTimer := None\<rparr>,
      stop_timer (lm_idleTimer lm) T)"

definition on_client_disconnect ::
    "string \<Rightarrow> lifecycle_manager \<Rightarrow> timers \<Rightarrow> lifecycle_manager \<times> timers" where
  "on_client_disconnect status lm T =
     (let lm1 = lm\<lparr>lm_activeClients := max 0 (lm_activeClients lm - 1)\<rparr> in
      if lm_graceExpired lm1 \<and> may_idle status lm1
      then start_idle lm1 (stop_timer (lm_idleTimer lm1) T)
      else (lm1, T))"

definition on_execution_state_change ::
    "string \<Rightarrow> lifecycle_manager \<Rightarrow> timers \<Rightarrow> lifecycle_manager \<times> timers" where
  "on_execution_state_change status lm T =
     (if lm_graceExpired lm \<and> may_idle status lm \<and> lm_idleTimer lm = None
      then start_idle lm T else (lm, T))"

definition on_grace_period_expired ::
    "string \<Rightarrow> lifecycle_manager \<Rightarrow> timers \<Rightarrow> lifecycle_manager \<times> timers" where
  "on_grace_period_expired status lm T =
     (let lm1 = lm\<lparr>lm_graceExpired := True\<rparr> in
      if may_idle status lm1 \<and> lm_idleTimer lm1 = None then start_idle lm1 T else (lm1, T))"

text \<open>The idle callback: whether it calls \<open>onShutdown\<close>, and the manager afterwards.\<close>

definition on_idle_timeout_expired :: "string \<Rightarrow> lifecycle_manager \<Rightarrow> bool \<times> lifecycle_manager" where
  "on_idle_timeout_expired status lm =
     (\<not> (lm_stopped lm \<or> lm_disabled lm \<or> 0 < lm_activeClients lm \<or> busy_status status),
      lm\<lparr>lm_idleTimer := None\<rparr>)"

definition lifecycle_stop :: "lifecycle_manager \<Rightarrow> timers \<Rightarrow> lifecycle_manager \<times> timers" where
  "lifecycle_stop lm T =
     (lm\<lparr>lm_stopped := True, lm_graceTimer := None, lm_idleTimer := None\<rparr>,
      stop_timer (lm_idleTimer lm) (stop_timer (lm_graceTimer lm) T))"

section \<open>The manager in the server\<close>

text \<open>
  The status belongs to the state manager. \<open>lx_working\<close> counts the runs and submissions that
  have started and not yet called \<open>OnExecutionStateChange\<close>, which each does at its end; only
  while one is in progress is the status set from or to a busy one, and to begin one it must not
  be busy. \<open>lx_shutdown\<close> is set by the decision of an idle callback, \<open>lx_called\<close> by its call.
\<close>

record lifecycle_system =
  lx_manager :: lifecycle_manager
  lx_timers :: timers
  lx_status :: string
  lx_working :: nat
  lx_shutdown :: bool
  lx_called :: bool

definition with_manager ::
    "lifecycle_manager \<times> timers \<Rightarrow> lifecycle_system \<Rightarrow> lifecycle_system" where
  "with_manager mT X = X\<lparr>lx_manager := fst mT, lx_timers := snd mT\<rparr>"

definition lifecycle_start :: "lifecycle_config \<Rightarrow> lifecycle_system" where
  "lifecycle_start cfg =
     (let (lm, T) = new_lifecycle_manager cfg \<lparr>tm_next = 0, tm_live = Map.empty, tm_expired = []\<rparr>
      in \<lparr>lx_manager = lm, lx_timers = T, lx_status = StatusIdle, lx_working = 0,
          lx_shutdown = False, lx_called = False\<rparr>)"

inductive lifecycle_step :: "lifecycle_system \<Rightarrow> lifecycle_system \<Rightarrow> bool" where
  ls_connect: "lifecycle_step X (with_manager (on_client_connect (lx_manager X) (lx_timers X)) X)"
| ls_disconnect: "lifecycle_step X
    (with_manager (on_client_disconnect (lx_status X) (lx_manager X) (lx_timers X)) X)"
| ls_begin: "\<not> busy_status (lx_status X) \<Longrightarrow> busy_status s
    \<Longrightarrow> lifecycle_step X (X\<lparr>lx_status := s, lx_working := Suc (lx_working X)\<rparr>)"
| ls_status: "lx_working X \<noteq> 0 \<or> busy_status s = busy_status (lx_status X)
    \<Longrightarrow> lifecycle_step X (X\<lparr>lx_status := s\<rparr>)"
| ls_notify: "lx_working X = Suc n \<Longrightarrow> lifecycle_step X
    ((with_manager (on_execution_state_change (lx_status X) (lx_manager X) (lx_timers X)) X)
       \<lparr>lx_working := n\<rparr>)"
| ls_expire: "tm_live (lx_timers X) i = Some (k, d) \<Longrightarrow> lifecycle_step X
    (X\<lparr>lx_timers := (lx_timers X)\<lparr>tm_live := (tm_live (lx_timers X))(i := None),
                                 tm_expired := k # tm_expired (lx_timers X)\<rparr>\<rparr>)"
| ls_grace: "tm_expired (lx_timers X) = as @ GraceTimer # bs \<Longrightarrow> lifecycle_step X
    (with_manager (on_grace_period_expired (lx_status X) (lx_manager X)
       ((lx_timers X)\<lparr>tm_expired := as @ bs\<rparr>)) X)"
| ls_idle: "tm_expired (lx_timers X) = as @ IdleTimer # bs
    \<Longrightarrow> on_idle_timeout_expired (lx_status X) (lx_manager X) = (down, lm') \<Longrightarrow> lifecycle_step X
    (X\<lparr>lx_manager := lm', lx_timers := (lx_timers X)\<lparr>tm_expired := as @ bs\<rparr>,
       lx_shutdown := (lx_shutdown X \<or> down)\<rparr>)"
| ls_call: "lx_shutdown X \<Longrightarrow> lifecycle_step X (X\<lparr>lx_called := True\<rparr>)"
| ls_stop: "lifecycle_step X (with_manager (lifecycle_stop (lx_manager X) (lx_timers X)) X)"

text \<open>An idle countdown is under way: scheduled, or expired with its callback to come.\<close>

definition counting :: "timers \<Rightarrow> bool" where
  "counting T \<longleftrightarrow> (\<exists>i d. tm_live T i = Some (IdleTimer, d)) \<or> IdleTimer \<in> set (tm_expired T)"

definition idle_server :: "lifecycle_system \<Rightarrow> bool" where
  "idle_server X \<longleftrightarrow> lm_graceExpired (lx_manager X) \<and> may_idle (lx_status X) (lx_manager X)
     \<and> lx_working X = 0"

definition lifecycle_inv :: "lifecycle_system \<Rightarrow> bool" where
  "lifecycle_inv X \<longleftrightarrow>
     0 \<le> lm_activeClients (lx_manager X)
     \<and> (lm_idleTimer (lx_manager X) \<noteq> None \<longrightarrow> counting (lx_timers X))
     \<and> (counting (lx_timers X) \<longrightarrow> lm_graceExpired (lx_manager X) \<and> \<not> lm_disabled (lx_manager X))
     \<and> (idle_server X \<longrightarrow> counting (lx_timers X) \<or> lx_shutdown X)"

lemma counting_start [simp]: "counting (snd (start_idle lm T))"
  by (auto simp: counting_def start_idle_def after_func_def Let_def)

lemma start_idle_manager [simp]:
  "lm_activeClients (fst (start_idle lm T)) = lm_activeClients lm"
  "lm_graceExpired (fst (start_idle lm T)) = lm_graceExpired lm"
  "lm_disabled (fst (start_idle lm T)) = lm_disabled lm"
  "lm_stopped (fst (start_idle lm T)) = lm_stopped lm"
  by (simp_all add: start_idle_def after_func_def Let_def)

lemma counting_stop: "counting (stop_timer t T) \<Longrightarrow> counting T"
  by (auto simp: counting_def stop_timer_def split: option.splits if_splits)

lemma with_manager_sel [simp]:
  "lx_manager (with_manager mT X) = fst mT" "lx_timers (with_manager mT X) = snd mT"
  "lx_status (with_manager mT X) = lx_status X" "lx_working (with_manager mT X) = lx_working X"
  "lx_shutdown (with_manager mT X) = lx_shutdown X" "lx_called (with_manager mT X) = lx_called X"
  by (simp_all add: with_manager_def)

lemma counting_expire:
  assumes "tm_live T i = Some (k, d)"
  shows "counting (T\<lparr>tm_live := (tm_live T)(i := None), tm_expired := k # tm_expired T\<rparr>) \<longleftrightarrow> counting T"
proof -
  have "(\<exists>j e. tm_live T j = Some (IdleTimer, e))
      \<longleftrightarrow> k = IdleTimer \<or> (\<exists>j e. j \<noteq> i \<and> tm_live T j = Some (IdleTimer, e))"
    using assms by (metis option.inject prod.inject)
  then show ?thesis by (auto simp: counting_def)
qed

lemma counting_grace: "tm_expired T = as @ GraceTimer # bs
    \<Longrightarrow> counting (T\<lparr>tm_expired := as @ bs\<rparr>) \<longleftrightarrow> counting T"
  by (auto simp: counting_def)

lemma counting_less: "tm_expired T = as @ k # bs
    \<Longrightarrow> counting (T\<lparr>tm_expired := as @ bs\<rparr>) \<Longrightarrow> counting T"
  by (auto simp: counting_def)

lemma counting_idle: "tm_expired T = as @ IdleTimer # bs \<Longrightarrow> counting T"
  by (auto simp: counting_def)

lemma lifecycle_inv_start: "lifecycle_inv (lifecycle_start cfg)"
  by (auto simp: lifecycle_inv_def lifecycle_start_def new_lifecycle_manager_def after_func_def
      counting_def idle_server_def may_idle_def Let_def split: if_splits)

lemma lifecycle_inv_step:
  assumes "lifecycle_inv X" and "lifecycle_step X Y"
  shows "lifecycle_inv Y"
  using assms(2,1)
proof cases
  case ls_connect
  then show ?thesis using assms(1)
    by (auto simp: lifecycle_inv_def on_client_connect_def idle_server_def may_idle_def
        dest: counting_stop)
next
  case ls_disconnect
  then show ?thesis using assms(1)
    by (auto simp: lifecycle_inv_def on_client_disconnect_def idle_server_def may_idle_def Let_def)
next
  case (ls_begin s)
  then show ?thesis using assms(1) by (auto simp: lifecycle_inv_def idle_server_def may_idle_def)
next
  case (ls_status s)
  then show ?thesis using assms(1) by (auto simp: lifecycle_inv_def idle_server_def may_idle_def)
next
  case (ls_notify n)
  then show ?thesis using assms(1)
    by (auto simp: lifecycle_inv_def on_execution_state_change_def idle_server_def may_idle_def)
next
  case (ls_expire i k d)
  then show ?thesis using assms(1)
    by (auto simp: lifecycle_inv_def idle_server_def counting_expire [OF ls_expire(2)])
next
  case (ls_grace as bs)
  then show ?thesis using assms(1)
    by (auto simp: lifecycle_inv_def on_grace_period_expired_def idle_server_def may_idle_def Let_def
        counting_grace [OF ls_grace(2)])
next
  case (ls_idle as bs down lm')
  then show ?thesis using assms(1) counting_idle [OF ls_idle(2)]
    by (auto simp: lifecycle_inv_def on_idle_timeout_expired_def idle_server_def may_idle_def
        dest: counting_less [OF ls_idle(2)])
next
  case ls_call
  then show ?thesis using assms(1) by (auto simp: lifecycle_inv_def idle_server_def)
next
  case ls_stop
  then show ?thesis using assms(1)
    by (auto simp: lifecycle_inv_def lifecycle_stop_def idle_server_def may_idle_def
        dest!: counting_stop)
qed

interpretation life: inductive_invariant "\<lambda>X. \<exists>cfg. X = lifecycle_start cfg" lifecycle_step lifecycle_inv
  by unfold_locales (auto intro: lifecycle_inv_start lifecycle_inv_step)

text \<open>
  C22: The server does not linger: in every reachable state in which the grace period is over, no
  client is connected, nothing is running or being submitted (and no such work has its final
  notification to make), and shutdown is neither disabled nor done, an idle countdown is
  scheduled or has just expired, or the shutdown has been triggered.
\<close>

theorem idle_server_counts_down:
  assumes "reach (\<lambda>X. \<exists>cfg. X = lifecycle_start cfg) lifecycle_step X" and "idle_server X"
  shows "counting (lx_timers X) \<or> lx_shutdown X"
  using life.inv_reach [OF assms(1)] assms(2) by (simp add: lifecycle_inv_def)

section \<open>What precedes an automatic shutdown\<close>

text \<open>Nobody uses the server, and it may shut itself down.\<close>

definition idle_moment :: "lifecycle_system \<Rightarrow> bool" where
  "idle_moment X \<longleftrightarrow>
     lm_activeClients (lx_manager X) = 0 \<and> \<not> busy_status (lx_status X)
     \<and> lm_graceExpired (lx_manager X) \<and> \<not> lm_disabled (lx_manager X) \<and> \<not> lm_stopped (lx_manager X)"

text \<open>A step after which a new timer counts the whole inactivity timeout.\<close>

definition starts_countdown :: "lifecycle_system \<Rightarrow> lifecycle_system \<Rightarrow> bool" where
  "starts_countdown X Y \<longleftrightarrow>
     lifecycle_step X Y
     \<and> tm_live (lx_timers Y) (tm_next (lx_timers X))
       = Some (IdleTimer, lm_inactivityTimeout (lx_manager Y))"

text \<open>The step of an idle callback that decides on the shutdown.\<close>

definition decides_shutdown :: "lifecycle_system \<Rightarrow> lifecycle_system \<Rightarrow> bool" where
  "decides_shutdown X Y \<longleftrightarrow>
     lifecycle_step X Y \<and> \<not> lx_shutdown X \<and> lx_shutdown Y
     \<and> IdleTimer \<in> set (tm_expired (lx_timers X))"

lemma start_idle_live [simp]:
  "tm_live (snd (start_idle lm T)) (tm_next T) = Some (IdleTimer, lm_inactivityTimeout lm)"
  "lm_inactivityTimeout (fst (start_idle lm T)) = lm_inactivityTimeout lm"
  by (simp_all add: start_idle_def after_func_def Let_def)

lemma tm_next_stop [simp]: "tm_next (stop_timer t T) = tm_next T"
  by (simp add: stop_timer_def split: option.splits)

lemma start_idle_live_stop [simp]:
  "tm_live (snd (start_idle lm (stop_timer t T))) (tm_next T) = Some (IdleTimer, lm_inactivityTimeout lm)"
  using start_idle_live(1) [of lm "stop_timer t T"] by (simp del: start_idle_live)

lemma counting_begins:
  assumes "lifecycle_step X Y" and "\<not> counting (lx_timers X)" and "counting (lx_timers Y)"
  shows "starts_countdown X Y \<and> idle_moment Y"
  using assms(1)
proof cases
  case ls_connect
  then show ?thesis using assms(2,3) by (auto simp: on_client_connect_def dest: counting_stop)
next
  case ls_disconnect
  then show ?thesis using assms
    by (auto simp: on_client_disconnect_def starts_countdown_def idle_moment_def may_idle_def Let_def
        split: if_splits)
next
  case (ls_notify n)
  then show ?thesis using assms
    by (auto simp: on_execution_state_change_def starts_countdown_def idle_moment_def may_idle_def
        split: if_splits)
next
  case (ls_expire i k d)
  then show ?thesis using assms(2,3) counting_expire [OF ls_expire(2)] by simp
next
  case (ls_grace as bs)
  let ?T = "(lx_timers X)\<lparr>tm_expired := as @ bs\<rparr>"
  have "\<not> counting ?T" using assms(2) counting_grace [OF ls_grace(2)] by simp
  moreover have "tm_next ?T = tm_next (lx_timers X)" by simp
  ultimately show ?thesis using assms ls_grace(1) start_idle_live(1) [where T = ?T]
    by (auto simp: on_grace_period_expired_def starts_countdown_def idle_moment_def may_idle_def
        Let_def split: if_splits)
next
  case (ls_idle as bs down lm')
  then show ?thesis using assms(2) counting_idle [OF ls_idle(2)] by simp
next
  case ls_stop
  then show ?thesis using assms(2,3) by (auto simp: lifecycle_stop_def dest!: counting_stop)
qed (use assms(2,3) in simp_all)

lemma decision_idle:
  assumes "lifecycle_inv X" and "lifecycle_step X Y" and "\<not> lx_shutdown X" and "lx_shutdown Y"
  shows "idle_moment X \<and> decides_shutdown X Y"
  using assms(2)
proof cases
  case (ls_idle as bs down lm')
  then show ?thesis
    using assms counting_idle [OF ls_idle(2)]
    by (auto simp: lifecycle_inv_def on_idle_timeout_expired_def idle_moment_def decides_shutdown_def)
qed (use assms(3,4) in auto)

abbreviation lifecycle_reachable :: "lifecycle_system \<Rightarrow> bool" where
  "lifecycle_reachable \<equiv> reach (\<lambda>X. \<exists>cfg. X = lifecycle_start cfg) lifecycle_step"

text \<open>The way to a state with a countdown under way, and to one in which a shutdown was decided.\<close>

definition counted_down :: "lifecycle_system \<Rightarrow> bool" where
  "counted_down X \<longleftrightarrow>
     (\<exists>X0 X1. lifecycle_reachable X0 \<and> starts_countdown X0 X1 \<and> idle_moment X1
        \<and> lifecycle_step\<^sup>*\<^sup>* X1 X)"

definition shutdown_decided :: "lifecycle_system \<Rightarrow> bool" where
  "shutdown_decided Y \<longleftrightarrow>
     (\<exists>X X'. counted_down X \<and> idle_moment X \<and> decides_shutdown X X' \<and> lifecycle_step\<^sup>*\<^sup>* X' Y)"

lemma counting_counted_down:
  "lifecycle_reachable X \<Longrightarrow> counting (lx_timers X) \<Longrightarrow> counted_down X"
proof (induction rule: reach.induct)
  case (reach_init X)
  then show ?case
    by (auto simp: lifecycle_start_def new_lifecycle_manager_def after_func_def counting_def Let_def
        split: if_splits)
next
  case (reach_step X Y)
  show ?case
  proof (cases "counting (lx_timers X)")
    case True
    then show ?thesis using reach_step unfolding counted_down_def
      by (meson rtranclp.rtrancl_into_rtrancl)
  next
    case False
    then show ?thesis using counting_begins [OF reach_step(2)] reach_step unfolding counted_down_def
      by (meson rtranclp.rtrancl_refl)
  qed
qed

lemma shutdown_was_decided: "lifecycle_reachable Y \<Longrightarrow> lx_shutdown Y \<Longrightarrow> shutdown_decided Y"
proof (induction rule: reach.induct)
  case (reach_init X)
  then show ?case
    by (auto simp: lifecycle_start_def new_lifecycle_manager_def after_func_def Let_def split: if_splits)
next
  case (reach_step X Y)
  show ?case
  proof (cases "lx_shutdown X")
    case True
    then show ?thesis using reach_step unfolding shutdown_decided_def
      by (meson rtranclp.rtrancl_into_rtrancl)
  next
    case False
    note d = decision_idle [OF life.inv_reach [OF reach_step(1)] reach_step(2) False reach_step.prems]
    then have "counting (lx_timers X)" by (simp add: decides_shutdown_def counting_def)
    then have "counted_down X" by (rule counting_counted_down [OF reach_step(1)])
    with d show ?thesis unfolding shutdown_decided_def by (meson rtranclp.rtrancl_refl)
  qed
qed

lemma called_after_decision: "lifecycle_reachable Y \<Longrightarrow> lx_called Y \<Longrightarrow> lx_shutdown Y"
proof (induction rule: reach.induct)
  case (reach_init X)
  then show ?case
    by (auto simp: lifecycle_start_def new_lifecycle_manager_def after_func_def Let_def split: if_splits)
next
  case (reach_step X Y)
  from reach_step(2,3,4) show ?case by cases auto
qed

text \<open>
  C21: In every interleaving of connections, runs and timers, an automatic shutdown is preceded by
  idleness twice: at some point an idle timer was started for the whole inactivity timeout, when
  the grace period was over, no client was connected, nothing was running or being submitted and
  automatic shutdown was enabled; and later the callback of an expired idle timer found all of
  this to be so again and decided on the shutdown that was then called. What happens between the
  decision and the call is not covered: see \<open>shutdown_under_client\<close>.
\<close>

theorem automatic_shutdown_after_idleness:
  assumes "reach (\<lambda>X. \<exists>cfg. X = lifecycle_start cfg) lifecycle_step Y" and "lx_called Y"
  shows "\<exists>X0 X1 X X'.
     reach (\<lambda>X. \<exists>cfg. X = lifecycle_start cfg) lifecycle_step X0
     \<and> starts_countdown X0 X1 \<and> idle_moment X1 \<and> lifecycle_step\<^sup>*\<^sup>* X1 X
     \<and> idle_moment X \<and> decides_shutdown X X' \<and> lifecycle_step\<^sup>*\<^sup>* X' Y"
  using shutdown_was_decided [OF assms(1) called_after_decision [OF assms]]
  unfolding shutdown_decided_def counted_down_def by blast

text \<open>The default configuration, run to the automatic shutdown: nobody ever connects.\<close>

definition default_lifecycle :: lifecycle_config where
  "default_lifecycle = \<lparr>lc_startupGracePeriod = 0, lc_inactivityTimeout = 0,
                        lc_disableAutoShutdown = False\<rparr>"

definition graced :: lifecycle_system where
  "graced =
     \<lparr>lx_manager = \<lparr>lm_startupGracePeriod = seconds 300, lm_inactivityTimeout = seconds 60,
                   lm_disabled = False, lm_activeClients = 0, lm_graceTimer = Some 0,
                   lm_idleTimer = Some 1, lm_graceExpired = True, lm_stopped = False\<rparr>,
      lx_timers = \<lparr>tm_next = 2, tm_live = [1 \<mapsto> (IdleTimer, seconds 60)], tm_expired = []\<rparr>,
      lx_status = StatusIdle, lx_working = 0, lx_shutdown = False, lx_called = False\<rparr>"

lemma graced_reach: "reach (\<lambda>X. \<exists>cfg. X = lifecycle_start cfg) lifecycle_step graced"
proof -
  let ?X0 = "lifecycle_start default_lifecycle"
  let ?X1 = "?X0\<lparr>lx_timers := (lx_timers ?X0)\<lparr>tm_live := (tm_live (lx_timers ?X0))(0 := None),
                                tm_expired := GraceTimer # tm_expired (lx_timers ?X0)\<rparr>\<rparr>"
  let ?X2 = "with_manager (on_grace_period_expired (lx_status ?X1) (lx_manager ?X1)
                ((lx_timers ?X1)\<lparr>tm_expired := [] @ []\<rparr>)) ?X1"
  have x0: "?X0 = \<lparr>lx_manager = \<lparr>lm_startupGracePeriod = seconds 300,
        lm_inactivityTimeout = seconds 60, lm_disabled = False, lm_activeClients = 0,
        lm_graceTimer = Some 0, lm_idleTimer = None, lm_graceExpired = False, lm_stopped = False\<rparr>,
      lx_timers = \<lparr>tm_next = 1, tm_live = [0 \<mapsto> (GraceTimer, seconds 300)], tm_expired = []\<rparr>,
      lx_status = StatusIdle, lx_working = 0, lx_shutdown = False, lx_called = False\<rparr>"
    by (simp add: lifecycle_start_def new_lifecycle_manager_def default_lifecycle_def after_func_def Let_def)
  have "reach (\<lambda>X. \<exists>cfg. X = lifecycle_start cfg) lifecycle_step ?X0"
    by (rule reach_init) blast
  moreover have "lifecycle_step ?X0 ?X1"
    by (rule ls_expire [where d = "seconds 300"]) (simp add: x0)
  moreover have "lifecycle_step ?X1 ?X2"
    by (rule ls_grace) (simp add: x0)
  moreover have "?X2 = graced"
    by (simp add: x0 graced_def on_grace_period_expired_def may_idle_def busy_status_def
        start_idle_def after_func_def with_manager_def Let_def numeral_2_eq_2 fun_eq_iff)
  ultimately show ?thesis by (metis reach_step)
qed

lemma idle_server_counts_down_witness: "counting (lx_timers graced) \<or> lx_shutdown graced"
  by (rule idle_server_counts_down [OF graced_reach])
    (simp add: graced_def idle_server_def may_idle_def busy_status_def)

text \<open>The timer of \<open>graced\<close> has expired, and then its callback runs.\<close>

definition expired_graced :: lifecycle_system where
  "expired_graced = graced\<lparr>lx_timers := (lx_timers graced)
     \<lparr>tm_live := (tm_live (lx_timers graced))(1 := None),
      tm_expired := IdleTimer # tm_expired (lx_timers graced)\<rparr>\<rparr>"

definition shut_graced :: lifecycle_system where
  "shut_graced = expired_graced
     \<lparr>lx_manager := snd (on_idle_timeout_expired (lx_status expired_graced) (lx_manager expired_graced)),
      lx_timers := (lx_timers expired_graced)\<lparr>tm_expired := [] @ []\<rparr>,
      lx_shutdown := (lx_shutdown expired_graced
        \<or> fst (on_idle_timeout_expired (lx_status expired_graced) (lx_manager expired_graced)))\<rparr>"

lemma shut_graced_reach:
  "lifecycle_reachable expired_graced" "lifecycle_reachable shut_graced" "lx_shutdown shut_graced"
  "lx_manager shut_graced = (lx_manager graced)\<lparr>lm_idleTimer := None\<rparr>"
proof -
  show e: "lifecycle_reachable expired_graced"
    using graced_reach unfolding expired_graced_def
    by (rule reach_step) (rule ls_expire [where d = "seconds 60"], simp add: graced_def)
  have "lifecycle_step expired_graced shut_graced"
    unfolding shut_graced_def
    by (rule ls_idle) (simp_all add: expired_graced_def graced_def)
  with e show "lifecycle_reachable shut_graced" by (rule reach_step)
  show "lx_shutdown shut_graced"
    by (simp add: shut_graced_def expired_graced_def graced_def on_idle_timeout_expired_def
        busy_status_def)
  show "lx_manager shut_graced = (lx_manager graced)\<lparr>lm_idleTimer := None\<rparr>"
    by (simp add: shut_graced_def expired_graced_def on_idle_timeout_expired_def)
qed

definition called_graced :: lifecycle_system where
  "called_graced = shut_graced\<lparr>lx_called := True\<rparr>"

lemma called_graced_reach: "lifecycle_reachable called_graced" "lx_called called_graced"
  using shut_graced_reach(2) unfolding called_graced_def
  by (rule reach_step) (rule ls_call, rule shut_graced_reach(3), simp)

lemma automatic_shutdown_after_idleness_witness:
  "\<exists>Y. lx_called Y \<and> (\<exists>X0 X1 X X'.
     reach (\<lambda>X. \<exists>cfg. X = lifecycle_start cfg) lifecycle_step X0
     \<and> starts_countdown X0 X1 \<and> idle_moment X1 \<and> lifecycle_step\<^sup>*\<^sup>* X1 X
     \<and> idle_moment X \<and> decides_shutdown X X' \<and> lifecycle_step\<^sup>*\<^sup>* X' Y)"
  using automatic_shutdown_after_idleness [OF called_graced_reach] called_graced_reach(2) by blast

text \<open>
  Between the decision and the call a client can connect, and the server is shut down under it:
  \<open>onIdleTimeoutExpired\<close> gives up its mutex before it calls \<open>onShutdown\<close>, and nothing checks again.
\<close>

lemma shutdown_under_client:
  "\<exists>Y. lifecycle_reachable Y \<and> lx_called Y \<and> lm_activeClients (lx_manager Y) = 1
     \<and> \<not> lm_stopped (lx_manager Y)"
proof -
  let ?X = "with_manager (on_client_connect (lx_manager shut_graced) (lx_timers shut_graced)) shut_graced"
  have "lifecycle_reachable ?X" using shut_graced_reach(2) by (rule reach_step) (rule ls_connect)
  moreover have "lifecycle_step ?X (?X\<lparr>lx_called := True\<rparr>)"
    by (rule ls_call) (simp add: shut_graced_reach(3))
  ultimately have "lifecycle_reachable (?X\<lparr>lx_called := True\<rparr>)" by (rule reach_step)
  then show ?thesis
    by (intro exI [of _ "?X\<lparr>lx_called := True\<rparr>"])
      (simp add: on_client_connect_def shut_graced_reach(4) graced_def)
qed

section \<open>A stale callback\<close>

text \<open>
  A client connects after the idle timer expired and before its callback has the mutex, and
  disconnects again: the countdown is restarted, but the old callback is still to come.
\<close>

definition reconnected :: lifecycle_system where
  "reconnected =
     (let X = with_manager (on_client_connect (lx_manager expired_graced) (lx_timers expired_graced))
                expired_graced
      in with_manager (on_client_disconnect (lx_status X) (lx_manager X) (lx_timers X)) X)"

lemma reconnected_eq:
  "lx_manager reconnected = (lx_manager graced)\<lparr>lm_idleTimer := Some 2\<rparr>"
  "tm_live (lx_timers reconnected) 2 = Some (IdleTimer, seconds 60)"
  "tm_expired (lx_timers reconnected) = [IdleTimer]"
  "lx_status reconnected = StatusIdle" "\<not> lx_shutdown reconnected"
  by (simp_all add: reconnected_def expired_graced_def graced_def on_client_connect_def
      on_client_disconnect_def may_idle_def busy_status_def start_idle_def after_func_def
      stop_timer_def Let_def)

lemma reconnected_reach: "reach (\<lambda>X. \<exists>cfg. X = lifecycle_start cfg) lifecycle_step reconnected"
proof -
  have "reach (\<lambda>X. \<exists>cfg. X = lifecycle_start cfg) lifecycle_step expired_graced"
    using graced_reach unfolding expired_graced_def
    by (rule reach_step) (rule ls_expire [where d = "seconds 60"], simp add: graced_def)
  then have "reach (\<lambda>X. \<exists>cfg. X = lifecycle_start cfg) lifecycle_step
      (with_manager (on_client_connect (lx_manager expired_graced) (lx_timers expired_graced))
        expired_graced)"
    by (rule reach_step) (rule ls_connect)
  then show ?thesis
    unfolding reconnected_def Let_def by (rule reach_step) (rule ls_disconnect)
qed

text \<open>
  The inactivity timeout can be cut short: there is an interleaving of one client's
  connection and disconnection with an expired timer in which the shutdown is triggered although
  the countdown was restarted for the full timeout at the disconnection and has not expired,
  because the old timer's callback does not check that it is still the current one.
\<close>

lemma stale_idle_callback:
  "\<exists>X Y i. reach (\<lambda>X. \<exists>cfg. X = lifecycle_start cfg) lifecycle_step X \<and> lifecycle_step X Y
     \<and> \<not> lx_shutdown X \<and> lx_shutdown Y \<and> lm_idleTimer (lx_manager X) = Some i
     \<and> tm_live (lx_timers X) i = Some (IdleTimer, lm_inactivityTimeout (lx_manager X))"
proof (intro exI conjI)
  let ?Y = "reconnected
     \<lparr>lx_manager := snd (on_idle_timeout_expired (lx_status reconnected) (lx_manager reconnected)),
      lx_timers := (lx_timers reconnected)\<lparr>tm_expired := [] @ []\<rparr>,
      lx_shutdown := (lx_shutdown reconnected
        \<or> fst (on_idle_timeout_expired (lx_status reconnected) (lx_manager reconnected)))\<rparr>"
  show "reach (\<lambda>X. \<exists>cfg. X = lifecycle_start cfg) lifecycle_step reconnected"
    by (rule reconnected_reach)
  show "lifecycle_step reconnected ?Y"
    by (rule ls_idle) (simp_all add: reconnected_eq)
  show "\<not> lx_shutdown reconnected" by (rule reconnected_eq)
  show "lx_shutdown ?Y"
    by (simp add: on_idle_timeout_expired_def reconnected_eq graced_def busy_status_def)
  show "lm_idleTimer (lx_manager reconnected) = Some 2"
    by (simp add: reconnected_eq)
  show "tm_live (lx_timers reconnected) 2
      = Some (IdleTimer, lm_inactivityTimeout (lx_manager reconnected))"
    by (simp add: reconnected_eq graced_def)
qed

end
