(* ===== verification/EventBroker.thy ===== *)
theory EventBroker
  imports ServerState
begin

text \<open>
  The event broker (\<open>internal/server/events.go\<close>): subscriptions as buffered channels of 128
  events, broadcasting with a monotonic event id, the termination broadcast, and the loop that
  writes a client's server-sent events. The map iteration order is random in Go; as every
  channel is treated on its own, the model maps over all subscribers at once. Event ids are
  unbounded integers (the code's int64 would need 2^63 events to wrap).
\<close>

section \<open>Events\<close>

datatype event_data =
    StateData state_response
  | ProgressData string string string bool goint goint goint string
  | LogData string string
  | CompletedData string string goint
  | CancelledData string
  | TerminationData string

text \<open>\<open>ev_done\<close> is that the event carries a completion callback.\<close>

record sse_event =
  ev_id :: int
  ev_type :: string
  ev_runID :: string
  ev_data :: event_data
  ev_done :: bool

section \<open>Channels\<close>

text \<open>
  The contract of a buffered channel under non-blocking sends: a send appends where there is
  room and changes nothing otherwise, a receive takes the oldest element.
\<close>

locale bounded_channel =
  fixes offer :: "'e \<Rightarrow> 'q \<Rightarrow> 'q" and recv :: "'q \<Rightarrow> ('e \<times> 'q) option"
    and items :: "'q \<Rightarrow> 'e list" and capacity :: nat
  assumes items_offer:
      "items (offer e q) = (if length (items q) < capacity then items q @ [e] else items q)"
    and items_recv: "recv q = Some (e, q') \<Longrightarrow> items q = e # items q'"
    and recv_None: "recv q = None \<Longrightarrow> items q = []"
begin

lemma offer_bounded: "length (items q) \<le> capacity \<Longrightarrow> length (items (offer e q)) \<le> capacity"
  by (simp add: items_offer)

lemma recv_bounded:
  "length (items q) \<le> capacity \<Longrightarrow> recv q = Some (e, q') \<Longrightarrow> length (items q') \<le> capacity"
  using items_recv by fastforce

lemma offer_subseq:
  "subseq (got @ items q) sent \<Longrightarrow> subseq (got @ items (offer e q)) (sent @ [e])"
proof -
  assume s: "subseq (got @ items q) sent"
  have "subseq ((got @ items q) @ [e]) (sent @ [e])" using s by (rule list_emb_append_mono) simp
  moreover have "subseq (got @ items q) (sent @ [e])"
    using s by (rule subseq_order.order_trans) (simp add: subseq_rev_drop_many)
  ultimately show ?thesis by (simp add: items_offer)
qed

lemma offer_all:
  "got @ items q = sent \<Longrightarrow> length (items q) < capacity \<Longrightarrow> got @ items (offer e q) = sent @ [e]"
  by (simp add: items_offer)

lemma recv_moves: "recv q = Some (e, q') \<Longrightarrow> (got @ [e]) @ items q' = got @ items q"
  using items_recv by fastforce

end

definition channel_capacity :: nat where
  "channel_capacity = 128"

definition chan_offer :: "sse_event \<Rightarrow> sse_event list \<Rightarrow> sse_event list" where
  "chan_offer ev q = (if length q < channel_capacity then q @ [ev] else q)"

definition chan_recv :: "sse_event list \<Rightarrow> (sse_event \<times> sse_event list) option" where
  "chan_recv q = (case q of [] \<Rightarrow> None | ev # q' \<Rightarrow> Some (ev, q'))"

interpretation chan: bounded_channel chan_offer chan_recv "\<lambda>q. q" channel_capacity
  by unfold_locales (auto simp: chan_offer_def chan_recv_def split: list.splits)

section \<open>The broker\<close>

text \<open>Channels are numbered in the order they are made.\<close>

record event_broker =
  eb_subscribers :: "nat \<rightharpoonup> sse_event list"
  eb_lastEventID :: int
  eb_nextChan :: nat

definition new_event_broker :: event_broker where
  "new_event_broker = \<lparr>eb_subscribers = Map.empty, eb_lastEventID = 0, eb_nextChan = 0\<rparr>"

definition subscribe :: "event_broker \<Rightarrow> nat \<times> event_broker" where
  "subscribe b =
     (eb_nextChan b, b\<lparr>eb_subscribers := (eb_subscribers b)(eb_nextChan b \<mapsto> []),
                       eb_nextChan := Suc (eb_nextChan b)\<rparr>)"

definition unsubscribe :: "nat \<Rightarrow> event_broker \<Rightarrow> event_broker" where
  "unsubscribe ch b = b\<lparr>eb_subscribers := (eb_subscribers b)(ch := None)\<rparr>"

definition send_all :: "sse_event \<Rightarrow> event_broker \<Rightarrow> event_broker" where
  "send_all ev b =
     b\<lparr>eb_subscribers := (\<lambda>ch. map_option (chan_offer ev) (eb_subscribers b ch)),
       eb_lastEventID := ev_id ev\<rparr>"

definition next_event :: "event_broker \<Rightarrow> string \<Rightarrow> string \<Rightarrow> event_data \<Rightarrow> sse_event" where
  "next_event b kind runID data =
     \<lparr>ev_id = eb_lastEventID b + 1, ev_type = kind, ev_runID = runID, ev_data = data, ev_done = False\<rparr>"

definition broadcast ::
    "string \<Rightarrow> string \<Rightarrow> event_data \<Rightarrow> event_broker \<Rightarrow> int \<times> event_broker" where
  "broadcast kind runID data b =
     (let ev = next_event b kind runID data in (ev_id ev, send_all ev b))"

text \<open>
  The termination broadcast returns the id, the channels whose callback it then waits for (until
  the timeout), and the broker. Without subscribers it does nothing. The number of subscribers
  is only tested for zero.
\<close>

definition termination_event :: "event_broker \<Rightarrow> sse_event" where
  "termination_event b =
     \<lparr>ev_id = eb_lastEventID b + 1, ev_type = ''termination'', ev_runID = [],
      ev_data = TerminationData ''shutdown'', ev_done = True\<rparr>"

definition has_room :: "event_broker \<Rightarrow> nat \<Rightarrow> bool" where
  "has_room b ch \<longleftrightarrow>
     (case eb_subscribers b ch of None \<Rightarrow> False | Some q \<Rightarrow> length q < channel_capacity)"

definition broadcast_termination :: "event_broker \<Rightarrow> int \<times> nat set \<times> event_broker" where
  "broadcast_termination b =
     (if dom (eb_subscribers b) = {} then (0, {}, b)
      else (let ev = termination_event b in
            (ev_id ev, {ch. has_room b ch}, send_all ev b)))"

definition subscriber_count :: "event_broker \<Rightarrow> nat" where
  "subscriber_count b = card (dom (eb_subscribers b))"

definition last_event_id :: "event_broker \<Rightarrow> int" where
  "last_event_id b = eb_lastEventID b"

section \<open>A client's stream\<close>

text \<open>
  What the loop of \<open>handleEvents\<close> writes for an event: nothing if its data can not be encoded;
  and whether it returns afterwards.
\<close>

definition sse_frame :: "(event_data \<Rightarrow> string option) \<Rightarrow> sse_event \<Rightarrow> string" where
  "sse_frame enc ev =
     (case enc (ev_data ev) of
        None \<Rightarrow> []
      | Some d \<Rightarrow> ''id: '' @ int_str (ev_id ev) @ nl @ ''event: '' @ ev_type ev @ nl
                  @ ''data: '' @ d @ nl @ nl)"

definition ends_stream :: "(event_data \<Rightarrow> string option) \<Rightarrow> sse_event \<Rightarrow> bool" where
  "ends_stream enc ev \<longleftrightarrow> enc (ev_data ev) \<noteq> None \<and> ev_type ev = ''termination''"

fun write_events :: "(event_data \<Rightarrow> string option) \<Rightarrow> sse_event list \<Rightarrow> string" where
  "write_events enc [] = []"
| "write_events enc (ev # evs) =
     sse_frame enc ev @ (if ends_stream enc ev then [] else write_events enc evs)"

definition event_stream :: "(event_data \<Rightarrow> string option) \<Rightarrow> sse_event list \<Rightarrow> string" where
  "event_stream enc evs = '': connected'' @ nl @ nl @ write_events enc evs"

section \<open>Broker and clients as a system\<close>

text \<open>
  The broker with what each client has received; and, for the statement of the properties only,
  what was sent while it was subscribed and whether an event was dropped because its channel was
  full.
\<close>

record stream_system =
  ss_broker :: event_broker
  ss_received :: "nat \<Rightarrow> sse_event list"
  ss_sent :: "nat \<Rightarrow> sse_event list"
  ss_lagged :: "nat \<Rightarrow> bool"

definition stream_init :: stream_system where
  "stream_init = \<lparr>ss_broker = new_event_broker, ss_received = (\<lambda>c. []), ss_sent = (\<lambda>c. []),
                  ss_lagged = (\<lambda>c. False)\<rparr>"

definition stream_send :: "sse_event \<Rightarrow> event_broker \<Rightarrow> stream_system \<Rightarrow> stream_system" where
  "stream_send ev b' S =
     S\<lparr>ss_broker := b',
       ss_sent := (\<lambda>c. if eb_subscribers (ss_broker S) c = None then ss_sent S c
                       else ss_sent S c @ [ev]),
       ss_lagged := (\<lambda>c. ss_lagged S c
                         \<or> (eb_subscribers (ss_broker S) c \<noteq> None \<and> \<not> has_room (ss_broker S) c))\<rparr>"

inductive stream_step :: "stream_system \<Rightarrow> stream_system \<Rightarrow> bool" where
  str_subscribe: "subscribe (ss_broker S) = (ch, b') \<Longrightarrow> stream_step S (S\<lparr>ss_broker := b'\<rparr>)"
| str_unsubscribe: "stream_step S (S\<lparr>ss_broker := unsubscribe ch (ss_broker S)\<rparr>)"
| str_broadcast: "broadcast kind runID data (ss_broker S) = (i, b')
    \<Longrightarrow> stream_step S (stream_send (next_event (ss_broker S) kind runID data) b' S)"
| str_terminate: "broadcast_termination (ss_broker S) = (i, waits, b') \<Longrightarrow> i \<noteq> 0
    \<Longrightarrow> stream_step S (stream_send (termination_event (ss_broker S)) b' S)"
| str_receive: "eb_subscribers (ss_broker S) ch = Some q \<Longrightarrow> chan_recv q = Some (ev, q')
    \<Longrightarrow> stream_step S (S\<lparr>ss_broker := (ss_broker S)\<lparr>eb_subscribers := (eb_subscribers (ss_broker S))(ch \<mapsto> q')\<rparr>,
                        ss_received := (ss_received S)(ch := ss_received S ch @ [ev])\<rparr>)"

text \<open>What is known of one client, by its channel.\<close>

definition client_queue :: "stream_system \<Rightarrow> nat \<Rightarrow> sse_event list" where
  "client_queue S c = (case eb_subscribers (ss_broker S) c of None \<Rightarrow> [] | Some q \<Rightarrow> q)"

definition subscribed :: "stream_system \<Rightarrow> nat \<Rightarrow> bool" where
  "subscribed S c \<longleftrightarrow> eb_subscribers (ss_broker S) c \<noteq> None"

definition ids_increase :: "sse_event list \<Rightarrow> int \<Rightarrow> bool" where
  "ids_increase evs n \<longleftrightarrow> sorted_wrt (<) (map ev_id evs) \<and> list_all (\<lambda>e. ev_id e \<le> n) evs"

definition stream_inv :: "stream_system \<Rightarrow> bool" where
  "stream_inv S \<longleftrightarrow>
     (\<forall>c. ids_increase (ss_sent S c) (eb_lastEventID (ss_broker S))
          \<and> subseq (ss_received S c @ client_queue S c) (ss_sent S c)
          \<and> length (client_queue S c) \<le> channel_capacity
          \<and> (subscribed S c \<and> \<not> ss_lagged S c
               \<longrightarrow> ss_received S c @ client_queue S c = ss_sent S c)
          \<and> (eb_nextChan (ss_broker S) \<le> c
               \<longrightarrow> \<not> subscribed S c \<and> ss_received S c = [] \<and> ss_sent S c = []))"

lemma ids_increase_snoc:
  "ids_increase evs n \<Longrightarrow> n < ev_id e \<Longrightarrow> ids_increase (evs @ [e]) (ev_id e)"
  by (auto simp: ids_increase_def sorted_wrt_append list_all_iff)

lemma ids_increase_mono: "ids_increase evs n \<Longrightarrow> n \<le> m \<Longrightarrow> ids_increase evs m"
  by (auto simp: ids_increase_def list_all_iff)

lemma subseq_prefix: "subseq (xs @ ys) zs \<Longrightarrow> subseq xs zs"
  by (meson subseq_order.order_trans subseq_rev_drop_many subseq_order.order_refl)

text \<open>Sending, as both broadcasts do it.\<close>

lemma stream_inv_send:
  assumes "stream_inv S" and "ev_id ev = eb_lastEventID (ss_broker S) + 1"
  shows "stream_inv (stream_send ev (send_all ev (ss_broker S)) S)"
  unfolding stream_inv_def
proof
  fix c
  let ?T = "stream_send ev (send_all ev (ss_broker S)) S"
  have inv: "ids_increase (ss_sent S c) (eb_lastEventID (ss_broker S))"
    "subseq (ss_received S c @ client_queue S c) (ss_sent S c)"
    "length (client_queue S c) \<le> channel_capacity"
    "subscribed S c \<and> \<not> ss_lagged S c \<longrightarrow> ss_received S c @ client_queue S c = ss_sent S c"
    "eb_nextChan (ss_broker S) \<le> c
       \<longrightarrow> \<not> subscribed S c \<and> ss_received S c = [] \<and> ss_sent S c = []"
    using assms(1) by (auto simp: stream_inv_def)
  show "ids_increase (ss_sent ?T c) (eb_lastEventID (ss_broker ?T))
      \<and> subseq (ss_received ?T c @ client_queue ?T c) (ss_sent ?T c)
      \<and> length (client_queue ?T c) \<le> channel_capacity
      \<and> (subscribed ?T c \<and> \<not> ss_lagged ?T c
           \<longrightarrow> ss_received ?T c @ client_queue ?T c = ss_sent ?T c)
      \<and> (eb_nextChan (ss_broker ?T) \<le> c
           \<longrightarrow> \<not> subscribed ?T c \<and> ss_received ?T c = [] \<and> ss_sent ?T c = [])"
  proof (cases "eb_subscribers (ss_broker S) c")
    case None
    then show ?thesis
      using inv assms(2) ids_increase_mono [OF inv(1), of "ev_id ev"]
      by (simp add: stream_send_def send_all_def client_queue_def subscribed_def)
  next
    case (Some q)
    then have q: "client_queue S c = q" "subscribed S c"
      by (simp_all add: client_queue_def subscribed_def)
    have T: "ss_sent ?T c = ss_sent S c @ [ev]" "client_queue ?T c = chan_offer ev q"
      "ss_received ?T c = ss_received S c" "eb_lastEventID (ss_broker ?T) = ev_id ev"
      "ss_lagged ?T c \<longleftrightarrow> ss_lagged S c \<or> \<not> length q < channel_capacity"
      "eb_nextChan (ss_broker ?T) = eb_nextChan (ss_broker S)"
      using Some by (auto simp: stream_send_def send_all_def client_queue_def has_room_def)
    show ?thesis
      using inv q assms(2) chan.offer_subseq [of "ss_received S c" q "ss_sent S c" ev]
        chan.offer_all [of "ss_received S c" q "ss_sent S c" ev] chan.offer_bounded [of q ev]
        ids_increase_snoc [OF inv(1), of ev]
      unfolding T by auto
  qed
qed

lemma stream_inv_subscribe:
  assumes "stream_inv S" and "subscribe (ss_broker S) = (ch, b')"
  shows "stream_inv (S\<lparr>ss_broker := b'\<rparr>)"
proof -
  have b: "ch = eb_nextChan (ss_broker S)"
    "eb_subscribers b' = (eb_subscribers (ss_broker S))(ch \<mapsto> [])"
    "eb_nextChan b' = Suc ch" "eb_lastEventID b' = eb_lastEventID (ss_broker S)"
    using assms(2) by (auto simp: subscribe_def)
  have "ss_received S ch = [] \<and> ss_sent S ch = []"
    using assms(1) b(1) by (simp add: stream_inv_def)
  then show ?thesis
    using assms(1) by (simp add: stream_inv_def client_queue_def subscribed_def b(2-4)) (simp add: b(1))
qed

lemma stream_inv_unsubscribe:
  assumes "stream_inv S"
  shows "stream_inv (S\<lparr>ss_broker := unsubscribe ch (ss_broker S)\<rparr>)"
proof -
  have "subseq (ss_received S c) (ss_sent S c)" for c
    using assms subseq_prefix unfolding stream_inv_def by blast
  then show ?thesis
    using assms by (simp add: stream_inv_def client_queue_def subscribed_def unsubscribe_def)
qed

lemma stream_inv_receive:
  assumes "stream_inv S" and "eb_subscribers (ss_broker S) ch = Some q"
    and "chan_recv q = Some (ev, q')"
  shows "stream_inv (S\<lparr>ss_broker := (ss_broker S)\<lparr>eb_subscribers := (eb_subscribers (ss_broker S))(ch \<mapsto> q')\<rparr>,
                       ss_received := (ss_received S)(ch := ss_received S ch @ [ev])\<rparr>)"
    (is "stream_inv ?T")
proof -
  have q: "client_queue S ch = ev # q'" "subscribed S ch"
    using assms(2,3) by (auto simp: client_queue_def subscribed_def chan_recv_def split: list.splits)
  have same: "client_queue ?T c = client_queue S c" "ss_received ?T c = ss_received S c"
    "subscribed ?T c = subscribed S c" if "c \<noteq> ch" for c
    using that by (simp_all add: client_queue_def subscribed_def)
  have here: "client_queue ?T ch = q'" "ss_received ?T ch = ss_received S ch @ [ev]" "subscribed ?T ch"
    by (simp_all add: client_queue_def subscribed_def)
  have all: "ss_sent ?T = ss_sent S" "ss_lagged ?T = ss_lagged S"
    "eb_nextChan (ss_broker ?T) = eb_nextChan (ss_broker S)"
    "eb_lastEventID (ss_broker ?T) = eb_lastEventID (ss_broker S)"
    by simp_all
  show ?thesis
    unfolding stream_inv_def all
  proof
    fix c
    show "ids_increase (ss_sent S c) (eb_lastEventID (ss_broker S))
        \<and> subseq (ss_received ?T c @ client_queue ?T c) (ss_sent S c)
        \<and> length (client_queue ?T c) \<le> channel_capacity
        \<and> (subscribed ?T c \<and> \<not> ss_lagged S c
             \<longrightarrow> ss_received ?T c @ client_queue ?T c = ss_sent S c)
        \<and> (eb_nextChan (ss_broker S) \<le> c
             \<longrightarrow> \<not> subscribed ?T c \<and> ss_received ?T c = [] \<and> ss_sent S c = [])"
    proof (cases "c = ch")
      case True
      show ?thesis
        using assms(1) [unfolded stream_inv_def, rule_format, of ch] q unfolding True here by auto
    next
      case False
      show ?thesis
        using assms(1) [unfolded stream_inv_def, rule_format, of c] unfolding same [OF False] .
    qed
  qed
qed

lemma subseq_sorted_wrt: "subseq xs ys \<Longrightarrow> sorted_wrt P ys \<Longrightarrow> sorted_wrt P xs"
proof (induction xs ys rule: list_emb.induct)
  case (list_emb_Cons2 x y xs ys)
  then have "set xs \<subseteq> set ys" by (auto elim: list_emb_set)
  with list_emb_Cons2 show ?case by auto
qed auto

lemma stream_inv_init: "stream_inv stream_init"
  by (simp add: stream_inv_def stream_init_def new_event_broker_def client_queue_def subscribed_def
      ids_increase_def)

lemmas stream_inv_ops [go_wf] = stream_inv_subscribe stream_inv_unsubscribe stream_inv_receive

interpretation strm: inductive_invariant "\<lambda>S. S = stream_init" stream_step stream_inv
proof unfold_locales
  show "S = stream_init \<Longrightarrow> stream_inv S" for S by (simp add: stream_inv_init)
  show "stream_inv T" if "stream_inv S" and "stream_step S T" for S T
    using that(2,1)
  proof cases
    case (str_broadcast kind runID data i b')
    then show ?thesis
      using stream_inv_send [OF that(1), of "next_event (ss_broker S) kind runID data"]
      by (auto simp: broadcast_def next_event_def Let_def)
  next
    case (str_terminate i waits b')
    then show ?thesis
      using stream_inv_send [OF that(1), of "termination_event (ss_broker S)"]
      by (auto simp: broadcast_termination_def termination_event_def Let_def split: if_splits)
  qed (auto intro: go_wf)
qed

text \<open>
  C20: In every reachable state of the broker and its clients, whatever the interleaving of
  subscriptions, broadcasts, receptions and disconnections: a client's channel never holds more
  than 128 events; what a client received and still has queued are events sent since it
  subscribed, in the order they were sent and with strictly increasing ids, so nothing is
  duplicated or reordered; and nothing at all is missing for a client that was never 128 events
  behind when an event was sent.
\<close>

theorem event_streams_ordered:
  assumes "reach (\<lambda>S. S = stream_init) stream_step S"
  shows "length (client_queue S c) \<le> channel_capacity
    \<and> subseq (ss_received S c @ client_queue S c) (ss_sent S c)
    \<and> sorted_wrt (<) (map ev_id (ss_received S c @ client_queue S c))
    \<and> (subscribed S c \<and> \<not> ss_lagged S c \<longrightarrow> ss_received S c @ client_queue S c = ss_sent S c)"
proof -
  have inv: "stream_inv S" by (rule strm.inv_reach [OF assms])
  then have s: "subseq (ss_received S c @ client_queue S c) (ss_sent S c)"
    "sorted_wrt (<) (map ev_id (ss_sent S c))"
    by (auto simp: stream_inv_def ids_increase_def)
  have "subseq (map ev_id (ss_received S c @ client_queue S c)) (map ev_id (ss_sent S c))"
    by (rule subseq_map [OF s(1)])
  then have "sorted_wrt (<) (map ev_id (ss_received S c @ client_queue S c))"
    using s(2) by (rule subseq_sorted_wrt)
  with inv s(1) show ?thesis by (simp add: stream_inv_def)
qed

text \<open>Two clients and two events; the second client comes after the first event.\<close>

definition two_clients :: stream_system where
  "two_clients =
     (let b1 = snd (subscribe new_event_broker);
          S1 = stream_init\<lparr>ss_broker := b1\<rparr>;
          e1 = next_event b1 ''log'' ''r'' (LogData ''r'' ''m'');
          S2 = stream_send e1 (send_all e1 b1) S1;
          b2 = snd (subscribe (ss_broker S2));
          S3 = S2\<lparr>ss_broker := b2\<rparr>;
          e2 = termination_event b2
      in stream_send e2 (send_all e2 b2) S3)"

lemma two_clients_reach: "reach (\<lambda>S. S = stream_init) stream_step two_clients"
proof -
  define b1 where "b1 = snd (subscribe new_event_broker)"
  define S1 where "S1 = stream_init\<lparr>ss_broker := b1\<rparr>"
  define e1 where "e1 = next_event b1 ''log'' ''r'' (LogData ''r'' ''m'')"
  define S2 where "S2 = stream_send e1 (send_all e1 b1) S1"
  define b2 where "b2 = snd (subscribe (ss_broker S2))"
  define S3 where "S3 = S2\<lparr>ss_broker := b2\<rparr>"
  define e2 where "e2 = termination_event b2"
  have r1: "reach (\<lambda>S. S = stream_init) stream_step S1"
    unfolding S1_def
  proof (rule reach_step)
    show "reach (\<lambda>S. S = stream_init) stream_step stream_init" by (rule reach_init) simp
    show "stream_step stream_init (stream_init\<lparr>ss_broker := b1\<rparr>)"
      by (rule str_subscribe [where ch = 0]) (simp add: b1_def stream_init_def subscribe_def new_event_broker_def)
  qed
  have r2: "reach (\<lambda>S. S = stream_init) stream_step S2"
    unfolding S2_def e1_def using r1
  proof (rule reach_step)
    have b: "ss_broker S1 = b1" by (simp add: S1_def)
    show "stream_step S1 (stream_send (next_event b1 ''log'' ''r'' (LogData ''r'' ''m''))
        (send_all (next_event b1 ''log'' ''r'' (LogData ''r'' ''m'')) b1) S1)"
      using str_broadcast [of "''log''" "''r''" "LogData ''r'' ''m''" S1] unfolding b
      by (simp add: broadcast_def Let_def)
  qed
  have r3: "reach (\<lambda>S. S = stream_init) stream_step S3"
    unfolding S3_def using r2
    by (rule reach_step)
      (rule str_subscribe [where ch = "fst (subscribe (ss_broker S2))"], simp add: b2_def)
  have b: "ss_broker S3 = b2" by (simp add: S3_def)
  have d: "dom (eb_subscribers b2) \<noteq> {}" "eb_lastEventID b2 = 1"
    by (simp_all add: b2_def subscribe_def S2_def stream_send_def send_all_def e1_def next_event_def
        b1_def new_event_broker_def)
  have "stream_step S3 (stream_send (termination_event b2) (send_all (termination_event b2) b2) S3)"
    using str_terminate [of S3] d unfolding b
    by (simp add: broadcast_termination_def termination_event_def Let_def)
  with r3 have "reach (\<lambda>S. S = stream_init) stream_step (stream_send e2 (send_all e2 b2) S3)"
    unfolding e2_def by (rule reach_step)
  then show ?thesis
    by (simp add: two_clients_def b1_def S1_def e1_def S2_def b2_def S3_def e2_def Let_def)
qed

lemma two_clients_subscribed: "subscribed two_clients 0 \<and> \<not> ss_lagged two_clients 0"
  by (simp add: two_clients_def subscribed_def stream_send_def send_all_def subscribe_def
      new_event_broker_def stream_init_def client_queue_def has_room_def channel_capacity_def chan_offer_def Let_def)

lemma event_streams_ordered_witness:
  "length (client_queue two_clients 0) \<le> channel_capacity
    \<and> subseq (ss_received two_clients 0 @ client_queue two_clients 0) (ss_sent two_clients 0)
    \<and> sorted_wrt (<) (map ev_id (ss_received two_clients 0 @ client_queue two_clients 0))
    \<and> ss_received two_clients 0 @ client_queue two_clients 0 = ss_sent two_clients 0"
  using event_streams_ordered [OF two_clients_reach, of 0] two_clients_subscribed by blast

end
