(* ===== verification/ServerObserver.thy ===== *)
theory ServerObserver
  imports EventBroker DirectorRun
begin

text \<open>
  The execution observer of the web server (\<open>serverObserver\<close> in
  \<open>internal/server/handlers_execution.go\<close>): each callback updates the execution snapshot, broadcasts
  an event and records its id in the snapshot. The theory ends with the agreement of the
  snapshot with the trace of the run.
\<close>

section \<open>The server's state\<close>

record server =
  sv_state :: state_manager
  sv_broker :: event_broker

definition on_snapshot :: "(execution_snapshot \<Rightarrow> execution_snapshot) \<Rightarrow> server \<Rightarrow> server" where
  "on_snapshot f sv =
     sv\<lparr>sv_state := (sv_state sv)\<lparr>sm_snapshot := f (sm_snapshot (sv_state sv))\<rparr>\<rparr>"

text \<open>Broadcasting and dropping the event id, as the handlers do.\<close>

definition announce :: "string \<Rightarrow> string \<Rightarrow> event_data \<Rightarrow> server \<Rightarrow> server" where
  "announce kind runID data sv = sv\<lparr>sv_broker := snd (broadcast kind runID data (sv_broker sv))\<rparr>"

text \<open>Broadcasting and recording the event id in the snapshot, as the observer does.\<close>

definition announce_tracked :: "string \<Rightarrow> string \<Rightarrow> event_data \<Rightarrow> server \<Rightarrow> server" where
  "announce_tracked kind runID data sv =
     (let (i, b) = broadcast kind runID data (sv_broker sv)
      in on_snapshot (\<lambda>sn. sn\<lparr>sn_lastEventID := i\<rparr>) (sv\<lparr>sv_broker := b\<rparr>))"

section \<open>The callbacks\<close>

text \<open>The first entry with a given code is changed, the others are left.\<close>

fun update_first ::
    "string \<Rightarrow> (assertion_snapshot \<Rightarrow> assertion_snapshot) \<Rightarrow> assertion_snapshot list
       \<Rightarrow> assertion_snapshot list" where
  "update_first code f [] = []"
| "update_first code f (s # ss) =
     (if as_code s = code then f s # ss else s # update_first code f ss)"

definition mark_running :: "assertion_snapshot \<Rightarrow> assertion_snapshot" where
  "mark_running s = s\<lparr>as_status := ''running''\<rparr>"

definition mark_result :: "progress_result \<Rightarrow> assertion_snapshot \<Rightarrow> assertion_snapshot" where
  "mark_result r s =
     s\<lparr>as_status := pr_status r, as_passed := pr_passed r, as_score := pr_score r,
       as_minScore := pr_minScore r, as_durationMs := pr_durationMs r, as_output := pr_output r\<rparr>"

definition section_message :: "pb_section \<Rightarrow> nat \<Rightarrow> nat \<Rightarrow> string" where
  "section_message s i n =
     ''Processing Section '' @ nat_str i @ ''/'' @ nat_str n @ '': '' @ s_title s"

definition add_log :: "string \<Rightarrow> execution_snapshot \<Rightarrow> execution_snapshot" where
  "add_log msg sn = sn\<lparr>sn_logs := sn_logs sn @ [msg]\<rparr>"

fun observe :: "string \<Rightarrow> obs_event \<Rightarrow> server \<Rightarrow> server" where
  "observe rid (OnRunStart i p) sv =
     (let sv1 = on_snapshot (\<lambda>sn. sn\<lparr>sn_runID := i\<rparr>) sv
      in announce_tracked ''state_change'' i (StateData (state_response_of (sv_state sv1))) sv1)"
| "observe rid (OnSectionStart s i n) sv =
     (let msg = section_message s i n
      in announce_tracked ''log'' rid (LogData rid msg) (on_snapshot (add_log msg) sv))"
| "observe rid (OnAssertionStart a i n) sv =
     announce_tracked ''assertion_progress'' rid
       (ProgressData rid (a_code a) ''running'' False 0 (get_min_passing_score a) 0 [])
       (on_snapshot (\<lambda>sn. sn\<lparr>sn_activeAssertionCode := a_code a,
          sn_assertions := update_first (a_code a) mark_running (sn_assertions sn)\<rparr>) sv)"
| "observe rid (OnAssertionComplete a r) sv =
     announce_tracked ''assertion_progress'' rid
       (ProgressData rid (a_code a) (pr_status r) (pr_passed r) (pr_score r) (pr_minScore r)
         (pr_durationMs r) (pr_output r))
       (on_snapshot (\<lambda>sn. sn\<lparr>sn_assertions :=
          update_first (a_code a) (mark_result r) (sn_assertions sn)\<rparr>) sv)"
| "observe rid (OnLog msg) sv =
     announce_tracked ''log'' rid (LogData rid msg) (on_snapshot (add_log msg) sv)"
| "observe rid (OnRunComplete t rep) sv =
     (let sv1 = on_snapshot (\<lambda>sn. sn\<lparr>sn_activeAssertionCode := []\<rparr>) sv
      in announce_tracked ''execution_completed'' rid
           (CompletedData rid (sm_status (sv_state sv1)) (sn_durationMs (sm_snapshot (sv_state sv1))))
           sv1)"
| "observe rid (OnRunCancelled i t) sv =
     announce_tracked ''execution_cancelled'' i (CancelledData i)
       (on_snapshot (\<lambda>sn. sn\<lparr>sn_activeAssertionCode := []\<rparr>) sv)"
| "observe rid (OnRunError err) sv =
     (let msg = ''Error: '' @ err
      in announce_tracked ''log'' rid (LogData rid msg) (on_snapshot (add_log msg) sv))"

fun observe_all :: "string \<Rightarrow> obs_event list \<Rightarrow> server \<Rightarrow> server" where
  "observe_all rid [] sv = sv"
| "observe_all rid (e # es) sv = observe_all rid es (observe rid e sv)"

section \<open>The snapshot of the assertions\<close>

text \<open>What an event does to the assertion entries.\<close>

fun assertions_after :: "obs_event \<Rightarrow> assertion_snapshot list \<Rightarrow> assertion_snapshot list" where
  "assertions_after (OnAssertionStart a i n) ss = update_first (a_code a) mark_running ss"
| "assertions_after (OnAssertionComplete a r) ss = update_first (a_code a) (mark_result r) ss"
| "assertions_after e ss = ss"

abbreviation sv_assertions :: "server \<Rightarrow> assertion_snapshot list" where
  "sv_assertions sv \<equiv> sn_assertions (sm_snapshot (sv_state sv))"

lemma sv_assertions_announce [simp]:
  "sv_assertions (announce_tracked kind rid data sv) = sv_assertions sv"
  by (simp add: announce_tracked_def on_snapshot_def split: prod.splits)

lemma sv_assertions_on_snapshot [simp]:
  "sv_assertions (on_snapshot f sv) = sn_assertions (f (sm_snapshot (sv_state sv)))"
  by (simp add: on_snapshot_def)

lemma sv_assertions_observe: "sv_assertions (observe rid e sv) = assertions_after e (sv_assertions sv)"
  by (cases e) (simp_all add: Let_def add_log_def)

lemma sv_assertions_observe_all:
  "sv_assertions (observe_all rid es sv) = fold assertions_after es (sv_assertions sv)"
  by (induction es arbitrary: sv) (simp_all add: sv_assertions_observe)

text \<open>
  For entries with distinct codes, an event is a change of every entry by its own code: an
  entry ends up with the last result for its code.
\<close>

fun entry_after :: "obs_event \<Rightarrow> assertion_snapshot \<Rightarrow> assertion_snapshot" where
  "entry_after (OnAssertionStart a i n) s = (if as_code s = a_code a then mark_running s else s)"
| "entry_after (OnAssertionComplete a r) s = (if as_code s = a_code a then mark_result r s else s)"
| "entry_after e s = s"

lemma entry_after_code [simp]: "as_code (entry_after e s) = as_code s" "as_title (entry_after e s) = as_title s"
  by (cases e; simp add: mark_running_def mark_result_def)+

lemma update_first_map:
  assumes "distinct (map as_code ss)"
  shows "update_first code f ss = map (\<lambda>s. if as_code s = code then f s else s) ss"
  using assms
proof (induction ss)
  case (Cons s ss)
  have "map (\<lambda>s. if as_code s = code then f s else s) ss = ss" if "as_code s = code"
  proof (rule map_idI)
    fix x assume "x \<in> set ss"
    then have "as_code x \<in> as_code ` set ss" by simp
    then have "as_code x \<noteq> code" using Cons.prems that by auto
    then show "(if as_code x = code then f x else x) = x" by simp
  qed
  with Cons show ?case by auto
qed simp

lemma assertions_after_map:
  "distinct (map as_code ss) \<Longrightarrow> assertions_after e ss = map (entry_after e) ss"
  by (cases e) (simp_all add: update_first_map map_idI)

lemma fold_assertions_after:
  "distinct (map as_code ss) \<Longrightarrow> fold assertions_after es ss = map (fold entry_after es) ss"
proof (induction es arbitrary: ss)
  case (Cons e es)
  have "distinct (map as_code (map (entry_after e) ss))" using Cons.prems by (simp add: comp_def)
  with Cons show ?case by (simp add: assertions_after_map comp_def)
qed simp

text \<open>An entry whose assertion is not touched, and one whose assertion is completed.\<close>

lemma entry_fold_code [simp]:
  "as_code (fold entry_after es s) = as_code s" "as_title (fold entry_after es s) = as_title s"
  by (induction es arbitrary: s) simp_all

text \<open>The result for a code, by the completions of a well_bracketed stretch of events.\<close>

definition settled :: "progress_result \<Rightarrow> assertion_snapshot \<Rightarrow> bool" where
  "settled r s \<longleftrightarrow>
     as_status s = pr_status r \<and> as_passed s = pr_passed r \<and> as_score s = pr_score r
     \<and> as_minScore s = pr_minScore r \<and> as_durationMs s = pr_durationMs r \<and> as_output s = pr_output r"

definition open_code :: "assertion option \<Rightarrow> string \<Rightarrow> bool" where
  "open_code cur c \<longleftrightarrow> (case cur of None \<Rightarrow> False | Some a \<Rightarrow> a_code a = c)"

lemma bracketed_completes:
  "well_bracketed (Some a) es \<Longrightarrow> a_code a \<in> a_code ` fst ` set (completions es)"
  by (induction "Some a" es rule: well_bracketed.induct) auto

lemma entry_untouched:
  assumes "well_bracketed cur es" and "as_code s \<notin> a_code ` fst ` set (completions es)"
  shows "fold entry_after es s = s"
  using assms
proof (induction cur es arbitrary: s rule: well_bracketed.induct)
  case (2 cur a i n es)
  then have b: "well_bracketed (Some a) es" by simp
  then have "a_code a \<in> a_code ` fst ` set (completions es)" by (rule bracketed_completes)
  moreover have "as_code s \<notin> a_code ` fst ` set (completions es)" using "2.prems"(2) by simp
  ultimately have "as_code s \<noteq> a_code a" by metis
  with "2.IH" [OF b] "2.prems"(2) show ?case by simp
next
  case (3 cur a r es)
  then have "as_code s \<noteq> a_code a" by auto
  with 3 show ?case by simp
qed auto

text \<open>An entry whose assertion is completed once has the result of its completion.\<close>

lemma entry_settled:
  assumes "well_bracketed cur es" and "distinct (map (a_code \<circ> fst) (completions es))"
    and "(a, r) \<in> set (completions es)" and "as_code s = a_code a"
  shows "settled r (fold entry_after es s)"
  using assms
proof (induction cur es arbitrary: s rule: well_bracketed.induct)
  case (2 cur b i n es)
  then show ?case by (simp add: mark_running_def)
next
  case (3 cur b q es)
  show ?case
  proof (cases "(a, r) \<in> set (completions es)")
    case True
    then have "a_code a \<noteq> a_code b" using "3.prems"(2) by force
    with 3 True show ?thesis by simp
  next
    case False
    then have e: "a = b" "r = q" using "3.prems"(3) by auto
    have "a_code b \<notin> a_code ` fst ` set (completions es)"
      using "3.prems"(2) by (auto simp: image_comp)
    then have "fold entry_after es (mark_result q s) = mark_result q s"
      using "3.prems"(1,4) e by (intro entry_untouched [where cur = None]) (auto simp: mark_result_def)
    then show ?thesis using "3.prems"(4) e by (simp add: settled_def mark_result_def)
  qed
qed auto

section \<open>The snapshot after a run\<close>

text \<open>An assertion's entry in the snapshot shows what its record in the trace says.\<close>

definition shows_record :: "assertion_context \<Rightarrow> assertion_snapshot \<Rightarrow> bool" where
  "shows_record ac s \<longleftrightarrow>
     as_code s = a_code (ac_assertion ac)
     \<and> as_status s = assertion_status_string (ac_status ac) \<and> as_passed s = ac_passed ac
     \<and> as_output s = str_join (ac_outputs ac) nl
     \<and> as_minScore s = get_min_passing_score (ac_assertion ac)
     \<and> (if is_cancelled ac then True
        else as_score s = ac_score ac
             \<and> as_durationMs s = millis_between (ac_start ac) (ac_end ac))"

lemma settled_shows:
  assumes "agrees ac (a, r)" and "settled r s" and "as_code s = a_code a"
  shows "shows_record ac s"
  using assms by (auto simp: agrees_def settled_def shows_record_def is_cancelled_def)

lemma completions_end: "closing F rid t cl \<Longrightarrow> completions [cl] = [] \<and> entry_after cl s = s"
  by (cases cl) (simp_all add: closing_def)

lemma snapshot_of_run:
  assumes r: "run_with_observer D p rid w = (t, evs, w')"
    and d: "distinct (map a_code (all_assertions p))"
    and c: "map as_code ss = map a_code (all_assertions p)"
  shows "list_all2 shows_record (trace_assertions t) (map (fold entry_after evs) ss)"
proof -
  obtain es cl where f: "evs = OnRunStart rid p # es @ [cl]"
    "covered D (p_sections p) (t_sections t) es" "closing (de_formats D) rid t cl"
    by (rule run_facts [OF r])
  then have m: "map ac_assertion (trace_assertions t) = all_assertions p"
    and ag: "list_all2 agrees (trace_assertions t) (completions es)" and b: "well_bracketed None es"
    by (auto simp: covered_def stretch_def trace_assertions_def all_assertions_def)
  have "map fst (completions es) = map ac_assertion (trace_assertions t)"
    using ag by (induction rule: list_all2_induct) (auto simp: agrees_def)
  then have fst_c: "map fst (completions es) = all_assertions p" using m by simp
  then have dc: "distinct (map (a_code \<circ> fst) (completions es))"
    using d by (metis map_map)
  have len: "length (trace_assertions t) = length ss"
    using m c by (metis length_map)
  have ev: "fold entry_after evs s = fold entry_after es s" for s
    using completions_end [OF f(3)] by (simp add: f(1))
  show ?thesis
  proof (rule list_all2_all_nthI)
    show "length (trace_assertions t) = length (map (fold entry_after evs) ss)" using len by simp
    fix i assume i: "i < length (trace_assertions t)"
    obtain a q where ar: "completions es ! i = (a, q)" by (cases "completions es ! i")
    have i': "i < length (completions es)" using ag i by (simp add: list_all2_lengthD)
    have "a = all_assertions p ! i" using fst_c ar i' by (metis fst_conv nth_map)
    moreover have "as_code (ss ! i) = a_code (all_assertions p ! i)"
      using c i len fst_c i' by (metis length_map nth_map)
    ultimately have code: "as_code (ss ! i) = a_code a" by simp
    have "(a, q) \<in> set (completions es)" using ar i' by (metis nth_mem)
    from entry_settled [OF b dc this code]
    have "settled q (fold entry_after es (ss ! i))" .
    moreover have "agrees (trace_assertions t ! i) (a, q)"
      using list_all2_nthD [OF ag i] ar by simp
    ultimately show "shows_record (trace_assertions t ! i) (map (fold entry_after evs) ss ! i)"
      using code i len by (simp add: ev settled_shows)
  qed
qed

text \<open>
  C19: After the director's run of a validated playbook, the execution snapshot of the server,
  whatever its entries showed before, shows for every assertion, in playbook order, the status, the
  verdict and the output of its record in the trace, and its score and duration unless it was
  cancelled: a client that missed every event still sees the outcome of the run.
\<close>

theorem snapshot_agrees_with_trace:
  assumes "valid_playbook isAgent p"
    and "map as_code (sv_assertions sv) = map a_code (all_assertions p)"
    and "run_with_observer D p rid w = (t, evs, w')"
  shows "list_all2 shows_record (trace_assertions t) (sv_assertions (observe_all rid evs sv))"
proof -
  have d: "distinct (map a_code (all_assertions p))"
    using assms(1) by (simp add: valid_playbook_def)
  then have "distinct (map as_code (sv_assertions sv))" using assms(2) by simp
  then show ?thesis
    using snapshot_of_run [OF assms(3) d assms(2)]
    by (simp add: sv_assertions_observe_all fold_assertions_after)
qed

lemma sample_playbook_valid: "valid_playbook True sample_playbook"
proof -
  have t: "trim_space ''sample'' = ''sample''" "trim_space ''one'' = ''one''" "trim_space ''A1'' = ''A1''"
    by (code_simp, code_simp, code_simp)
  show ?thesis
    by (simp add: valid_playbook_def sample_playbook_def all_assertions_def title_ok_def
        destination_ok_def playbook_enums plain_assertion_def agent_assertion_ok_def t
        agent_cmd_ok_def agent_exec_ok_def plain_cmd_def plain_exec_def no_rule_def)
qed

definition sample_server :: server where
  "sample_server =
     \<lparr>sv_state = set_playbook None sample_playbook [] [] (new_state_manager None [] True),
      sv_broker = new_event_broker\<rparr>"

definition sample_events :: "execution_trace \<times> obs_event list \<times> int" where
  "sample_events = run_with_observer stopped_director sample_playbook ''r1'' 0"

lemma snapshot_agrees_with_trace_witness:
  "list_all2 shows_record (trace_assertions (fst sample_events))
     (sv_assertions (observe_all ''r1'' (fst (snd sample_events)) sample_server))"
proof (rule snapshot_agrees_with_trace [OF sample_playbook_valid])
  show "map as_code (sv_assertions sample_server) = map a_code (all_assertions sample_playbook)"
    by (simp add: sample_server_def set_playbook_def pending_snapshot_def comp_def Let_def)
  show "run_with_observer stopped_director sample_playbook ''r1'' 0
      = (fst sample_events, fst (snd sample_events), snd (snd sample_events))"
    by (simp add: sample_events_def)
qed

end
