(* ===== verification/Destination.thy ===== *)
theory Destination
  imports ServerState
begin

text \<open>
  Validation of report destinations (\<open>internal/server/report_destination.go\<close>): the header
  name and value checks, the HTTPS configuration and the update request, and what the stored
  destination is worth after any sequence of accepted updates. The URL parser, the file system
  and the quoting verb of the error texts are parameters.
\<close>

section \<open>Header fields\<close>

definition is_token_char :: "char \<Rightarrow> bool" where
  "is_token_char b \<longleftrightarrow>
     (let n = (of_char b :: nat) in
      (97 \<le> n \<and> n \<le> 122) \<or> (65 \<le> n \<and> n \<le> 90) \<or> (48 \<le> n \<and> n \<le> 57)
      \<or> b \<in> set (''!#$%&'' @ [CHR 0x27] @ ''*+-.^_'' @ [CHR 0x60] @ ''|~''))"

fun is_valid_header_field_name :: "string \<Rightarrow> bool" where
  "is_valid_header_field_name [] = False"
| "is_valid_header_field_name [b] = is_token_char b"
| "is_valid_header_field_name (b # bs) = (is_token_char b \<and> is_valid_header_field_name bs)"

definition control_rune :: "nat \<Rightarrow> bool" where
  "control_rune r \<longleftrightarrow> (r < 0x20 \<and> r \<noteq> 9) \<or> r = 0x7f"

function is_valid_header_field_value :: "string \<Rightarrow> bool" where
  "is_valid_header_field_value [] = True"
| "is_valid_header_field_value (c # s) =
     (let (r, n) = decode_rune (c # s) in
      if r = rune_error \<and> n = 1 then False
      else if control_rune r then False
      else is_valid_header_field_value (drop (n - 1) s))"
  by pat_completeness auto
termination
  by (relation "measure length") auto

declare is_valid_header_field_value.simps(2) [simp del]

lemma header_name_iff:
  "is_valid_header_field_name s \<longleftrightarrow> s \<noteq> [] \<and> list_all is_token_char s"
  by (induction s rule: is_valid_header_field_name.induct) auto

text \<open>A string no byte of which is a control character other than the tab.\<close>

definition no_controls :: "string \<Rightarrow> bool" where
  "no_controls s \<longleftrightarrow> list_all (\<lambda>c. \<not> control_rune (of_char c)) s"

lemma control_rune_small: "control_rune r \<Longrightarrow> r < 0x80"
  by (auto simp: control_rune_def)

lemma header_value_no_controls: "is_valid_header_field_value s \<Longrightarrow> no_controls s"
proof (induction s rule: is_valid_header_field_value.induct)
  case (2 c s)
  obtain r n where d: "decode_rune (c # s) = (r, n)" by (cases "decode_rune (c # s)")
  from "2.prems" have ok: "\<not> (r = rune_error \<and> n = 1)" "\<not> control_rune r"
    and tail: "is_valid_header_field_value (drop (n - 1) s)"
    by (auto simp: is_valid_header_field_value.simps(2) d split: if_splits)
  have rest: "no_controls (drop (n - 1) s)"
    using "2.IH" [OF d [symmetric] refl ok tail] .
  have n: "1 \<le> n" using decode_rune_size [of "c # s"] by (simp add: d)
  have head: "\<not> control_rune (of_char x)" if "x \<in> set (take n (c # s))" for x
  proof (cases "of_char c < (0x80 :: nat)")
    case True
    then have "r = of_char c" "n = 1" using d decode_rune_ascii [OF True, of s] by auto
    then show ?thesis using that ok(2) by simp
  next
    case False
    then show ?thesis using decode_rune_high [of c x s] that by (auto simp: d dest!: control_rune_small)
  qed
  have "c # s = take n (c # s) @ drop (n - 1) s" using n by (cases n) auto
  then show ?case using head rest unfolding no_controls_def by (metis list_all_append list_all_iff)
qed (simp add: no_controls_def)

lemma header_value_ascii:
  "list_all (\<lambda>c. of_char c < (0x80 :: nat)) s \<Longrightarrow> no_controls s \<Longrightarrow> is_valid_header_field_value s"
proof (induction s)
  case (Cons c s)
  then have a: "of_char c < (0x80 :: nat)" by simp
  then have "rune_error \<noteq> of_char c" by (auto simp: rune_error_def)
  then show ?case
    using Cons by (simp add: is_valid_header_field_value.simps(2) decode_rune_ascii [OF a] no_controls_def)
qed simp

section \<open>Configurations and updates\<close>

datatype stat_result = StatNotExist | StatError goerr | StatOk bool

text \<open>\<open>de_parse\<close> is \<open>url.ParseRequestURI\<close>: an error, or the scheme and the host.\<close>

record dest_checks =
  dc_parse :: "string \<Rightarrow> goerr + string \<times> string"
  dc_stat :: "string \<Rightarrow> stat_result"
  dc_quote :: "string \<Rightarrow> string"
  dc_cwd :: "string option"

fun validate_headers :: "dest_checks \<Rightarrow> strmap \<Rightarrow> goerr option" where
  "validate_headers E [] = None"
| "validate_headers E ((k, v) # kvs) =
     (if \<not> is_valid_header_field_name k then Some (''invalid HTTP header name: '' @ dc_quote E k)
      else if \<not> is_valid_header_field_value v
      then Some (''invalid HTTP header value for header '' @ dc_quote E k)
      else validate_headers E kvs)"

definition validate_https_config :: "dest_checks \<Rightarrow> https_config option \<Rightarrow> goerr option" where
  "validate_https_config E co =
     (case co of
        None \<Rightarrow> Some ''https configuration is required''
      | Some c \<Rightarrow>
          (let trimmed = trim_space (hc_url c) in
           if trimmed = [] then Some ''https destination URL is required''
           else (case dc_parse E trimmed of
                   Inl err \<Rightarrow> Some (''invalid https destination URL: '' @ err)
                 | Inr (scheme, host) \<Rightarrow>
                     if scheme \<noteq> ''https'' then Some ''HTTPS destination URL must start with https://''
                     else if host = [] then Some ''https destination URL must contain a valid host''
                     else if hc_format c \<noteq> [] \<and> hc_format c \<noteq> ''json''
                             \<and> hc_format c \<noteq> ''multipart''
                     then Some (''https format must be '' @ [CHR 0x27] @ ''json'' @ [CHR 0x27]
                                @ '' or '' @ [CHR 0x27] @ ''multipart'' @ [CHR 0x27])
                     else validate_headers E (hc_headers c))))"

definition validate_folder_source :: "dest_checks \<Rightarrow> dest_update \<Rightarrow> goerr option" where
  "validate_folder_source E req =
     (case du_folderSource req of
        None \<Rightarrow> None
      | Some fs \<Rightarrow>
          if fs \<notin> {FolderSourceDefault, FolderSourceCLI, FolderSourcePlaybook, FolderSourceCustom,
                    FolderSourceOff}
          then Some (''invalid folder_source: '' @ dc_quote E fs
                     @ '' (must be default, cli, playbook, custom, or off)'')
          else if fs = FolderSourceCustom
                  \<and> (case du_folder req of None \<Rightarrow> True | Some fd \<Rightarrow> trim_space fd = [])
          then Some ''custom folder path cannot be empty''
          else None)"

definition validate_folder :: "dest_checks \<Rightarrow> dest_update \<Rightarrow> goerr option" where
  "validate_folder E req =
     (case du_folder req of
        None \<Rightarrow> None
      | Some fd \<Rightarrow>
          if trim_space fd \<noteq> []
             \<and> (case du_folderSource req of None \<Rightarrow> True | Some fs \<Rightarrow> fs = FolderSourceCustom)
          then (let resolved = resolve_folder_path (dc_cwd E) fd in
                case dc_stat E resolved of
                  StatNotExist \<Rightarrow> Some (''custom folder path does not exist: '' @ resolved)
                | StatError err \<Rightarrow> Some (''cannot access custom folder path: '' @ err)
                | StatOk isDir \<Rightarrow>
                    if isDir then None
                    else Some (''custom folder path is not a directory: '' @ resolved))
          else None)"

definition validate_https_source :: "dest_checks \<Rightarrow> dest_update \<Rightarrow> goerr option" where
  "validate_https_source E req =
     (case du_httpsSource req of
        Some hs \<Rightarrow>
          if hs \<notin> {HttpsSourcePlaybook, HttpsSourceCustom, HttpsSourceOff}
          then Some (''invalid https_source: '' @ dc_quote E hs
                     @ '' (must be playbook, custom, or off)'')
          else if hs = HttpsSourceCustom then
            (case du_https req of
               None \<Rightarrow> Some (''https configuration is required when https_source is ''
                             @ [CHR 0x27] @ ''custom'' @ [CHR 0x27])
             | Some h \<Rightarrow> validate_https_config E (Some h))
          else None
      | None \<Rightarrow>
          (case du_https req of None \<Rightarrow> None | Some h \<Rightarrow> validate_https_config E (Some h)))"

definition or_else :: "goerr option \<Rightarrow> goerr option \<Rightarrow> goerr option" where
  "or_else a b = (case a of Some e \<Rightarrow> Some e | None \<Rightarrow> b)"

definition validate_update :: "dest_checks \<Rightarrow> dest_update \<Rightarrow> goerr option" where
  "validate_update E req =
     or_else (validate_folder_source E req)
       (or_else (validate_folder E req) (validate_https_source E req))"

section \<open>What is accepted\<close>

definition header_ok :: "string \<times> string \<Rightarrow> bool" where
  "header_ok kv \<longleftrightarrow> fst kv \<noteq> [] \<and> list_all is_token_char (fst kv)
     \<and> is_valid_header_field_value (snd kv)"

definition config_ok :: "dest_checks \<Rightarrow> https_config \<Rightarrow> bool" where
  "config_ok E c \<longleftrightarrow>
     trim_space (hc_url c) \<noteq> []
     \<and> (case dc_parse E (trim_space (hc_url c)) of
          Inl err \<Rightarrow> False | Inr (scheme, host) \<Rightarrow> scheme = ''https'' \<and> host \<noteq> [])
     \<and> hc_format c \<in> {[], ''json'', ''multipart''}
     \<and> list_all header_ok (hc_headers c)"

definition update_ok :: "dest_checks \<Rightarrow> dest_update \<Rightarrow> bool" where
  "update_ok E req \<longleftrightarrow>
     (case du_folderSource req of
        None \<Rightarrow> (case du_folder req of
                   None \<Rightarrow> True
                 | Some fd \<Rightarrow> trim_space fd = []
                     \<or> dc_stat E (resolve_folder_path (dc_cwd E) fd) = StatOk True)
      | Some fs \<Rightarrow>
          fs \<in> {FolderSourceDefault, FolderSourceCLI, FolderSourcePlaybook, FolderSourceOff}
          \<or> (fs = FolderSourceCustom
             \<and> (case du_folder req of
                  None \<Rightarrow> False
                | Some fd \<Rightarrow> trim_space fd \<noteq> []
                    \<and> dc_stat E (resolve_folder_path (dc_cwd E) fd) = StatOk True)))
     \<and> (case du_httpsSource req of
          None \<Rightarrow> (case du_https req of None \<Rightarrow> True | Some h \<Rightarrow> config_ok E h)
        | Some hs \<Rightarrow> hs \<in> {HttpsSourcePlaybook, HttpsSourceOff}
            \<or> (hs = HttpsSourceCustom
               \<and> (case du_https req of None \<Rightarrow> False | Some h \<Rightarrow> config_ok E h)))"

lemma or_else_None [simp]: "or_else a b = None \<longleftrightarrow> a = None \<and> b = None"
  by (simp add: or_else_def split: option.splits)

lemma validate_headers_None: "validate_headers E kvs = None \<longleftrightarrow> list_all header_ok kvs"
  by (induction kvs) (auto simp: header_ok_def header_name_iff split: if_splits)

lemma validate_config_None: "validate_https_config E (Some c) = None \<longleftrightarrow> config_ok E c"
  by (auto simp: validate_https_config_def config_ok_def Let_def validate_headers_None
      split: sum.splits prod.splits)

text \<open>
  C24: A destination update is accepted exactly when it meets the declarative specification: a
  known folder source, an existing directory for a custom folder, a known HTTPS source, and a
  custom HTTPS configuration with an https address and a host, a known format and only
  well-formed header fields, whatever the order in which the header map is walked.
\<close>

theorem validate_update_iff: "validate_update E req = None \<longleftrightarrow> update_ok E req"
proof -
  have "validate_https_source E req = None \<longleftrightarrow>
      (case du_httpsSource req of
         None \<Rightarrow> (case du_https req of None \<Rightarrow> True | Some h \<Rightarrow> config_ok E h)
       | Some hs \<Rightarrow> hs \<in> {HttpsSourcePlaybook, HttpsSourceOff}
           \<or> (hs = HttpsSourceCustom
              \<and> (case du_https req of None \<Rightarrow> False | Some h \<Rightarrow> config_ok E h)))"
    by (auto simp: validate_https_source_def validate_config_None split: option.splits if_splits)
  moreover have "validate_folder_source E req = None \<and> validate_folder E req = None \<longleftrightarrow>
      (case du_folderSource req of
        None \<Rightarrow> (case du_folder req of
                   None \<Rightarrow> True
                 | Some fd \<Rightarrow> trim_space fd = []
                     \<or> dc_stat E (resolve_folder_path (dc_cwd E) fd) = StatOk True)
      | Some fs \<Rightarrow>
          fs \<in> {FolderSourceDefault, FolderSourceCLI, FolderSourcePlaybook, FolderSourceOff}
          \<or> (fs = FolderSourceCustom
             \<and> (case du_folder req of
                  None \<Rightarrow> False
                | Some fd \<Rightarrow> trim_space fd \<noteq> []
                    \<and> dc_stat E (resolve_folder_path (dc_cwd E) fd) = StatOk True)))"
    by (cases "du_folderSource req"; cases "du_folder req")
      (auto simp: validate_folder_source_def validate_folder_def Let_def
        split: stat_result.splits if_splits)
  ultimately show ?thesis by (auto simp: validate_update_def update_ok_def)
qed

section \<open>What is stored\<close>

text \<open>The manager's operations as the API makes them: an update is validated first.\<close>

inductive api_step :: "dest_checks \<Rightarrow> state_manager \<Rightarrow> state_manager \<Rightarrow> bool" for E where
  api_set_playbook: "api_step E sm (set_playbook (dc_cwd E) pb raw errs sm)"
| api_set_load_error: "api_step E sm (set_load_error code msg detail sm)"
| api_unload: "api_step E sm (snd (unload_playbook (dc_cwd E) sm))"
| api_update: "validate_update E req = None
    \<Longrightarrow> api_step E sm (snd (update_destination (dc_cwd E) req sm))"
| api_set_status: "api_step E sm (set_status st sm)"

definition custom_ok :: "dest_checks \<Rightarrow> state_manager \<Rightarrow> bool" where
  "custom_ok E sm \<longleftrightarrow>
     (if ds_httpsSource (sm_reportDestination sm) = HttpsSourceCustom
      then (case ds_https (sm_reportDestination sm) of None \<Rightarrow> False | Some h \<Rightarrow> config_ok E h)
      else True)"

lemma custom_ok_update:
  assumes "custom_ok E sm" and "validate_update E req = None"
  shows "custom_ok E (snd (update_destination cwd req sm))"
proof -
  have "validate_https_source E req = None" using assms(2) by (simp add: validate_update_def)
  then have v: "(case du_httpsSource req of
      None \<Rightarrow> (case du_https req of None \<Rightarrow> True | Some h \<Rightarrow> config_ok E h)
    | Some hs \<Rightarrow> if hs = HttpsSourceCustom
        then (case du_https req of None \<Rightarrow> False | Some h \<Rightarrow> config_ok E h) else True)"
    by (auto simp: validate_https_source_def validate_config_None split: option.splits if_splits)
  show ?thesis
    using assms(1) v
    by (auto simp: update_destination_def custom_ok_def Let_def split: option.splits if_splits)
qed

lemma custom_ok_others:
  "custom_ok E (set_playbook cwd pb raw errs sm)"
  "custom_ok E sm \<Longrightarrow> custom_ok E (set_load_error code msg detail sm)"
  "custom_ok E sm \<Longrightarrow> custom_ok E (snd (unload_playbook cwd sm))"
  "custom_ok E sm \<Longrightarrow> custom_ok E (set_status st sm)"
  "custom_ok E (new_state_manager cwd cli ui)"
  by (auto simp: custom_ok_def set_playbook_def ui_destination_def cli_destination_def
      set_load_error_def unload_playbook_def initial_destination_def set_status_def
      new_state_manager_def Let_def)

lemmas custom_ok_ops [go_wf] = custom_ok_update custom_ok_others

interpretation cust: inductive_invariant
  "\<lambda>sm. \<exists>cli ui. sm = new_state_manager (dc_cwd E) cli ui" "api_step E" "custom_ok E" for E
proof unfold_locales
  show "\<exists>cli ui. sm = new_state_manager (dc_cwd E) cli ui \<Longrightarrow> custom_ok E sm" for sm
    by (auto intro: go_wf)
  show "custom_ok E t" if "custom_ok E s" and "api_step E s t" for s t
    using that(2,1) by cases (auto intro: go_wf)
qed

definition clean_header :: "string \<times> string \<Rightarrow> bool" where
  "clean_header kv \<longleftrightarrow> fst kv \<noteq> [] \<and> no_controls (fst kv) \<and> no_controls (snd kv)"

lemma token_no_control: "is_token_char c \<Longrightarrow> \<not> control_rune (of_char c)"
  by (auto simp: is_token_char_def control_rune_def Let_def)

lemma header_ok_clean: "header_ok kv \<Longrightarrow> clean_header kv"
  by (auto simp: header_ok_def clean_header_def header_value_no_controls)
    (auto simp: no_controls_def list_all_iff token_no_control)

text \<open>
  C23: Whatever sequence of accepted requests led to it, an active custom HTTPS destination has a
  configuration with an https address and only header fields free of control characters, so no
  line break can be smuggled into a submission; configurations stored without validation next to
  another source never become active.
\<close>

theorem active_custom_destination_ok:
  assumes "reach (\<lambda>sm. \<exists>cli ui. sm = new_state_manager (dc_cwd E) cli ui) (api_step E) sm"
    and "ds_httpsSource (sm_reportDestination sm) = HttpsSourceCustom"
  shows "\<exists>h. ds_https (sm_reportDestination sm) = Some h \<and> config_ok E h
    \<and> list_all clean_header (hc_headers h)"
proof -
  have "custom_ok E sm" by (rule cust.inv_reach [OF assms(1)])
  then obtain h where "ds_https (sm_reportDestination sm) = Some h" "config_ok E h"
    using assms(2) by (auto simp: custom_ok_def split: option.splits)
  then show ?thesis by (auto simp: config_ok_def list_all_iff header_ok_clean)
qed

definition sample_checks :: dest_checks where
  "sample_checks =
     \<lparr>dc_parse = (\<lambda>u. if u = ''https://x.y/z'' then Inr (''https'', ''x.y'') else Inl ''no''),
      dc_stat = (\<lambda>p. StatNotExist), dc_quote = (\<lambda>s. s), dc_cwd = Some ''/home''\<rparr>"

definition sample_config :: https_config where
  "sample_config = \<lparr>hc_url = ''https://x.y/z'', hc_format = ''json'', hc_secret = ''s'',
                    hc_headers = [(''X-Key'', ''a b'')]\<rparr>"

definition sample_update :: dest_update where
  "sample_update = \<lparr>du_folder = None, du_folderSource = Some FolderSourceOff,
                    du_httpsSource = Some HttpsSourceCustom, du_https = Some sample_config\<rparr>"

definition sample_manager :: state_manager where
  "sample_manager = snd (update_destination (Some ''/home'') sample_update
                          (new_state_manager (Some ''/home'') [] True))"

lemma sample_accepted: "validate_update sample_checks sample_update = None"
proof -
  have t: "trim_space ''https://x.y/z'' = ''https://x.y/z''" by code_simp
  have "is_valid_header_field_value ''a b''"
    by (rule header_value_ascii) (simp_all add: no_controls_def control_rune_def)
  moreover have "is_valid_header_field_name ''X-Key''"
    by (simp add: is_token_char_def)
  ultimately show ?thesis
    by (simp add: validate_update_def validate_folder_source_def validate_folder_def
        validate_https_source_def validate_https_config_def sample_update_def sample_config_def
        sample_checks_def t)
qed

lemma active_custom_destination_ok_witness:
  "\<exists>h. ds_https (sm_reportDestination sample_manager) = Some h \<and> config_ok sample_checks h
    \<and> list_all clean_header (hc_headers h)"
proof (rule active_custom_destination_ok)
  let ?ini = "\<lambda>sm. \<exists>cli ui. sm = new_state_manager (dc_cwd sample_checks) cli ui"
  have "reach ?ini (api_step sample_checks) (new_state_manager (dc_cwd sample_checks) [] True)"
    by (rule reach_init) blast
  then have "reach ?ini (api_step sample_checks)
      (snd (update_destination (dc_cwd sample_checks) sample_update
             (new_state_manager (dc_cwd sample_checks) [] True)))"
    by (rule reach_step) (rule api_update [OF sample_accepted])
  then show "reach ?ini (api_step sample_checks) sample_manager"
    by (simp add: sample_manager_def sample_checks_def)
  show "ds_httpsSource (sm_reportDestination sample_manager) = HttpsSourceCustom"
    by (simp add: sample_manager_def update_destination_def sample_update_def busy_status_def
        new_state_manager_def folder_locked_def Let_def)
qed

end
