(* ===== verification/ServerHandlers.thy ===== *)
theory ServerHandlers
  imports ServerObserver Destination
begin

text \<open>
  The request handlers of the web server (\<open>internal/server/handlers_*.go\<close> and \<open>archive.go\<close>).
  A handler takes the request's method, what the libraries made of its body (the form, the
  decoded JSON, the fetched document) and the server, and gives the response and the server.
  The handlers that do slow work between two critical sections are given in these parts:
  loading a playbook (the check, then the load), a run (its start, the elevation, its end), a
  remote submission (its start and its end). What a background run does in between is
  \<open>observe\<close>.
\<close>

section \<open>Responses\<close>

datatype resp_body =
    PlainText string
  | ErrorBody app_error
  | StateBody state_response
  | InspectionBody playbook_inspection
  | SnapshotBody execution_snapshot
  | ReportBody final_report
  | RunBody string state_response
  | StatusBody string
  | DataBody string

record http_response =
  rp_status :: nat
  rp_headers :: strmap
  rp_body :: resp_body

abbreviation json_type :: strmap where
  "json_type \<equiv> [(''Content-Type'', ''application/json'')]"

definition json_response :: "nat \<Rightarrow> resp_body \<Rightarrow> http_response" where
  "json_response status body = \<lparr>rp_status = status, rp_headers = json_type, rp_body = body\<rparr>"

definition error_response :: "nat \<Rightarrow> string \<Rightarrow> string \<Rightarrow> http_response" where
  "error_response status code msg =
     json_response status (ErrorBody \<lparr>err_code = code, err_message = msg, err_detail = NoDetail\<rparr>)"

text \<open>\<open>http.Error\<close>, which appends a newline and sets its own headers.\<close>

definition http_error :: "string \<Rightarrow> nat \<Rightarrow> http_response" where
  "http_error msg status =
     \<lparr>rp_status = status,
      rp_headers = [(''Content-Type'', ''text/plain; charset=utf-8''),
                    (''X-Content-Type-Options'', ''nosniff'')],
      rp_body = PlainText (msg @ nl)\<rparr>"

definition method_not_allowed :: http_response where
  "method_not_allowed = http_error ''Method Not Allowed'' 405"

section \<open>State and playbook\<close>

definition handle_state :: "string \<Rightarrow> server \<Rightarrow> http_response" where
  "handle_state m sv =
     (if m \<noteq> ''GET'' then method_not_allowed
      else json_response 200 (StateBody (state_response_of (sv_state sv))))"

text \<open>The first part of both loading handlers: a refusal, or nothing.\<close>

definition load_refusal :: "string \<Rightarrow> string \<Rightarrow> server \<Rightarrow> http_response option" where
  "load_refusal what m sv =
     (if m \<noteq> ''POST'' then Some method_not_allowed
      else if \<not> can_mutate (sv_state sv)
      then Some (error_response 409 ErrCodeConflict
                   (''Cannot '' @ what @ '' playbook during active execution or submission''))
      else None)"

definition announce_state :: "string \<Rightarrow> server \<Rightarrow> server" where
  "announce_state runID sv =
     announce ''state_change'' runID (StateData (state_response_of (sv_state sv))) sv"

definition load_failed :: "string \<Rightarrow> string \<Rightarrow> server \<Rightarrow> http_response \<times> server" where
  "load_failed code msg sv =
     (let sm = set_load_error code msg NoDetail (sv_state sv)
      in (json_response 400 (StateBody (state_response_of sm)),
          announce_state [] (sv\<lparr>sv_state := sm\<rparr>)))"

definition load_playbook :: "string option \<Rightarrow> playbook \<Rightarrow> string \<Rightarrow> server \<Rightarrow> http_response \<times> server" where
  "load_playbook cwd pb data sv =
     (let sm = set_playbook cwd pb data (validate True pb) (sv_state sv)
      in (json_response 200 (StateBody (state_response_of sm)),
          announce_state [] (sv\<lparr>sv_state := sm\<rparr>)))"

text \<open>The decoders of the JSON and the YAML library.\<close>

record decoders =
  dec_json :: "string \<Rightarrow> goerr + playbook"
  dec_yaml :: "string \<Rightarrow> goerr + playbook"

definition decode_playbook :: "decoders \<Rightarrow> bool \<Rightarrow> string \<Rightarrow> goerr + playbook" where
  "decode_playbook dec isJSON data = (if isJSON then dec_json dec data else dec_yaml dec data)"

definition load_data ::
    "decoders \<Rightarrow> string option \<Rightarrow> string \<Rightarrow> bool \<Rightarrow> string \<Rightarrow> server \<Rightarrow> http_response \<times> server" where
  "load_data dec cwd what isJSON data sv =
     (case decode_playbook dec isJSON data of
        Inl err \<Rightarrow> load_failed ErrCodePlaybookParseFailed (''Failed to parse '' @ what @ '': '' @ err) sv
      | Inr pb \<Rightarrow> load_playbook cwd pb data sv)"

text \<open>What the multipart reader makes of an upload.\<close>

datatype upload_form =
    FormBad goerr
  | FormNoFile
  | FormUnreadable goerr
  | FormFile string string

definition upload_body ::
    "decoders \<Rightarrow> string option \<Rightarrow> upload_form \<Rightarrow> server \<Rightarrow> http_response \<times> server" where
  "upload_body dec cwd form sv =
     (case form of
        FormBad err \<Rightarrow>
          load_failed ErrCodePlaybookParseFailed (''Failed to parse multipart upload: '' @ err) sv
      | FormNoFile \<Rightarrow>
          load_failed ErrCodePlaybookParseFailed
            (''Missing '' @ [CHR 0x27] @ ''file'' @ [CHR 0x27] @ '' field in multipart upload'') sv
      | FormUnreadable err \<Rightarrow>
          load_failed ErrCodePlaybookParseFailed (''Failed to read uploaded file: '' @ err) sv
      | FormFile name data \<Rightarrow>
          load_data dec cwd ''playbook'' (has_suffix (to_lower name) ''.json'') data sv)"

text \<open>
  The whole handler, check and load one after the other with nothing in between. They are two
  critical sections in the code, so the system of ServerRuns uses \<open>load_refusal\<close> and what follows
  it as two steps; the same holds for the remote fetch.
\<close>

definition handle_playbook_upload ::
    "decoders \<Rightarrow> string option \<Rightarrow> string \<Rightarrow> upload_form \<Rightarrow> server \<Rightarrow> http_response \<times> server" where
  "handle_playbook_upload dec cwd m form sv =
     (case load_refusal ''upload'' m sv of
        Some resp \<Rightarrow> (resp, sv)
      | None \<Rightarrow> upload_body dec cwd form sv)"

subsection \<open>Remote playbooks\<close>

text \<open>\<open>CheckRedirect\<close>: the requests made so far, and the scheme and text of the next URL.\<close>

definition check_redirect :: "nat \<Rightarrow> string \<Rightarrow> string \<Rightarrow> goerr option" where
  "check_redirect made scheme url =
     (if 5 \<le> made then Some ''stopped after 5 redirects''
      else if scheme \<noteq> ''https'' then Some (''insecure redirect to non-HTTPS scheme: '' @ url)
      else None)"

text \<open>
  The client contacts the URL and then, while it is answered with a redirect, the redirect's
  target if the check allows it; the targets are given as schemes with URLs.
\<close>

fun follow_redirects :: "nat \<Rightarrow> (string \<times> string) list \<Rightarrow> (string \<times> string) list \<times> goerr option" where
  "follow_redirects made [] = ([], None)"
| "follow_redirects made ((scheme, url) # targets) =
     (case check_redirect made scheme url of
        Some err \<Rightarrow> ([], Some err)
      | None \<Rightarrow> (case follow_redirects (Suc made) targets of
                   (urls, err) \<Rightarrow> ((scheme, url) # urls, err)))"

text \<open>A request body that can not be decoded, or the request; and what fetching comes to.\<close>

datatype remote_request = RemoteBad goerr | RemoteRequest string strmap

datatype fetch_result =
    FetchInvalid goerr
  | FetchFailed goerr
  | FetchStatus nat
  | FetchUnreadable goerr
  | Fetched string string

definition download_limit :: nat where
  "download_limit = 5 * 2 ^ 20"

definition remote_fetched ::
    "decoders \<Rightarrow> string option \<Rightarrow> fetch_result \<Rightarrow> server \<Rightarrow> http_response \<times> server" where
  "remote_fetched dec cwd fr sv =
     (case fr of
        FetchInvalid err \<Rightarrow>
          load_failed ErrCodeRemoteFetchFailed (''Failed to create HTTP request: '' @ err) sv
      | FetchFailed err \<Rightarrow>
          load_failed ErrCodeRemoteFetchFailed (''Failed to fetch remote playbook: '' @ err) sv
      | FetchStatus code \<Rightarrow>
          load_failed ErrCodeRemoteFetchFailed
            (''Remote server responded with status '' @ nat_str code) sv
      | FetchUnreadable err \<Rightarrow>
          load_failed ErrCodeRemoteFetchFailed (''Failed to read remote playbook: '' @ err) sv
      | Fetched contentType body \<Rightarrow>
          load_data dec cwd ''remote playbook'' (has_prefix (to_lower contentType) ''application/json'')
            (take download_limit body) sv)"

definition remote_body ::
    "decoders \<Rightarrow> string option \<Rightarrow> (string \<Rightarrow> strmap \<Rightarrow> fetch_result) \<Rightarrow> remote_request \<Rightarrow> server
       \<Rightarrow> http_response \<times> server" where
  "remote_body dec cwd fetch body sv =
     (case body of
        RemoteBad err \<Rightarrow>
          load_failed ErrCodeRemoteFetchFailed (''Invalid JSON request body: '' @ err) sv
      | RemoteRequest url headers \<Rightarrow>
          if \<not> has_prefix url ''https://''
          then load_failed ErrCodeRemoteFetchFailed ''Remote playbook URL must use HTTPS'' sv
          else remote_fetched dec cwd (fetch url headers) sv)"

definition handle_playbook_remote ::
    "decoders \<Rightarrow> string option \<Rightarrow> (string \<Rightarrow> strmap \<Rightarrow> fetch_result) \<Rightarrow> string \<Rightarrow> remote_request \<Rightarrow> server
       \<Rightarrow> http_response \<times> server" where
  "handle_playbook_remote dec cwd fetch m body sv =
     (case load_refusal ''fetch remote'' m sv of
        Some resp \<Rightarrow> (resp, sv)
      | None \<Rightarrow> remote_body dec cwd fetch body sv)"

subsection \<open>Inspecting and unloading\<close>

definition handle_playbook_get :: "string \<Rightarrow> server \<Rightarrow> http_response" where
  "handle_playbook_get m sv =
     (if m \<noteq> ''GET'' then method_not_allowed
      else (case get_playbook_inspection (sv_state sv) of
              Inl err \<Rightarrow> error_response 404 ''NO_PLAYBOOK'' err
            | Inr insp \<Rightarrow> json_response 200 (InspectionBody insp)))"

definition handle_playbook_delete :: "string option \<Rightarrow> string \<Rightarrow> server \<Rightarrow> http_response \<times> server" where
  "handle_playbook_delete cwd m sv =
     (if m \<noteq> ''DELETE'' then (method_not_allowed, sv)
      else (case unload_playbook cwd (sv_state sv) of
              (Some err, sm) \<Rightarrow> (error_response 409 ErrCodeConflict err, sv\<lparr>sv_state := sm\<rparr>)
            | (None, sm) \<Rightarrow> (json_response 200 (StateBody (state_response_of sm)),
                             announce_state [] (sv\<lparr>sv_state := sm\<rparr>))))"

section \<open>Destination\<close>

text \<open>The check and the update are separate critical sections here too.\<close>

definition put_refusal :: "string \<Rightarrow> server \<Rightarrow> http_response option" where
  "put_refusal m sv =
     (if m \<noteq> ''PUT'' then Some method_not_allowed
      else if \<not> can_mutate (sv_state sv)
      then Some (error_response 409 ErrCodeConflict
                   ''Cannot update report destination during active execution or submission'')
      else None)"

definition put_body :: "dest_checks \<Rightarrow> goerr + dest_update \<Rightarrow> server \<Rightarrow> http_response \<times> server" where
  "put_body E body sv =
     (case body of
        Inl err \<Rightarrow> (error_response 400 ''INVALID_REQUEST''
                     (''Failed to decode destination update payload: '' @ err), sv)
      | Inr req \<Rightarrow>
          (case validate_update E req of
             Some err \<Rightarrow> (error_response 400 ''INVALID_DESTINATION'' err, sv)
           | None \<Rightarrow>
               (case update_destination (dc_cwd E) req (sv_state sv) of
                  (Some err, sm) \<Rightarrow>
                    (error_response 400 ''DESTINATION_UPDATE_FAILED'' err, sv\<lparr>sv_state := sm\<rparr>)
                | (None, sm) \<Rightarrow>
                    (json_response 200 (StateBody (state_response_of sm)),
                     announce_state [] (sv\<lparr>sv_state := sm\<rparr>)))))"

definition handle_report_destination_put ::
    "dest_checks \<Rightarrow> string \<Rightarrow> goerr + dest_update \<Rightarrow> server \<Rightarrow> http_response \<times> server" where
  "handle_report_destination_put E m body sv =
     (case put_refusal m sv of Some resp \<Rightarrow> (resp, sv) | None \<Rightarrow> put_body E body sv)"

section \<open>Running\<close>

definition first_validation_error :: "app_error list \<Rightarrow> app_error option" where
  "first_validation_error errs = find (\<lambda>e. err_code e = ErrCodePlaybookValidationFailed) errs"

definition run_refusal :: "string \<Rightarrow> state_manager \<Rightarrow> http_response option" where
  "run_refusal m sm =
     (if m \<noteq> ''POST'' then Some method_not_allowed
      else if sm_playbook sm = None
      then Some (error_response 400 ''NO_PLAYBOOK''
                   ''No playbook loaded. Load a playbook before starting execution.'')
      else (case first_validation_error (sm_errors sm) of
              Some e \<Rightarrow>
                Some (json_response 400 (ErrorBody
                  \<lparr>err_code = ErrCodePlaybookValidationFailed,
                   err_message = ''Cannot run playbook with validation errors'',
                   err_detail = err_detail e\<rparr>))
            | None \<Rightarrow>
                if busy_status (sm_status sm)
                then Some (error_response 409 ErrCodeConflict ''Execution is already in progress'')
                else None))"

definition reset_entry :: "assertion_snapshot \<Rightarrow> assertion_snapshot" where
  "reset_entry s = s\<lparr>as_status := ''pending'', as_passed := False, as_score := 0,
                     as_durationMs := 0, as_output := []\<rparr>"

text \<open>The run's id from the clock's nanoseconds; \<open>k\<close> names its context and done channel.\<close>

definition run_id :: "int \<Rightarrow> string" where
  "run_id nano = ''run-'' @ int_str nano"

definition start_run :: "nat \<Rightarrow> int \<Rightarrow> gotime \<Rightarrow> playbook \<Rightarrow> state_manager \<Rightarrow> state_manager" where
  "start_run k nano now pb sm =
     (let status = (if requires_elevation (Some pb) then StatusRunningElevating else StatusRunning);
          sn = sm_snapshot sm
      in sm\<lparr>sm_activeRunID := run_id nano, sm_cancel := Some k, sm_done := Some k,
            sm_isCancelled := False, sm_runStartTime := now, sm_lastReport := None, sm_errors := [],
            sm_status := status,
            sm_snapshot := sn\<lparr>sn_assertions := map reset_entry (sn_assertions sn), sn_logs := [],
                              sn_activeAssertionCode := [], sn_status := status\<rparr>\<rparr>)"

text \<open>A run under way: its context, its id and the playbook it executes.\<close>

record active_run =
  ar_key :: nat
  ar_runID :: string
  ar_playbook :: playbook

definition handle_run ::
    "nat \<Rightarrow> int \<Rightarrow> gotime \<Rightarrow> string \<Rightarrow> server \<Rightarrow> http_response \<times> server \<times> active_run option" where
  "handle_run k nano now m sv =
     (case run_refusal m (sv_state sv) of
        Some resp \<Rightarrow> (resp, sv, None)
      | None \<Rightarrow>
          (let pb = the (sm_playbook (sv_state sv));
               sm = start_run k nano now pb (sv_state sv);
               rid = run_id nano
           in (json_response 202 (RunBody rid (state_response_of sm)),
               announce_state rid (sv\<lparr>sv_state := sm\<rparr>),
               Some \<lparr>ar_key = k, ar_runID = rid, ar_playbook = pb\<rparr>)))"

text \<open>The outcome of the elevation's setup.\<close>

definition elevation_failed :: "string \<Rightarrow> goerr \<Rightarrow> server \<Rightarrow> server" where
  "elevation_failed rid err sv =
     (let sm = sv_state sv;
          sm1 = sm\<lparr>sm_status := StatusLoaded,
                   sm_errors := sm_errors sm
                     @ [\<lparr>err_code = ErrCodeElevationFailed,
                         err_message = ''Elevation setup failed: '' @ err, err_detail = NoDetail\<rparr>],
                   sm_snapshot := (sm_snapshot sm)\<lparr>sn_status := StatusLoaded\<rparr>\<rparr>
      in announce_state rid (sv\<lparr>sv_state := sm1\<rparr>))"

definition elevation_done :: "string \<Rightarrow> server \<Rightarrow> server" where
  "elevation_done rid sv =
     (let sm = sv_state sv;
          sm1 = (if sm_status sm = StatusRunningElevating
                 then sm\<lparr>sm_status := StatusRunning,
                         sm_snapshot := (sm_snapshot sm)\<lparr>sn_status := StatusRunning\<rparr>\<rparr>
                 else sm)
      in announce_state rid (sv\<lparr>sv_state := sm1\<rparr>))"

text \<open>
  The end of a run. \<open>pb'\<close> is the run's playbook after report generation: the frontmatter map is
  shared with the loaded playbook, if that is still the one the run was started with.
\<close>

definition share_frontmatter :: "playbook \<Rightarrow> playbook \<Rightarrow> state_manager \<Rightarrow> state_manager" where
  "share_frontmatter pb pb' sm =
     (if sm_playbook sm = Some pb then sm\<lparr>sm_playbook := Some pb'\<rparr> else sm)"

definition has_https :: "playbook \<Rightarrow> dest_state \<Rightarrow> bool" where
  "has_https pb d \<longleftrightarrow>
     (ds_httpsSource d = HttpsSourcePlaybook \<and> p_reportDestinationHTTPS pb \<noteq> None)
     \<or> (ds_httpsSource d = HttpsSourceCustom
        \<and> (case ds_https d of None \<Rightarrow> False | Some h \<Rightarrow> hc_url h \<noteq> []))"

definition finish_cancelled :: "string \<Rightarrow> final_result \<Rightarrow> goint \<Rightarrow> server \<Rightarrow> server" where
  "finish_cancelled rid res dur sv =
     (let sm = sv_state sv;
          sm1 = sm\<lparr>sm_lastReport := Some res, sm_isCancelled := True, sm_status := StatusLoaded,
                   sm_errors := sm_errors sm
                     @ [\<lparr>err_code = ErrCodeExecutionAborted,
                         err_message = ''Execution cancelled by user'', err_detail = NoDetail\<rparr>],
                   sm_snapshot := (sm_snapshot sm)\<lparr>sn_durationMs := dur, sn_status := ''cancelled''\<rparr>\<rparr>
      in announce_state rid (sv\<lparr>sv_state := sm1\<rparr>))"

definition finish_completed ::
    "'w writers \<Rightarrow> string \<Rightarrow> playbook \<Rightarrow> final_result \<Rightarrow> goint \<Rightarrow> server \<Rightarrow> 'w \<Rightarrow> server \<times> 'w" where
  "finish_completed W rid pb res dur sv w =
     (let sm = sv_state sv;
          d = sm_reportDestination sm;
          (err, w1) = (if ds_folderSource d \<noteq> FolderSourceOff
                       then wr_folder W (if ds_folder d = [] then ''reports'' else ds_folder d) res w
                       else (None, w));
          status = (if has_https pb d then StatusCompletedConfirmingSubmission else StatusCompleted);
          sm1 = sm\<lparr>sm_lastReport := Some res,
                   sm_errors := sm_errors sm
                     @ (case err of None \<Rightarrow> []
                        | Some e \<Rightarrow> [\<lparr>err_code = ErrCodeFolderWriteFailed,
                                     err_message = ''Failed to write report to folder: '' @ e,
                                     err_detail = NoDetail\<rparr>]),
                   sm_status := status,
                   sm_snapshot := (sm_snapshot sm)\<lparr>sn_durationMs := dur, sn_status := status\<rparr>\<rparr>
      in (announce_state rid (sv\<lparr>sv_state := sm1\<rparr>), w1))"

definition finish_run ::
    "'w writers \<Rightarrow> report_formats \<Rightarrow> active_run \<Rightarrow> bool \<Rightarrow> execution_trace \<Rightarrow> goint \<Rightarrow> server \<Rightarrow> 'w
       \<Rightarrow> server \<times> 'w" where
  "finish_run W F r cancelled t dur sv w =
     (let (res, pb') = generate_report F t;
          sv1 = sv\<lparr>sv_state := share_frontmatter (ar_playbook r) pb' (sv_state sv)\<rparr>
      in if cancelled then (finish_cancelled (ar_runID r) res dur sv1, w)
         else finish_completed W (ar_runID r) (ar_playbook r) res dur sv1 w)"

subsection \<open>Cancelling\<close>

text \<open>The handler's first part: the response if it is refused or repeated, else the run to cancel.\<close>

definition cancel_begin :: "string \<Rightarrow> server \<Rightarrow> http_response option \<times> server \<times> nat option" where
  "cancel_begin m sv =
     (let sm = sv_state sv in
      if m \<noteq> ''POST'' then (Some method_not_allowed, sv, None)
      else if sm_status sm \<noteq> StatusRunning \<and> sm_status sm \<noteq> StatusRunningElevating
              \<and> sm_status sm \<noteq> StatusRunningCancelling
      then (Some (error_response 409 ErrCodeConflict ''No active execution to cancel''), sv, None)
      else if sm_status sm = StatusRunningCancelling
      then (Some (json_response 200 (StateBody (state_response_of sm))), sv, None)
      else
        (let sm1 = sm\<lparr>sm_status := StatusRunningCancelling,
                      sm_snapshot := (sm_snapshot sm)\<lparr>sn_status := StatusRunningCancelling\<rparr>\<rparr>
         in (None, announce_state (sm_activeRunID sm1) (sv\<lparr>sv_state := sm1\<rparr>), sm_cancel sm1)))"

text \<open>Its answer once the run is done or ten seconds have passed.\<close>

definition cancel_end :: "server \<Rightarrow> http_response" where
  "cancel_end sv = json_response 200 (StateBody (state_response_of (sv_state sv)))"

definition handle_execution_get :: "(gotime \<Rightarrow> goint) \<Rightarrow> string \<Rightarrow> server \<Rightarrow> http_response" where
  "handle_execution_get since m sv =
     (if m \<noteq> ''GET'' then method_not_allowed
      else json_response 200 (SnapshotBody (get_execution_snapshot since (sv_state sv))))"

section \<open>Reports\<close>

text \<open>
  The archives: the JSON encoder, the writers of the archive formats over a state \<open>'a\<close> (each
  operation fails, or goes on), and the compressors of a whole stream.
\<close>

record tar_header =
  th_name :: string
  th_mode :: nat
  th_size :: nat

record 'a archivers =
  av_json :: "final_report \<Rightarrow> goerr + string"
  av_new_zip :: 'a
  av_zip_create :: "string \<Rightarrow> 'a \<Rightarrow> goerr + 'a"
  av_zip_write :: "string \<Rightarrow> 'a \<Rightarrow> goerr + 'a"
  av_zip_close :: "'a \<Rightarrow> goerr + string"
  av_new_tar :: 'a
  av_tar_header :: "tar_header \<Rightarrow> 'a \<Rightarrow> goerr + 'a"
  av_tar_write :: "string \<Rightarrow> 'a \<Rightarrow> goerr + 'a"
  av_tar_close :: "'a \<Rightarrow> goerr + string"
  av_gzip :: "string \<Rightarrow> goerr + string"
  av_zstd_new :: "goerr option"
  av_zstd :: "string \<Rightarrow> goerr + string"

definition archive_files :: "string \<Rightarrow> final_result \<Rightarrow> (string \<times> string) list" where
  "archive_files json res =
     [(''report.json'', json), (''report.md'', fin_markdown res), (''report.log'', fin_log res)]"

text \<open>One call and what follows it, an error wrapped in a prefix.\<close>

definition and_then :: "string \<Rightarrow> goerr + 'a \<Rightarrow> ('a \<Rightarrow> goerr + 'b) \<Rightarrow> goerr + 'b" where
  "and_then pre r f = (case r of Inl e \<Rightarrow> Inl (pre @ '': '' @ e) | Inr x \<Rightarrow> f x)"

fun zip_files :: "'a archivers \<Rightarrow> (string \<times> string) list \<Rightarrow> 'a \<Rightarrow> goerr + string" where
  "zip_files A [] z = and_then ''failed to finalize zip'' (av_zip_close A z) Inr"
| "zip_files A ((name, data) # fs) z =
     and_then (''failed to create zip entry '' @ name) (av_zip_create A name z)
       (\<lambda>z1. and_then (''failed to write zip entry '' @ name) (av_zip_write A data z1) (zip_files A fs))"

fun tar_files :: "'a archivers \<Rightarrow> (string \<times> string) list \<Rightarrow> 'a \<Rightarrow> goerr + string" where
  "tar_files A [] z = and_then ''failed to finalize tar'' (av_tar_close A z) Inr"
| "tar_files A ((name, data) # fs) z =
     and_then (''failed to write tar header '' @ name)
       (av_tar_header A \<lparr>th_name = name, th_mode = 420, th_size = length data\<rparr> z)
       (\<lambda>z1. and_then (''failed to write tar entry '' @ name) (av_tar_write A data z1) (tar_files A fs))"

definition archive_format :: "string \<Rightarrow> string" where
  "archive_format format = (if format = [] then ''zip'' else format)"

text \<open>The bytes with the content type and the file name, or the error.\<close>

definition as_download :: "string \<Rightarrow> string \<Rightarrow> goerr + string \<Rightarrow> goerr + string \<times> string \<times> string" where
  "as_download ctype name r = (case r of Inl e \<Rightarrow> Inl e | Inr d \<Rightarrow> Inr (d, ctype, name))"

definition tar_compressed ::
    "'a archivers \<Rightarrow> (string \<times> string) list \<Rightarrow> string \<Rightarrow> (string \<Rightarrow> goerr + string) \<Rightarrow> goerr + string" where
  "tar_compressed A files what compress =
     (case tar_files A files (av_new_tar A) of
        Inl e \<Rightarrow> Inl e
      | Inr d \<Rightarrow> and_then (''failed to finalize '' @ what) (compress d) Inr)"

definition build_report_archive ::
    "'a archivers \<Rightarrow> final_result \<Rightarrow> string \<Rightarrow> goerr + string \<times> string \<times> string" where
  "build_report_archive A res format0 =
     (let format = archive_format format0 in
      and_then ''failed to marshal JSON report'' (av_json A (fin_structured res))
        (\<lambda>json.
          (let files = archive_files json res in
           if format = ''zip''
           then as_download ''application/zip'' ''report.zip'' (zip_files A files (av_new_zip A))
           else if format = ''tar''
           then as_download ''application/x-tar'' ''report.tar'' (tar_files A files (av_new_tar A))
           else if format = ''tar.gz'' \<or> format = ''tgz''
           then as_download ''application/gzip'' ''report.tar.gz''
                  (tar_compressed A files ''gzip'' (av_gzip A))
           else if format = ''tar.zst'' \<or> format = ''tzst'' \<or> format = ''zst''
           then (case av_zstd_new A of
                   Some e \<Rightarrow> Inl (''failed to create zstd writer: '' @ e)
                 | None \<Rightarrow> as_download ''application/zstd'' ''report.tar.zst''
                             (tar_compressed A files ''zstd'' (av_zstd A)))
           else Inl (''unsupported archive format: '' @ format
                     @ ''. Supported formats: zip, tar, tar.gz, tar.zst''))))"

definition no_report :: "string \<Rightarrow> http_response" where
  "no_report what = error_response 404 ''NO_REPORT'' (''No '' @ what @ ''. Run a playbook first.'')"

definition handle_report_get :: "string \<Rightarrow> server \<Rightarrow> http_response" where
  "handle_report_get m sv =
     (if m \<noteq> ''GET'' then method_not_allowed
      else (case get_last_report (sv_state sv) of
              (None, _) \<Rightarrow> no_report ''report available''
            | (Some rep, isCancelled) \<Rightarrow>
                if isCancelled
                then error_response 409 ErrCodeConflict
                       ''Structured JSON report is unavailable for cancelled runs''
                else json_response 200 (ReportBody (fin_structured rep))))"

definition text_download :: "string \<Rightarrow> string \<Rightarrow> string \<Rightarrow> string \<Rightarrow> http_response" where
  "text_download q filename ctype content =
     \<lparr>rp_status = 200,
      rp_headers = (if q = ''1'' then [(''Content-Disposition'',
                       ''attachment; filename='' @ [CHR 0x22] @ filename @ [CHR 0x22])] else [])
                   @ [(''Content-Type'', ctype)],
      rp_body = DataBody content\<rparr>"

definition handle_report_md_get :: "string \<Rightarrow> string \<Rightarrow> server \<Rightarrow> http_response" where
  "handle_report_md_get m q sv =
     (if m \<noteq> ''GET'' then method_not_allowed
      else (case fst (get_last_report (sv_state sv)) of
              None \<Rightarrow> no_report ''markdown report available''
            | Some rep \<Rightarrow> text_download q ''report.md'' ''text/markdown; charset=utf-8'' (fin_markdown rep)))"

definition handle_report_log_get :: "string \<Rightarrow> string \<Rightarrow> server \<Rightarrow> http_response" where
  "handle_report_log_get m q sv =
     (if m \<noteq> ''GET'' then method_not_allowed
      else (case fst (get_last_report (sv_state sv)) of
              None \<Rightarrow> no_report ''execution log available''
            | Some rep \<Rightarrow> text_download q ''report.log'' ''text/plain; charset=utf-8'' (fin_log rep)))"

definition handle_report_download :: "'a archivers \<Rightarrow> string \<Rightarrow> string \<Rightarrow> server \<Rightarrow> http_response" where
  "handle_report_download A m format sv =
     (if m \<noteq> ''GET'' then method_not_allowed
      else (case get_last_report (sv_state sv) of
              (None, _) \<Rightarrow> no_report ''report bundle available to download''
            | (Some rep, isCancelled) \<Rightarrow>
                if isCancelled
                then error_response 409 ErrCodeConflict
                       ''Report archive download is unavailable for cancelled runs''
                else (case build_report_archive A rep (archive_format format) of
                        Inl err \<Rightarrow> error_response 400 ''ARCHIVE_FAILED'' err
                      | Inr (data, ctype, filename) \<Rightarrow>
                          \<lparr>rp_status = 200,
                           rp_headers = [(''Content-Type'', ctype),
                             (''Content-Disposition'',
                              ''attachment; filename='' @ [CHR 0x22] @ filename @ [CHR 0x22]),
                             (''Content-Length'', nat_str (length data))],
                           rp_body = DataBody data\<rparr>)))"

subsection \<open>Remote submission\<close>

definition submit_config :: "state_manager \<Rightarrow> dest_config option" where
  "submit_config sm =
     (let d = sm_reportDestination sm in
      if ds_httpsSource d = HttpsSourceCustom \<and> ds_https d \<noteq> None
      then map_option custom_config (ds_https d)
      else if ds_httpsSource d = HttpsSourcePlaybook
      then Option.bind (sm_playbook sm) p_reportDestinationHTTPS
      else None)"

text \<open>The first part: a refusal, or the configuration and the report to submit for a run id.\<close>

definition submit_begin ::
    "string \<Rightarrow> server \<Rightarrow> (http_response + dest_config \<times> final_result \<times> string) \<times> server" where
  "submit_begin m sv =
     (let sm = sv_state sv in
      if m \<noteq> ''POST'' then (Inl method_not_allowed, sv)
      else if busy_status (sm_status sm)
      then (Inl (error_response 409 ErrCodeConflict
              ''Cannot submit remote report while execution or submission is in progress''), sv)
      else (case (if sm_isCancelled sm then None else sm_lastReport sm) of
              None \<Rightarrow>
                (Inl (error_response 409 ErrCodeConflict
                   ''Cannot submit remote report: no valid completed report available''), sv)
            | Some rep \<Rightarrow>
                (case submit_config sm of
                   None \<Rightarrow> (Inl (error_response 400 ''NO_DESTINATION''
                                  ''No remote HTTPS destination configured''), sv)
                 | Some cfg \<Rightarrow>
                     if d_url cfg = []
                     then (Inl (error_response 400 ''NO_DESTINATION''
                                  ''No remote HTTPS destination configured''), sv)
                     else (let sm1 = sm\<lparr>sm_status := StatusCompletedSubmitting\<rparr>
                           in (Inr (cfg, rep, sm_activeRunID sm1),
                               announce_state (sm_activeRunID sm1) (sv\<lparr>sv_state := sm1\<rparr>))))))"

definition submission_error :: "app_error \<Rightarrow> bool" where
  "submission_error e \<longleftrightarrow>
     err_code e = ErrCodeRemoteSubmissionFailed \<or> err_code e = ErrCodeRemoteSubmissionTimeout"

definition submit_end :: "string \<Rightarrow> goerr option \<Rightarrow> server \<Rightarrow> http_response \<times> server" where
  "submit_end rid err sv =
     (let sm = sv_state sv in
      case err of
        Some e \<Rightarrow>
          (let sm1 = sm\<lparr>sm_status := StatusCompletedSubmissionError,
                        sm_errors := sm_errors sm
                          @ [\<lparr>err_code = ErrCodeRemoteSubmissionFailed,
                              err_message = ''Remote submission failed: '' @ e,
                              err_detail = NoDetail\<rparr>]\<rparr>
           in (json_response 502 (StateBody (state_response_of sm1)),
               announce_state rid (sv\<lparr>sv_state := sm1\<rparr>)))
      | None \<Rightarrow>
          (let sm1 = sm\<lparr>sm_status := StatusCompletedSubmitted,
                        sm_errors := filter (\<lambda>e. \<not> submission_error e) (sm_errors sm)\<rparr>
           in (json_response 200 (StateBody (state_response_of sm1)),
               announce_state rid (sv\<lparr>sv_state := sm1\<rparr>))))"

definition handle_report_remote_submit ::
    "'w writers \<Rightarrow> string \<Rightarrow> server \<Rightarrow> 'w \<Rightarrow> http_response \<times> server \<times> 'w" where
  "handle_report_remote_submit W m sv w =
     (case submit_begin m sv of
        (Inl resp, sv1) \<Rightarrow> (resp, sv1, w)
      | (Inr (cfg, rep, rid), sv1) \<Rightarrow>
          (case wr_http W cfg rep w of
             (err, w1) \<Rightarrow> (case submit_end rid err sv1 of (resp, sv2) \<Rightarrow> (resp, sv2, w1))))"

section \<open>Shutting down\<close>

definition handle_shutdown :: "string \<Rightarrow> http_response \<times> bool" where
  "handle_shutdown m =
     (if m \<noteq> ''POST'' then (method_not_allowed, False)
      else (json_response 200 (StatusBody ''shutting_down''), True))"

end
