(* ===== verification/ServerRuns.thy ===== *)
theory ServerRuns
  imports ServerHandlers
begin

text \<open>
  The server under concurrent requests: its handlers' critical sections and its background runs
  as the steps of a transition system, in any interleaving. The properties are the safety of
  what is run, the exclusion of runs and submissions, and where the code does not guarantee it.
\<close>

section \<open>Requests while the server is busy\<close>

lemma load_refusal_busy:
  "busy_status (sm_status (sv_state sv)) \<Longrightarrow>
     \<exists>resp. load_refusal what m sv = Some resp \<and> rp_status resp = (if m = ''POST'' then 409 else 405)"
  by (simp add: load_refusal_def can_mutate_def method_not_allowed_def http_error_def
      error_response_def json_response_def)

lemma put_refusal_busy:
  "busy_status (sm_status (sv_state sv)) \<Longrightarrow>
     \<exists>resp. put_refusal m sv = Some resp \<and> rp_status resp = (if m = ''PUT'' then 409 else 405)"
  by (simp add: put_refusal_def can_mutate_def method_not_allowed_def http_error_def
      error_response_def json_response_def)

lemma first_validation_error_None:
  "first_validation_error es = None \<longleftrightarrow> \<not> list_ex (\<lambda>e. err_code e = ErrCodePlaybookValidationFailed) es"
  by (auto simp: first_validation_error_def find_None_iff list_ex_iff)

text \<open>What a run request gets that is not accepted.\<close>

definition run_refusal_status :: "string \<Rightarrow> state_manager \<Rightarrow> nat" where
  "run_refusal_status m sm =
     (if m \<noteq> ''POST'' then 405
      else if sm_playbook sm = None \<or> has_validation_errors sm then 400 else 409)"

lemma run_refusal_busy:
  "busy_status (sm_status sm) \<Longrightarrow>
     \<exists>resp. run_refusal m sm = Some resp \<and> rp_status resp = run_refusal_status m sm"
  using first_validation_error_None [of "sm_errors sm"]
  by (auto simp: run_refusal_def run_refusal_status_def has_validation_errors_def
      method_not_allowed_def http_error_def error_response_def json_response_def split: option.splits)

text \<open>
  C18: A request to upload, fetch, unload, run, submit or to change the destination whose check
  finds a run or a submission in progress is refused: it is answered with a conflict (or, for a
  wrong method, 405; for a run without a valid playbook, 400), and playbook, status, snapshot,
  destination and event stream stay exactly as they were. This is about requests that have not
  passed their check yet: a load that did so earlier, a cancellation, a shutdown and event
  subscriptions are steps of the system below and do have an effect on a busy server.
\<close>

theorem busy_server_refuses:
  assumes "busy_status (sm_status (sv_state sv))"
  shows "(\<exists>r. handle_playbook_upload dec cwd m form sv = (r, sv)
            \<and> rp_status r = (if m = ''POST'' then 409 else 405))
    \<and> (\<exists>r. handle_playbook_remote dec cwd fetch m body sv = (r, sv)
            \<and> rp_status r = (if m = ''POST'' then 409 else 405))
    \<and> (\<exists>r. handle_playbook_delete cwd m sv = (r, sv)
            \<and> rp_status r = (if m = ''DELETE'' then 409 else 405))
    \<and> (\<exists>r. handle_report_destination_put E m req sv = (r, sv)
            \<and> rp_status r = (if m = ''PUT'' then 409 else 405))
    \<and> (\<exists>r. handle_run k nano now m sv = (r, sv, None)
            \<and> rp_status r = run_refusal_status m (sv_state sv))
    \<and> (\<exists>r. handle_report_remote_submit W m sv w = (r, sv, w)
            \<and> rp_status r = (if m = ''POST'' then 409 else 405))"
proof -
  note codes = method_not_allowed_def http_error_def error_response_def json_response_def
  obtain r1 where r1: "load_refusal ''upload'' m sv = Some r1"
    "rp_status r1 = (if m = ''POST'' then 409 else 405)"
    using load_refusal_busy [OF assms] by blast
  obtain r2 where r2: "load_refusal ''fetch remote'' m sv = Some r2"
    "rp_status r2 = (if m = ''POST'' then 409 else 405)"
    using load_refusal_busy [OF assms] by blast
  obtain r3 where r3: "run_refusal m (sv_state sv) = Some r3"
    "rp_status r3 = run_refusal_status m (sv_state sv)"
    using run_refusal_busy [OF assms] by blast
  obtain r4 where r4: "put_refusal m sv = Some r4"
    "rp_status r4 = (if m = ''PUT'' then 409 else 405)"
    using put_refusal_busy [OF assms] by blast
  have "\<exists>r. handle_playbook_delete cwd m sv = (r, sv)
      \<and> rp_status r = (if m = ''DELETE'' then 409 else 405)"
    using assms by (simp add: handle_playbook_delete_def unload_playbook_def codes)
  moreover have "\<exists>r. handle_report_remote_submit W m sv w = (r, sv, w)
      \<and> rp_status r = (if m = ''POST'' then 409 else 405)"
    using assms by (simp add: handle_report_remote_submit_def submit_begin_def Let_def codes)
  ultimately show ?thesis
    using r1(2) r2(2) r3(2) r4(2)
    by (simp add: handle_playbook_upload_def handle_playbook_remote_def r1(1) r2(1)
        handle_report_destination_put_def r4(1) handle_run_def r3(1))
qed

definition busy_server :: server where
  "busy_server = \<lparr>sv_state = set_status StatusRunning (new_state_manager None [] True),
                  sv_broker = new_event_broker\<rparr>"

lemma busy_server_refuses_witness:
  "\<forall>dec cwd m form fetch body req k nano now w.
     (\<exists>r. handle_playbook_upload dec cwd m form busy_server = (r, busy_server)
         \<and> rp_status r = (if m = ''POST'' then 409 else 405))
   \<and> (\<exists>r. handle_playbook_remote dec cwd fetch m body busy_server = (r, busy_server)
         \<and> rp_status r = (if m = ''POST'' then 409 else 405))
   \<and> (\<exists>r. handle_playbook_delete cwd m busy_server = (r, busy_server)
         \<and> rp_status r = (if m = ''DELETE'' then 409 else 405))
   \<and> (\<exists>r. handle_report_destination_put sample_checks m req busy_server = (r, busy_server)
         \<and> rp_status r = (if m = ''PUT'' then 409 else 405))
   \<and> (\<exists>r. handle_run k nano now m busy_server = (r, busy_server, None)
         \<and> rp_status r = run_refusal_status m (sv_state busy_server))
   \<and> (\<exists>r. handle_report_remote_submit plain_writers m busy_server w = (r, busy_server, w)
         \<and> rp_status r = (if m = ''POST'' then 409 else 405))"
  by (intro allI, rule busy_server_refuses)
    (simp add: busy_server_def set_status_def busy_status_def)

section \<open>The system\<close>

text \<open>
  The server, the runs in the background, the submissions in progress (by run id), the loading
  requests and the destination updates that passed their check and have not taken effect yet, the
  cancellations that have set the status and not yet called the run's cancellation function, the
  contexts cancelled so far, whether the server was shut down, and the next context. The flag
  \<open>sy_overtaken\<close> is a history variable: a load took effect while the server was busy.
\<close>

record system =
  sy_server :: server
  sy_runs :: "active_run list"
  sy_submits :: "string list"
  sy_loads :: nat
  sy_updates :: nat
  sy_cancels :: "nat list"
  sy_cancelled :: "nat set"
  sy_shutdown :: bool
  sy_overtaken :: bool
  sy_next :: nat

definition idle_system :: "server \<Rightarrow> system" where
  "idle_system sv =
     \<lparr>sy_server = sv, sy_runs = [], sy_submits = [], sy_loads = 0, sy_updates = 0, sy_cancels = [],
      sy_cancelled = {}, sy_shutdown = False, sy_overtaken = False, sy_next = 0\<rparr>"

definition new_ui_server :: "string option \<Rightarrow> string \<Rightarrow> server" where
  "new_ui_server cwd cli =
     \<lparr>sv_state = new_state_manager cwd cli True, sv_broker = new_event_broker\<rparr>"

definition system_start :: "string option \<Rightarrow> string \<Rightarrow> system" where
  "system_start cwd cli = idle_system (new_ui_server cwd cli)"

text \<open>
  How \<open>Run\<close> starts it, with \<open>ag\<close> for the agent: empty, with the playbook given on the command
  line and its validation errors, or with the error of loading that.
\<close>

inductive sys_starts :: "bool \<Rightarrow> system \<Rightarrow> bool" for ag where
  starts_empty: "sys_starts ag (system_start cwd cli)"
| starts_loaded: "sys_starts ag (idle_system (new_ui_server cwd cli
    \<lparr>sv_state := set_playbook wd pb data (validate ag pb) (new_state_manager cwd cli True)\<rparr>))"
| starts_failed: "sys_starts ag (idle_system (new_ui_server cwd cli
    \<lparr>sv_state := set_load_error code msg detail (new_state_manager cwd cli True)\<rparr>))"

text \<open>What loading comes to: a playbook or a failure.\<close>

inductive loads :: "string option \<Rightarrow> server \<Rightarrow> server \<Rightarrow> bool" for cwd where
  loads_playbook: "loads cwd sv (snd (load_playbook cwd pb data sv))"
| loads_failed: "loads cwd sv (snd (load_failed code msg sv))"

text \<open>
  A step is a critical section of a handler or of a run, with the broadcast that follows it; the
  handlers that give up the lock between a check or a change of status and its effect
  (\<open>handlePlaybookUpload\<close>, \<open>handlePlaybookRemote\<close>, \<open>handleReportDestinationPut\<close>,
  \<open>handleCancel\<close>, \<open>handleReportRemoteSubmit\<close>) have a step for each part.
\<close>

inductive system_step :: "dest_checks \<Rightarrow> 'w writers \<Rightarrow> report_formats \<Rightarrow> system \<Rightarrow> system \<Rightarrow> bool"
  for E W F where
  sys_load_begin: "load_refusal what m (sy_server S) = None
    \<Longrightarrow> system_step E W F S (S\<lparr>sy_loads := Suc (sy_loads S)\<rparr>)"
| sys_load_end: "sy_loads S = Suc n \<Longrightarrow> loads (dc_cwd E) (sy_server S) sv
    \<Longrightarrow> system_step E W F S
          (S\<lparr>sy_server := sv, sy_loads := n,
            sy_overtaken := (sy_overtaken S \<or> busy_status (sm_status (sv_state (sy_server S))))\<rparr>)"
| sys_delete: "system_step E W F S
    (S\<lparr>sy_server := snd (handle_playbook_delete (dc_cwd E) m (sy_server S))\<rparr>)"
| sys_update_begin: "put_refusal m (sy_server S) = None
    \<Longrightarrow> system_step E W F S (S\<lparr>sy_updates := Suc (sy_updates S)\<rparr>)"
| sys_update_end: "sy_updates S = Suc n
    \<Longrightarrow> system_step E W F S (S\<lparr>sy_server := snd (put_body E body (sy_server S)), sy_updates := n\<rparr>)"
| sys_run: "handle_run (sy_next S) nano now m (sy_server S) = (resp, sv, Some r)
    \<Longrightarrow> system_step E W F S
          (S\<lparr>sy_server := sv, sy_runs := sy_runs S @ [r], sy_next := Suc (sy_next S)\<rparr>)"
| sys_elevation_failed: "sy_runs S = as @ r # bs \<Longrightarrow> system_step E W F S
    (S\<lparr>sy_server := elevation_failed (ar_runID r) err (sy_server S), sy_runs := as @ bs\<rparr>)"
| sys_elevation_done: "r \<in> set (sy_runs S) \<Longrightarrow> system_step E W F S
    (S\<lparr>sy_server := elevation_done (ar_runID r) (sy_server S)\<rparr>)"
| sys_observe: "r \<in> set (sy_runs S) \<Longrightarrow> system_step E W F S
    (S\<lparr>sy_server := observe (ar_runID r) ev (sy_server S)\<rparr>)"
| sys_finish: "sy_runs S = as @ r # bs
    \<Longrightarrow> finish_run W F r (ar_key r \<in> sy_cancelled S) t dur (sy_server S) w = (sv, w')
    \<Longrightarrow> t_playbook t = ar_playbook r
    \<Longrightarrow> system_step E W F S (S\<lparr>sy_server := sv, sy_runs := as @ bs\<rparr>)"
| sys_cancel_begin: "cancel_begin m (sy_server S) = (resp, sv, key)
    \<Longrightarrow> system_step E W F S
          (S\<lparr>sy_server := sv,
            sy_cancels := sy_cancels S @ (case key of None \<Rightarrow> [] | Some k \<Rightarrow> [k])\<rparr>)"
| sys_cancel_call: "sy_cancels S = as @ k # bs
    \<Longrightarrow> system_step E W F S (S\<lparr>sy_cancels := as @ bs, sy_cancelled := insert k (sy_cancelled S)\<rparr>)"
| sys_submit_begin: "submit_begin m (sy_server S) = (Inr (cfg, rep, rid), sv)
    \<Longrightarrow> system_step E W F S (S\<lparr>sy_server := sv, sy_submits := sy_submits S @ [rid]\<rparr>)"
| sys_submit_end: "sy_submits S = as @ rid # bs \<Longrightarrow> submit_end rid err (sy_server S) = (resp, sv)
    \<Longrightarrow> system_step E W F S (S\<lparr>sy_server := sv, sy_submits := as @ bs\<rparr>)"
| sys_shutdown: "broadcast_termination (sv_broker (sy_server S)) = (i, waits, b)
    \<Longrightarrow> system_step E W F S
          (S\<lparr>sy_server := (sy_server S)\<lparr>sv_broker := b\<rparr>, sy_shutdown := True,
            sy_cancelled := sy_cancelled S \<union> set_option (sm_cancel (sv_state (sy_server S)))\<rparr>)"
| sys_subscribe: "subscribe (sv_broker (sy_server S)) = (ch, b)
    \<Longrightarrow> system_step E W F S (S\<lparr>sy_server := (sy_server S)\<lparr>sv_broker := b\<rparr>\<rparr>)"
| sys_unsubscribe: "system_step E W F S
    (S\<lparr>sy_server := (sy_server S)\<lparr>sv_broker := unsubscribe ch (sv_broker (sy_server S))\<rparr>\<rparr>)"
| sys_receive: "eb_subscribers (sv_broker (sy_server S)) ch = Some q \<Longrightarrow> chan_recv q = Some (ev, q')
    \<Longrightarrow> system_step E W F S
          (S\<lparr>sy_server := (sy_server S)\<lparr>sv_broker := (sv_broker (sy_server S))
            \<lparr>eb_subscribers := (eb_subscribers (sv_broker (sy_server S)))(ch \<mapsto> q')\<rparr>\<rparr>\<rparr>)"

section \<open>Only validated playbooks are run\<close>

text \<open>
  A loaded playbook without a validation error among the errors is valid, for an agent unless a
  builder preloaded it; the frontmatter a report leaves behind does not matter.
\<close>

definition loaded_ok :: "bool \<Rightarrow> state_manager \<Rightarrow> bool" where
  "loaded_ok ag sm \<longleftrightarrow>
     (case sm_playbook sm of
        None \<Rightarrow> True
      | Some pb \<Rightarrow> has_validation_errors sm \<or> valid_playbook ag pb)"

lemma loaded_okI:
  "sm_playbook sm' = sm_playbook sm \<Longrightarrow> (has_validation_errors sm \<Longrightarrow> has_validation_errors sm')
     \<Longrightarrow> loaded_ok ag sm \<Longrightarrow> loaded_ok ag sm'"
  by (auto simp: loaded_ok_def split: option.splits)

lemma sv_state_announce [simp]:
  "sv_state (announce kind rid data sv) = sv_state sv" "sv_state (announce_state rid sv) = sv_state sv"
  by (simp_all add: announce_def announce_state_def)

lemma observe_keeps [simp]:
  "sm_playbook (sv_state (observe rid ev sv)) = sm_playbook (sv_state sv)"
  "sm_errors (sv_state (observe rid ev sv)) = sm_errors (sv_state sv)"
  "sm_status (sv_state (observe rid ev sv)) = sm_status (sv_state sv)"
  "sm_cancel (sv_state (observe rid ev sv)) = sm_cancel (sv_state sv)"
  by (cases ev; simp add: announce_tracked_def on_snapshot_def Let_def split: prod.splits)+

lemma validation_errors_append [simp]:
  "sm_errors sm' = sm_errors sm @ es \<Longrightarrow> has_validation_errors sm \<Longrightarrow> has_validation_errors sm'"
  by (simp add: has_validation_errors_def)

lemma valid_for_agent: "valid_playbook True pb \<Longrightarrow> valid_playbook ag pb"
  by (cases ag) (auto simp: valid_playbook_def)

lemma loaded_ok_set:
  "loaded_ok ag (set_playbook cwd pb data (validate ag pb) sm)"
  by (simp add: loaded_ok_def set_playbook_def has_validation_errors_def validate_valid [symmetric]
      Let_def)

lemma loaded_ok_agent: "loaded_ok True sm \<Longrightarrow> loaded_ok ag sm"
  by (auto simp: loaded_ok_def intro: valid_for_agent split: option.splits)

lemma loaded_ok_load: "loads cwd sv sv' \<Longrightarrow> loaded_ok ag (sv_state sv')"
proof (induction rule: loads.induct)
  case (loads_playbook sv pb data)
  then show ?case
    by (simp add: load_playbook_def Let_def loaded_ok_agent [OF loaded_ok_set])
next
  case (loads_failed sv code msg)
  then show ?case
    by (simp add: load_failed_def set_load_error_def Let_def loaded_ok_def)
qed

lemma valid_frontmatter [simp]:
  "valid_playbook ag (pb\<lparr>p_reportFrontmatter := fm\<rparr>) = valid_playbook ag pb"
  by (simp add: valid_playbook_def destination_ok_def all_assertions_def)

lemma generate_report_valid:
  "generate_report F t = (res, pb') \<Longrightarrow> valid_playbook ag pb' = valid_playbook ag (t_playbook t)"
  by (auto simp: generate_report_def Let_def split: option.splits)

lemma delete_state:
  "sv_state (snd (handle_playbook_delete cwd m sv)) =
     (if m = ''DELETE'' then snd (unload_playbook cwd (sv_state sv)) else sv_state sv)"
  by (simp add: handle_playbook_delete_def split: prod.splits option.splits)

lemma loaded_ok_delete:
  "loaded_ok ag (sv_state sv) \<Longrightarrow> loaded_ok ag (sv_state (snd (handle_playbook_delete cwd m sv)))"
  by (simp add: delete_state unload_playbook_def) (simp add: loaded_ok_def)

lemma update_destination_keeps:
  "sm_playbook (snd (update_destination cwd req sm)) = sm_playbook sm"
  "sm_errors (snd (update_destination cwd req sm)) = sm_errors sm"
  "sm_status (snd (update_destination cwd req sm)) = sm_status sm"
  "sm_cancel (snd (update_destination cwd req sm)) = sm_cancel sm"
  by (simp_all add: update_destination_def Let_def)

lemma put_keeps:
  "sm_playbook (sv_state (snd (put_body E body sv))) = sm_playbook (sv_state sv)"
  "sm_errors (sv_state (snd (put_body E body sv))) = sm_errors (sv_state sv)"
  "sm_status (sv_state (snd (put_body E body sv))) = sm_status (sv_state sv)"
  "sm_cancel (sv_state (snd (put_body E body sv))) = sm_cancel (sv_state sv)"
  using update_destination_keeps [of "dc_cwd E" _ "sv_state sv"]
  by (auto simp: put_body_def split: sum.splits option.splits prod.splits; metis snd_conv)+

lemma loaded_ok_put:
  "loaded_ok ag (sv_state sv) \<Longrightarrow> loaded_ok ag (sv_state (snd (put_body E body sv)))"
  by (rule loaded_okI [of _ "sv_state sv"]) (simp_all add: put_keeps has_validation_errors_def)

text \<open>An accepted run: what it needed, and what it leaves.\<close>

lemma handle_run_started:
  assumes "handle_run k nano now m sv = (resp, sv', Some r)"
  shows "sm_playbook (sv_state sv) = Some (ar_playbook r) \<and> \<not> has_validation_errors (sv_state sv)
    \<and> \<not> busy_status (sm_status (sv_state sv)) \<and> ar_key r = k
    \<and> sv_state sv' = start_run k nano now (ar_playbook r) (sv_state sv)"
  using assms
  by (auto simp: handle_run_def run_refusal_def has_validation_errors_def first_validation_error_None
      Let_def split: option.splits if_splits)

lemma start_run_sel [simp]:
  "sm_playbook (start_run k nano now pb sm) = sm_playbook sm"
  "sm_cancel (start_run k nano now pb sm) = Some k"
  "sm_status (start_run k nano now pb sm)
     = (if requires_elevation (Some pb) then StatusRunningElevating else StatusRunning)"
  by (simp_all add: start_run_def Let_def)

lemma loaded_ok_run:
  assumes "handle_run k nano now m sv = (resp, sv', Some r)" and "loaded_ok ag (sv_state sv)"
  shows "loaded_ok ag (sv_state sv') \<and> valid_playbook ag (ar_playbook r)"
  using handle_run_started [OF assms(1)] assms(2) by (simp add: loaded_ok_def)

lemma loaded_ok_elevation:
  "loaded_ok ag (sv_state sv) \<Longrightarrow> loaded_ok ag (sv_state (elevation_failed rid err sv))"
  "loaded_ok ag (sv_state sv) \<Longrightarrow> loaded_ok ag (sv_state (elevation_done rid sv))"
  by (rule loaded_okI [of _ "sv_state sv"];
      simp add: elevation_failed_def elevation_done_def has_validation_errors_def Let_def)+

lemma loaded_ok_observe:
  "loaded_ok ag (sv_state sv) \<Longrightarrow> loaded_ok ag (sv_state (observe rid ev sv))"
  by (rule loaded_okI [of _ "sv_state sv"]) (simp_all add: has_validation_errors_def)

lemma loaded_ok_share:
  assumes "loaded_ok ag sm" and "valid_playbook ag pb' = valid_playbook ag pb"
  shows "loaded_ok ag (share_frontmatter pb pb' sm)"
  using assms by (auto simp: share_frontmatter_def loaded_ok_def has_validation_errors_def)

lemma loaded_ok_finish:
  assumes "finish_run W F r c t dur sv w = (sv', w')" and "t_playbook t = ar_playbook r"
    and "loaded_ok ag (sv_state sv)"
  shows "loaded_ok ag (sv_state sv')"
proof -
  obtain res pb' where g: "generate_report F t = (res, pb')" by (cases "generate_report F t")
  let ?sv = "sv\<lparr>sv_state := share_frontmatter (ar_playbook r) pb' (sv_state sv)\<rparr>"
  have s: "loaded_ok ag (sv_state ?sv)"
    using loaded_ok_share [OF assms(3)] generate_report_valid [OF g, of ag] assms(2) by simp
  have "loaded_ok ag (sv_state (finish_cancelled rid res dur ?sv))" for rid
    by (rule loaded_okI [OF _ _ s]) (simp_all add: finish_cancelled_def has_validation_errors_def Let_def)
  moreover have "loaded_ok ag (sv_state (fst (finish_completed W rid pb res dur ?sv w)))" for rid pb
    by (rule loaded_okI [OF _ _ s])
      (simp_all add: finish_completed_def has_validation_errors_def Let_def split: prod.splits)
  moreover have "sv' = (if c then finish_cancelled (ar_runID r) res dur ?sv
      else fst (finish_completed W (ar_runID r) (ar_playbook r) res dur ?sv w))"
    using assms(1) by (simp add: finish_run_def g Let_def split: if_splits)
  ultimately show ?thesis by simp
qed

lemma cancel_begin_idle:
  assumes "m \<noteq> ''POST'' \<or> sm_status (sv_state sv) \<noteq> StatusRunning
    \<and> sm_status (sv_state sv) \<noteq> StatusRunningElevating"
  shows "\<exists>resp. cancel_begin m sv = (resp, sv, None)"
  using assms by (cases "m = ''POST''") (simp_all add: cancel_begin_def Let_def)

lemma cancel_begin_running:
  assumes "m = ''POST''" and "sm_status (sv_state sv) = StatusRunning
    \<or> sm_status (sv_state sv) = StatusRunningElevating"
  shows "\<exists>sv'. cancel_begin m sv = (None, sv', sm_cancel (sv_state sv))
    \<and> sv_state sv' = (sv_state sv)\<lparr>sm_status := StatusRunningCancelling,
         sm_snapshot := (sm_snapshot (sv_state sv))\<lparr>sn_status := StatusRunningCancelling\<rparr>\<rparr>"
  using assms(2) by (elim disjE) (simp_all add: cancel_begin_def Let_def assms(1))

lemma cancel_begin_cases:
  assumes c: "cancel_begin m sv = (resp, sv', key)"
  obtains "sv' = sv" "key = None"
  | "sm_status (sv_state sv) = StatusRunning \<or> sm_status (sv_state sv) = StatusRunningElevating"
    "key = sm_cancel (sv_state sv)"
    "sv_state sv' = (sv_state sv)\<lparr>sm_status := StatusRunningCancelling,
       sm_snapshot := (sm_snapshot (sv_state sv))\<lparr>sn_status := StatusRunningCancelling\<rparr>\<rparr>"
proof (cases "m = ''POST'' \<and> (sm_status (sv_state sv) = StatusRunning
    \<or> sm_status (sv_state sv) = StatusRunningElevating)")
  case True
  then obtain sw where w: "cancel_begin m sv = (None, sw, sm_cancel (sv_state sv))"
    "sv_state sw = (sv_state sv)\<lparr>sm_status := StatusRunningCancelling,
       sm_snapshot := (sm_snapshot (sv_state sv))\<lparr>sn_status := StatusRunningCancelling\<rparr>\<rparr>"
    using cancel_begin_running by blast
  have e: "sv' = sw" "key = sm_cancel (sv_state sv)" using c w(1) by simp_all
  show ?thesis by (rule that(2)) (use True w(2) e in auto)
next
  case False
  then obtain rs where "cancel_begin m sv = (rs, sv, None)" using cancel_begin_idle by blast
  then show ?thesis using c by (intro that(1)) simp_all
qed

lemma loaded_ok_cancel:
  assumes "cancel_begin m sv = (resp, sv', key)" and "loaded_ok ag (sv_state sv)"
  shows "loaded_ok ag (sv_state sv')"
  using assms(1)
proof (cases rule: cancel_begin_cases)
  case 2
  show ?thesis
    by (rule loaded_okI [OF _ _ assms(2)]) (simp_all add: 2 has_validation_errors_def)
qed (simp add: assms(2))

lemma submit_begin_started:
  assumes "submit_begin m sv = (Inr (cfg, rep, rid), sv')"
  shows "\<not> busy_status (sm_status (sv_state sv)) \<and> sm_lastReport (sv_state sv) = Some rep
    \<and> \<not> sm_isCancelled (sv_state sv)
    \<and> sv_state sv' = (sv_state sv)\<lparr>sm_status := StatusCompletedSubmitting\<rparr>"
  using assms by (auto simp: submit_begin_def Let_def split: if_splits option.splits)

lemma loaded_ok_submit_begin:
  assumes "submit_begin m sv = (Inr (cfg, rep, rid), sv')" and "loaded_ok ag (sv_state sv)"
  shows "loaded_ok ag (sv_state sv')"
  using submit_begin_started [OF assms(1)]
  by (intro loaded_okI [OF _ _ assms(2)]) (simp_all add: has_validation_errors_def)

lemma loaded_ok_submit_end:
  assumes "submit_end rid err sv = (resp, sv')" and "loaded_ok ag (sv_state sv)"
  shows "loaded_ok ag (sv_state sv')"
proof (rule loaded_okI [OF _ _ assms(2)])
  show "sm_playbook (sv_state sv') = sm_playbook (sv_state sv)"
    using assms(1) by (auto simp: submit_end_def Let_def split: option.splits)
  show "has_validation_errors (sv_state sv) \<Longrightarrow> has_validation_errors (sv_state sv')"
    using assms(1)
    by (auto simp: submit_end_def has_validation_errors_def submission_error_def list_ex_iff Let_def
        split: option.splits)
qed

definition runs_valid :: "bool \<Rightarrow> system \<Rightarrow> bool" where
  "runs_valid ag S \<longleftrightarrow> loaded_ok ag (sv_state (sy_server S))
     \<and> list_all (\<lambda>r. valid_playbook ag (ar_playbook r)) (sy_runs S)"

lemma runs_valid_start: "sys_starts ag S \<Longrightarrow> runs_valid ag S"
  by (induction rule: sys_starts.induct)
    (simp_all add: runs_valid_def system_start_def idle_system_def new_ui_server_def loaded_ok_set,
     simp_all add: loaded_ok_def new_state_manager_def set_load_error_def)

lemma runs_valid_step:
  assumes "runs_valid ag S" and "system_step E W F S T"
  shows "runs_valid ag T"
  using assms(2,1)
proof cases
  case (sys_finish as r bs t dur w sv w')
  then show ?thesis using assms(1) loaded_ok_finish [OF sys_finish(3,4)]
    by (auto simp: runs_valid_def)
next
  case (sys_cancel_begin m resp sv key)
  then show ?thesis using assms(1) loaded_ok_cancel [OF sys_cancel_begin(2)]
    by (auto simp: runs_valid_def)
next
  case (sys_submit_end as rid bs err resp sv)
  then show ?thesis using assms(1) loaded_ok_submit_end [OF sys_submit_end(3)]
    by (auto simp: runs_valid_def)
next
  case (sys_submit_begin m cfg rep rid sv)
  then show ?thesis using assms(1) loaded_ok_submit_begin [OF sys_submit_begin(2)]
    by (auto simp: runs_valid_def)
next
  case (sys_run nano now m resp sv r)
  then show ?thesis using assms(1) loaded_ok_run [OF sys_run(2)] by (auto simp: runs_valid_def)
qed (auto simp: runs_valid_def intro: loaded_ok_load loaded_ok_delete loaded_ok_put
    loaded_ok_elevation loaded_ok_observe)

interpretation valid_runs: inductive_invariant
  "sys_starts ag" "system_step E W F" "runs_valid ag"
  for ag E and W :: "'w writers" and F
  by unfold_locales (auto intro: runs_valid_start runs_valid_step)

text \<open>
  C16: In every interleaving of requests and runs, also with uploads racing with runs, and however
  the server was started, it only ever executes playbooks that passed the validation of its
  program: the agent's for the agent's server, with or without a playbook preloaded from the
  command line, and the builder's, which allows references to source files, for the builder's.
\<close>

theorem only_valid_playbooks_run:
  fixes W :: "'w writers"
  assumes "reach (sys_starts ag) (system_step E W F) S"
  shows "list_all (\<lambda>r. valid_playbook ag (ar_playbook r)) (sy_runs S)"
  using valid_runs.inv_reach [OF assms] by (simp add: runs_valid_def)

section \<open>One run or submission at a time\<close>

text \<open>
  Contexts are named by fresh numbers, so no pending cancellation and no cancellation function
  left over from an earlier run concerns a later one.
\<close>

abbreviation sys_status :: "system \<Rightarrow> string" where
  "sys_status S \<equiv> sm_status (sv_state (sy_server S))"

abbreviation sys_cancel_fn :: "system \<Rightarrow> nat option" where
  "sys_cancel_fn S \<equiv> sm_cancel (sv_state (sy_server S))"


text \<open>
  Unless a load overtook a run, the status tells what is in progress, and the run in flight is
  the one that the cancellation function cancels; while a run is being cancelled, its
  cancellation is about to be called or has been called.
\<close>

definition cancel_agrees :: "system \<Rightarrow> nat \<Rightarrow> bool" where
  "cancel_agrees S k \<longleftrightarrow>
     sys_cancel_fn S = Some k
     \<and> (sys_status S = StatusRunningCancelling \<longrightarrow> k \<in> set (sy_cancels S) \<union> sy_cancelled S)
     \<and> (k \<in> set (sy_cancels S) \<longrightarrow> sys_status S = StatusRunningCancelling)
     \<and> (k \<in> sy_cancelled S \<longrightarrow> sys_status S = StatusRunningCancelling \<or> sy_shutdown S)"

definition run_in_flight :: "system \<Rightarrow> active_run \<Rightarrow> bool" where
  "run_in_flight S r \<longleftrightarrow>
     sys_status S \<in> {StatusRunningElevating, StatusRunning, StatusRunningCancelling}
     \<and> cancel_agrees S (ar_key r)"

definition exclusive_runs :: "system \<Rightarrow> bool" where
  "exclusive_runs S \<longleftrightarrow>
     (sy_runs S = [] \<and> sy_submits S = [] \<and> \<not> busy_status (sys_status S))
     \<or> (\<exists>r. sy_runs S = [r] \<and> sy_submits S = [] \<and> run_in_flight S r)
     \<or> (\<exists>rid. sy_runs S = [] \<and> sy_submits S = [rid]
              \<and> sys_status S = StatusCompletedSubmitting)"





lemma load_refusal_None: "load_refusal what m sv = None \<Longrightarrow> \<not> busy_status (sm_status (sv_state sv))"
  by (auto simp: load_refusal_def can_mutate_def split: if_splits)

lemma delete_status:
  "busy_status (sm_status (sv_state sv))
     \<Longrightarrow> sv_state (snd (handle_playbook_delete cwd m sv)) = sv_state sv"
  "\<not> busy_status (sm_status (sv_state sv))
     \<Longrightarrow> \<not> busy_status (sm_status (sv_state (snd (handle_playbook_delete cwd m sv))))"
  by (simp_all add: delete_state unload_playbook_def can_mutate_def)
    (simp add: busy_status_def)















lemma exclusive_counters [simp]:
  "exclusive_runs (S\<lparr>sy_loads := n\<rparr>) = exclusive_runs S"
  "exclusive_runs (S\<lparr>sy_updates := n\<rparr>) = exclusive_runs S"
  "exclusive_runs (S\<lparr>sy_overtaken := b\<rparr>) = exclusive_runs S"
  by (simp_all add: exclusive_runs_def run_in_flight_def cancel_agrees_def)

















subsection \<open>What a busy server keeps\<close>

text \<open>
  While the server is busy and no load or destination update that passed its check earlier is
  pending, no step changes the destination or the loaded playbook but for its frontmatter, no
  such load or update can come up, and no run and no submission starts.
\<close>

definition same_setup :: "server \<Rightarrow> server \<Rightarrow> bool" where
  "same_setup sv sv' \<longleftrightarrow>
     sm_reportDestination (sv_state sv') = sm_reportDestination (sv_state sv)
     \<and> sm_playbookRaw (sv_state sv') = sm_playbookRaw (sv_state sv)
     \<and> map_option (\<lambda>pb. pb\<lparr>p_reportFrontmatter := None\<rparr>) (sm_playbook (sv_state sv'))
       = map_option (\<lambda>pb. pb\<lparr>p_reportFrontmatter := None\<rparr>) (sm_playbook (sv_state sv))"

lemma observe_setup: "same_setup sv (observe rid ev sv)"
  unfolding same_setup_def
  by (cases ev) (simp_all add: announce_tracked_def on_snapshot_def add_log_def Let_def split: prod.splits)

lemma generate_report_frontmatter:
  "generate_report F t = (res, pb') \<Longrightarrow>
     pb'\<lparr>p_reportFrontmatter := None\<rparr> = (t_playbook t)\<lparr>p_reportFrontmatter := None\<rparr>"
  by (auto simp: generate_report_def Let_def split: option.splits)

lemma finish_setup:
  assumes "finish_run W F r c t dur sv w = (sv', w')" and "t_playbook t = ar_playbook r"
  shows "same_setup sv sv'"
proof -
  obtain res pb' where g: "generate_report F t = (res, pb')" by (cases "generate_report F t")
  show ?thesis
    using assms generate_report_frontmatter [OF g]
    by (auto simp: same_setup_def finish_run_def g finish_cancelled_def finish_completed_def
        share_frontmatter_def Let_def split: prod.splits if_splits)
qed

lemma busy_server_keeps:
  assumes "system_step E W F S T" and "busy_status (sys_status S)"
    and "sy_loads S = 0" and "sy_updates S = 0"
  shows "same_setup (sy_server S) (sy_server T) \<and> sy_loads T = 0 \<and> sy_updates T = 0
    \<and> set (sy_runs T) \<subseteq> set (sy_runs S) \<and> set (sy_submits T) \<subseteq> set (sy_submits S)"
  using assms(1)
proof cases
  case (sys_load_begin what m)
  then show ?thesis using load_refusal_None assms(2) by blast
next
  case (sys_update_begin m)
  then show ?thesis using assms(2) by (auto simp: put_refusal_def can_mutate_def split: if_splits)
next
  case (sys_delete m)
  then show ?thesis using assms(3,4) by (simp add: same_setup_def delete_status(1) [OF assms(2)])
next
  case (sys_run nano now m resp sv r)
  then show ?thesis using handle_run_started [OF sys_run(2)] assms(2) by simp
next
  case (sys_submit_begin m cfg rep rid sv)
  then show ?thesis using submit_begin_started [OF sys_submit_begin(2)] assms(2) by simp
next
  case (sys_observe r ev)
  then show ?thesis using assms(3,4) by (simp add: observe_setup)
next
  case (sys_finish as r bs t dur w sv w')
  then show ?thesis using assms(3,4) finish_setup [OF sys_finish(3,4)] by auto
next
  case (sys_cancel_begin m resp sv key)
  have "same_setup (sy_server S) sv"
    using sys_cancel_begin(2) by (cases rule: cancel_begin_cases) (simp_all add: same_setup_def)
  then show ?thesis using assms(3,4) by (simp add: sys_cancel_begin(1))
next
  case (sys_submit_end as rid bs err resp sv)
  have "same_setup (sy_server S) sv"
    using sys_submit_end(3) by (cases err) (auto simp: submit_end_def same_setup_def Let_def)
  then show ?thesis using assms(3,4) sys_submit_end(2) by (simp add: sys_submit_end(1)) auto
qed (use assms(3,4) in \<open>auto simp: same_setup_def elevation_failed_def elevation_done_def Let_def\<close>)

subsection \<open>A session\<close>

definition session_start :: system where
  "session_start = system_start (Some ''/home'') []"

definition loaded_server :: "server \<Rightarrow> server" where
  "loaded_server sv = snd (load_playbook (Some ''/home'') sample_playbook [] sv)"

definition session_loaded :: system where
  "session_loaded = session_start\<lparr>sy_server := loaded_server (sy_server session_start)\<rparr>"

lemma can_load: "\<not> busy_status (sm_status (sv_state sv)) \<Longrightarrow> load_refusal what ''POST'' sv = None"
  by (simp add: load_refusal_def can_mutate_def)

lemma can_run:
  assumes "sm_playbook (sv_state sv) = Some pb" and "\<not> has_validation_errors (sv_state sv)"
    and "\<not> busy_status (sm_status (sv_state sv))"
  shows "\<exists>resp sv' r. handle_run k nano now ''POST'' sv = (resp, sv', Some r)"
proof -
  have "first_validation_error (sm_errors (sv_state sv)) = None"
    using assms(2) by (simp add: first_validation_error_None has_validation_errors_def)
  then show ?thesis using assms(1,3) by (simp add: handle_run_def run_refusal_def Let_def)
qed

lemma loaded_server_idle: "\<not> busy_status (sm_status (sv_state (loaded_server sv)))"
  by (simp add: loaded_server_def load_playbook_def set_playbook_def busy_status_def Let_def)

lemma loaded_server_ready:
  "\<exists>resp sv' r. handle_run k nano now ''POST'' (loaded_server sv) = (resp, sv', Some r)"
proof (rule can_run)
  have v: "validate True sample_playbook = []" by (simp add: validate_valid sample_playbook_valid)
  show "sm_playbook (sv_state (loaded_server sv)) = Some sample_playbook"
    by (simp add: loaded_server_def load_playbook_def set_playbook_def Let_def)
  show "\<not> has_validation_errors (sv_state (loaded_server sv))"
    by (simp add: loaded_server_def load_playbook_def set_playbook_def has_validation_errors_def v Let_def)
qed (rule loaded_server_idle)

lemma loads_sample: "loads (dc_cwd sample_checks) sv (loaded_server sv)"
  unfolding loaded_server_def sample_checks_def
  using loads_playbook [of "Some ''/home''" sv sample_playbook "[]"] by simp

abbreviation session_step :: "system \<Rightarrow> system \<Rightarrow> bool" where
  "session_step \<equiv> system_step sample_checks plain_writers sample_formats"

abbreviation sys_init :: "system \<Rightarrow> bool" where
  "sys_init S \<equiv> \<exists>cwd cli. S = system_start cwd cli"

lemma reach_starts:
  assumes "reach sys_init step S"
  shows "reach (sys_starts ag) step S"
  using assms by (induction rule: reach.induct) (auto intro: reach.intros starts_empty)

lemma session_loaded_reachable: "reach sys_init session_step session_loaded"
proof -
  let ?B = "session_start\<lparr>sy_loads := Suc (sy_loads session_start)\<rparr>"
  have idle: "\<not> busy_status (sys_status session_start)"
    by (simp add: session_start_def system_start_def idle_system_def new_ui_server_def
        new_state_manager_def busy_status_def)
  have "reach sys_init session_step session_start"
    by (rule reach_init) (auto simp: session_start_def)
  moreover have "session_step session_start ?B"
    by (rule sys_load_begin [of "''upload''" "''POST''"]) (simp add: can_load idle)
  ultimately have B: "reach sys_init session_step ?B" by (rule reach_step)
  have "session_step ?B (?B\<lparr>sy_server := loaded_server (sy_server ?B), sy_loads := sy_loads session_start,
      sy_overtaken := (sy_overtaken ?B \<or> busy_status (sys_status ?B))\<rparr>)"
    by (rule sys_load_end) (simp_all add: loads_sample)
  moreover have "?B\<lparr>sy_server := loaded_server (sy_server ?B), sy_loads := sy_loads session_start,
      sy_overtaken := (sy_overtaken ?B \<or> busy_status (sys_status ?B))\<rparr> = session_loaded"
    using idle by (simp add: session_loaded_def session_start_def system_start_def idle_system_def)
  ultimately show ?thesis using reach_step [OF B] by simp
qed

lemma session_loaded_sel [simp]:
  "sy_server session_loaded = loaded_server (sy_server session_start)"
  "sy_runs session_loaded = []" "sy_loads session_loaded = 0" "\<not> sy_overtaken session_loaded"
  by (simp_all add: session_loaded_def session_start_def system_start_def idle_system_def)

lemma session_runs:
  "\<exists>S r. reach sys_init session_step S \<and> sy_runs S = [r] \<and> \<not> sy_overtaken S"
proof -
  obtain resp sv r where h: "handle_run (sy_next session_loaded) 7 0 ''POST''
      (sy_server session_loaded) = (resp, sv, Some r)"
    using loaded_server_ready session_loaded_sel(1) by metis
  have "session_step session_loaded
      (session_loaded\<lparr>sy_server := sv, sy_runs := sy_runs session_loaded @ [r],
        sy_next := Suc (sy_next session_loaded)\<rparr>)"
    by (rule sys_run [OF h])
  with session_loaded_reachable
  have "reach sys_init session_step
      (session_loaded\<lparr>sy_server := sv, sy_runs := sy_runs session_loaded @ [r],
        sy_next := Suc (sy_next session_loaded)\<rparr>)" by (rule reach_step)
  then show ?thesis by force
qed

lemma only_valid_playbooks_run_witness:
  "\<exists>S::system. reach (sys_starts True) session_step S \<and> sy_runs S \<noteq> []
     \<and> list_all (\<lambda>r. valid_playbook True (ar_playbook r)) (sy_runs S)"
proof -
  obtain S r where S: "reach sys_init session_step S" "sy_runs S = [r]"
    using session_runs by blast
  show ?thesis
    using only_valid_playbooks_run [OF reach_starts [OF S(1)]] reach_starts [OF S(1)] S(2)
    by (intro exI [of _ S]) simp
qed


section \<open>Where the code does not exclude two runs\<close>

text \<open>
  C32: As the code has it, with the check and the load in two critical sections, two runs at the
  same time are possible: an upload passes the check, a run starts, the upload loads its playbook
  and sets the status back to loaded, and a second run is accepted.
\<close>

theorem racing_upload_allows_two_runs:
  "\<exists>S. reach sys_init session_step S \<and> length (sy_runs S) = 2"
proof -
  let ?A = "session_loaded"
  let ?B = "?A\<lparr>sy_loads := Suc (sy_loads ?A)\<rparr>"
  have b: "session_step ?A ?B"
    by (rule sys_load_begin [of "''upload''" "''POST''"]) (simp add: can_load loaded_server_idle)
  obtain rs sv r where h: "handle_run (sy_next ?B) 7 0 ''POST'' (sy_server ?B) = (rs, sv, Some r)"
    using loaded_server_ready [of "sy_next ?B" 7 0] by (simp split del: if_split) blast
  let ?C = "?B\<lparr>sy_server := sv, sy_runs := sy_runs ?B @ [r], sy_next := Suc (sy_next ?B)\<rparr>"
  have c: "session_step ?B ?C" by (rule sys_run [OF h])
  let ?D = "?C\<lparr>sy_server := loaded_server (sy_server ?C), sy_loads := 0,
               sy_overtaken := (sy_overtaken ?C \<or> busy_status (sys_status ?C))\<rparr>"
  have d: "session_step ?C ?D" by (rule sys_load_end) (simp_all add: loads_sample)
  obtain rs2 sv2 r2 where h2: "handle_run (sy_next ?D) 8 0 ''POST'' (sy_server ?D) = (rs2, sv2, Some r2)"
    using loaded_server_ready [of "sy_next ?D" 8 0 sv] by (simp split del: if_split) blast
  let ?E = "?D\<lparr>sy_server := sv2, sy_runs := sy_runs ?D @ [r2], sy_next := Suc (sy_next ?D)\<rparr>"
  have e: "session_step ?D ?E" by (rule sys_run [OF h2])
  have "reach sys_init session_step ?B" using session_loaded_reachable b by (rule reach_step)
  then have "reach sys_init session_step ?C" using c by (rule reach_step)
  then have "reach sys_init session_step ?D" using d by (rule reach_step)
  then have "reach sys_init session_step ?E" using e by (rule reach_step)
  then show ?thesis by (intro exI [of _ ?E]) simp
qed

section \<open>What the completion event reports\<close>

lemma observe_keeps_duration [simp]:
  "sn_durationMs (sm_snapshot (sv_state (observe rid ev sv))) = sn_durationMs (sm_snapshot (sv_state sv))"
  by (cases ev) (simp_all add: announce_tracked_def on_snapshot_def add_log_def Let_def split: prod.splits)

lemma observe_all_keeps [simp]:
  "sm_status (sv_state (observe_all rid evs sv)) = sm_status (sv_state sv)"
  "sn_durationMs (sm_snapshot (sv_state (observe_all rid evs sv))) = sn_durationMs (sm_snapshot (sv_state sv))"
  by (induction evs arbitrary: sv) simp_all

lemma observe_all_append: "observe_all rid (es @ fs) sv = observe_all rid fs (observe_all rid es sv)"
  by (induction es arbitrary: sv) simp_all

text \<open>The server of a run when its execution begins: started, with the elevation set up if needed.\<close>

definition execution_begins :: "nat \<Rightarrow> int \<Rightarrow> gotime \<Rightarrow> playbook \<Rightarrow> server \<Rightarrow> server" where
  "execution_begins k nano now pb sv =
     (let sv1 = sv\<lparr>sv_state := start_run k nano now pb (sv_state sv)\<rparr>;
          sv2 = announce_state (run_id nano) sv1
      in if requires_elevation (Some pb) then elevation_done (run_id nano) sv2 else sv2)"

lemma execution_begins_sel [simp]:
  "sm_status (sv_state (execution_begins k nano now pb sv)) = StatusRunning"
  "sn_durationMs (sm_snapshot (sv_state (execution_begins k nano now pb sv)))
     = sn_durationMs (sm_snapshot (sv_state sv))"
  by (simp_all add: execution_begins_def elevation_done_def start_run_def Let_def)

text \<open>
  The completion event of a run that no request cancels always says that the server is running,
  and its duration is
  the one that the snapshot had before the run started, whatever the run did: status and duration
  are only set after the director has returned.
\<close>

lemma completion_event_stale:
  "sv_broker (observe_all rid (evs @ [OnRunComplete t rep]) (execution_begins k nano now pb sv))
     = snd (broadcast ''execution_completed'' rid
              (CompletedData rid StatusRunning (sn_durationMs (sm_snapshot (sv_state sv))))
              (sv_broker (observe_all rid evs (execution_begins k nano now pb sv))))"
  by (simp add: observe_all_append announce_tracked_def on_snapshot_def Let_def split: prod.splits)

end
