(* ===== verification/GoEncoding.thy ===== *)
theory GoEncoding
  imports GoStrings
begin

text \<open>
  The encodings and digests of the Go standard library that the program uses: \<open>encoding/hex\<close>,
  \<open>encoding/base64\<close> (standard alphabet with padding), \<open>crypto/sha256\<close> and \<open>crypto/hmac\<close>, on byte
  strings, with the decoder of base64 as its inverse.
\<close>

unbundle bit_operations_syntax

section \<open>Hexadecimal\<close>

abbreviation byte :: "char \<Rightarrow> nat" where
  "byte c \<equiv> of_char c"

definition hex_char :: "nat \<Rightarrow> char" where
  "hex_char d = (if d < 10 then char_of (48 + d) else char_of (87 + d))"

definition hex_encode :: "string \<Rightarrow> string" where
  "hex_encode s = concat (map (\<lambda>c. [hex_char (byte c div 16), hex_char (byte c mod 16)]) s)"

lemma length_hex_encode [simp]: "length (hex_encode s) = 2 * length s"
  by (induction s) (simp_all add: hex_encode_def)

section \<open>Base64\<close>

definition base64_char :: "nat \<Rightarrow> char" where
  "base64_char v =
     (if v < 26 then char_of (65 + v) else if v < 52 then char_of (71 + v)
      else if v < 62 then char_of (v - 4) else if v = 62 then CHR ''+'' else CHR ''/'')"

definition base64_pad :: char where
  "base64_pad = CHR ''=''"

fun base64_encode :: "string \<Rightarrow> string" where
  "base64_encode [] = []"
| "base64_encode [a] =
     [base64_char (byte a div 4), base64_char (byte a mod 4 * 16), base64_pad, base64_pad]"
| "base64_encode [a, b] =
     [base64_char (byte a div 4), base64_char (byte a mod 4 * 16 + byte b div 16),
      base64_char (byte b mod 16 * 4), base64_pad]"
| "base64_encode (a # b # c # s) =
     [base64_char (byte a div 4), base64_char (byte a mod 4 * 16 + byte b div 16),
      base64_char (byte b mod 16 * 4 + byte c div 64), base64_char (byte c mod 64)]
     @ base64_encode s"

definition base64_value :: "char \<Rightarrow> nat option" where
  "base64_value c =
     (let n = byte c in
      if 65 \<le> n \<and> n \<le> 90 then Some (n - 65)
      else if 97 \<le> n \<and> n \<le> 122 then Some (n - 71)
      else if 48 \<le> n \<and> n \<le> 57 then Some (n + 4)
      else if n = 43 then Some 62 else if n = 47 then Some 63 else None)"

fun base64_decode :: "string \<Rightarrow> string option" where
  "base64_decode [] = Some []"
| "base64_decode (w # x # y # z # s) =
     (case (base64_value w, base64_value x) of
        (Some p, Some q) \<Rightarrow>
          (case (base64_value y, base64_value z) of
             (Some r, Some t) \<Rightarrow>
               map_option (\<lambda>u. char_of (p * 4 + q div 16) # char_of (q mod 16 * 16 + r div 4)
                               # char_of (r mod 4 * 64 + t) # u) (base64_decode s)
           | (Some r, None) \<Rightarrow>
               if z = base64_pad \<and> s = []
               then Some [char_of (p * 4 + q div 16), char_of (q mod 16 * 16 + r div 4)] else None
           | (None, _) \<Rightarrow>
               if y = base64_pad \<and> z = base64_pad \<and> s = []
               then Some [char_of (p * 4 + q div 16)] else None)
      | _ \<Rightarrow> None)"
| "base64_decode s = None"

lemma byte_less [simp]: "byte c < 256"
  by (cases c) (simp add: of_char_def horner_sum_simps)

lemma byte_char_of [simp]: "n < 256 \<Longrightarrow> byte (char_of n) = n"
  by simp

lemma base64_value_char [simp]: "v < 64 \<Longrightarrow> base64_value (base64_char v) = Some v"
  by (auto simp: base64_char_def base64_value_def Let_def)

lemma base64_value_pad [simp]: "base64_value base64_pad = None"
  by (simp add: base64_value_def base64_pad_def)

lemma char_join:
  "char_of (byte a div 4 * 4 + (byte a mod 4 * 16 + q) div 16) = a" if "q < 16" for a q
proof -
  have "(byte a mod 4 * 16 + q) div 16 = byte a mod 4" using that by simp
  then show ?thesis by simp
qed

lemma base64_roundtrip [simp]: "base64_decode (base64_encode s) = Some s"
proof (induction s rule: base64_encode.induct)
  case (2 a)
  have "byte a div 4 < 64" "byte a mod 4 * 16 < 64" using byte_less [of a] by linarith+
  then show ?case using char_join [of 0 a] by simp
next
  case (3 a b)
  have "byte a div 4 < 64" "byte a mod 4 * 16 + byte b div 16 < 64" "byte b mod 16 * 4 < 64"
    "byte b div 16 < 16"
    using byte_less [of a] byte_less [of b] by linarith+
  moreover from this have "(byte a mod 4 * 16 + byte b div 16) mod 16 = byte b div 16" by simp
  ultimately show ?case using char_join [of "byte b div 16" a] by simp
next
  case (4 a b c s)
  have "byte a div 4 < 64" "byte a mod 4 * 16 + byte b div 16 < 64"
    "byte b mod 16 * 4 + byte c div 64 < 64" "byte c mod 64 < 64" "byte b div 16 < 16" "byte c div 64 < 4"
    using byte_less [of a] byte_less [of b] byte_less [of c] by linarith+
  moreover from this have "(byte a mod 4 * 16 + byte b div 16) mod 16 = byte b div 16"
    "(byte b mod 16 * 4 + byte c div 64) div 4 = byte b mod 16"
    "(byte b mod 16 * 4 + byte c div 64) mod 4 = byte c div 64" by simp_all
  ultimately show ?case using char_join [of "byte b div 16" a] 4 by simp
qed simp

section \<open>SHA-256\<close>

text \<open>The round constants and the initial state, in decimal.\<close>

definition sha_k :: "32 word list" where
  "sha_k =
    [1116352408, 1899447441, 3049323471, 3921009573, 961987163, 1508970993, 2453635748, 2870763221,
     3624381080, 310598401, 607225278, 1426881987, 1925078388, 2162078206, 2614888103, 3248222580,
     3835390401, 4022224774, 264347078, 604807628, 770255983, 1249150122, 1555081692, 1996064986,
     2554220882, 2821834349, 2952996808, 3210313671, 3336571891, 3584528711, 113926993, 338241895,
     666307205, 773529912, 1294757372, 1396182291, 1695183700, 1986661051, 2177026350, 2456956037,
     2730485921, 2820302411, 3259730800, 3345764771, 3516065817, 3600352804, 4094571909, 275423344,
     430227734, 506948616, 659060556, 883997877, 958139571, 1322822218, 1537002063, 1747873779,
     1955562222, 2024104815, 2227730452, 2361852424, 2428436474, 2756734187, 3204031479, 3329325298]"

record sha_state =
  sha_a :: "32 word"
  sha_b :: "32 word"
  sha_c :: "32 word"
  sha_d :: "32 word"
  sha_e :: "32 word"
  sha_f :: "32 word"
  sha_g :: "32 word"
  sha_h :: "32 word"

definition sha_init :: sha_state where
  "sha_init = \<lparr>sha_a = 1779033703, sha_b = 3144134277, sha_c = 1013904242, sha_d = 2773480762,
                sha_e = 1359893119, sha_f = 2600822924, sha_g = 528734635, sha_h = 1541459225\<rparr>"

definition rotr :: "nat \<Rightarrow> 32 word \<Rightarrow> 32 word" where
  "rotr n x = drop_bit n x OR push_bit (32 - n) x"

text \<open>The message schedule, latest word first.\<close>

fun sha_schedule :: "nat \<Rightarrow> 32 word list \<Rightarrow> 32 word list" where
  "sha_schedule 0 ws = ws"
| "sha_schedule (Suc n) ws =
     (let w2 = ws ! 1; w7 = ws ! 6; w15 = ws ! 14; w16 = ws ! 15;
          s0 = rotr 7 w15 XOR rotr 18 w15 XOR drop_bit 3 w15;
          s1 = rotr 17 w2 XOR rotr 19 w2 XOR drop_bit 10 w2
      in sha_schedule n ((w16 + s0 + w7 + s1) # ws))"

definition sha_round :: "sha_state \<Rightarrow> 32 word \<times> 32 word \<Rightarrow> sha_state" where
  "sha_round s kw =
     (let e = sha_e s; a = sha_a s;
          t1 = sha_h s + (rotr 6 e XOR rotr 11 e XOR rotr 25 e)
                 + ((e AND sha_f s) XOR ((NOT e) AND sha_g s)) + fst kw + snd kw;
          t2 = (rotr 2 a XOR rotr 13 a XOR rotr 22 a)
                 + ((a AND sha_b s) XOR (a AND sha_c s) XOR (sha_b s AND sha_c s))
      in \<lparr>sha_a = t1 + t2, sha_b = a, sha_c = sha_b s, sha_d = sha_c s, sha_e = sha_d s + t1,
          sha_f = e, sha_g = sha_f s, sha_h = sha_g s\<rparr>)"

definition sha_add :: "sha_state \<Rightarrow> sha_state \<Rightarrow> sha_state" where
  "sha_add s t =
     \<lparr>sha_a = sha_a s + sha_a t, sha_b = sha_b s + sha_b t, sha_c = sha_c s + sha_c t,
      sha_d = sha_d s + sha_d t, sha_e = sha_e s + sha_e t, sha_f = sha_f s + sha_f t,
      sha_g = sha_g s + sha_g t, sha_h = sha_h s + sha_h t\<rparr>"

definition sha_block :: "32 word list \<Rightarrow> sha_state \<Rightarrow> sha_state" where
  "sha_block ws s = sha_add s (foldl sha_round s (zip sha_k (rev (sha_schedule 48 (rev ws)))))"

text \<open>Bytes to words and back, big-endian.\<close>

fun words_of :: "string \<Rightarrow> 32 word list" where
  "words_of (a # b # c # d # s) =
     word_of_nat (((byte a * 256 + byte b) * 256 + byte c) * 256 + byte d) # words_of s"
| "words_of s = []"

definition be_bytes :: "nat \<Rightarrow> nat \<Rightarrow> string" where
  "be_bytes k n = map (\<lambda>i. char_of (n div 256 ^ i mod 256)) (rev [0..<k])"

definition sha_pad :: "string \<Rightarrow> string" where
  "sha_pad s = s @ CHR 0x80 # replicate ((119 - length s mod 64) mod 64) (CHR 0x00)
                 @ be_bytes 8 (8 * length s mod 2 ^ 64)"

function sha_blocks :: "32 word list \<Rightarrow> sha_state \<Rightarrow> sha_state" where
  "sha_blocks ws s = (if ws = [] then s else sha_blocks (drop 16 ws) (sha_block (take 16 ws) s))"
  by pat_completeness auto
termination by (relation "measure (\<lambda>(ws, s). length ws)") auto

declare sha_blocks.simps [simp del]

definition sha256 :: "string \<Rightarrow> string" where
  "sha256 m =
     (let s = sha_blocks (words_of (sha_pad m)) sha_init
      in concat (map (\<lambda>w. be_bytes 4 (unat w))
           [sha_a s, sha_b s, sha_c s, sha_d s, sha_e s, sha_f s, sha_g s, sha_h s]))"

lemma length_sha256 [simp]: "length (sha256 m) = 32"
  by (simp add: sha256_def be_bytes_def Let_def)

section \<open>HMAC\<close>

definition xor_byte :: "nat \<Rightarrow> char \<Rightarrow> char" where
  "xor_byte p c = char_of (byte c XOR p)"

definition hmac_key :: "string \<Rightarrow> string" where
  "hmac_key key =
     (let k = (if 64 < length key then sha256 key else key)
      in k @ replicate (64 - length k) (CHR 0x00))"

definition hmac_sha256 :: "string \<Rightarrow> string \<Rightarrow> string" where
  "hmac_sha256 key m =
     (let k = hmac_key key
      in sha256 (map (xor_byte 0x5c) k @ sha256 (map (xor_byte 0x36) k @ m)))"

end
