(* ===== verification/ReportWriter.thy ===== *)
theory ReportWriter
  imports Destination GoEncoding
begin

text \<open>
  The report writers (\<open>internal/reportwriter\<close>): \<open>WriteToFolder\<close> and \<open>WriteToHTTP\<close>, with the requests
  they send down to the bytes of the body. The file system, the clock, the JSON encoder of
  reports, the multipart boundary and the HTTP transport are parameters; the client that follows
  redirects over that transport is modelled, since the code leaves it to its default policy.
\<close>

section \<open>HTTP requests\<close>

record http_request =
  hq_method :: string
  hq_url :: string
  hq_headers :: strmap
  hq_body :: string

text \<open>\<open>Header.Set\<close>: keys in canonical form, the last value wins.\<close>

definition upper1 :: "char \<Rightarrow> char" where
  "upper1 c = (if 0x61 \<le> (of_char c :: nat) \<and> (of_char c :: nat) \<le> 0x7A
     then char_of ((of_char c :: nat) - 0x20) else c)"

fun canonical_from :: "bool \<Rightarrow> string \<Rightarrow> string" where
  "canonical_from up [] = []"
| "canonical_from up (c # s) =
     (if up then upper1 c else lower1 c) # canonical_from (c = CHR ''-'') s"

definition canonical_key :: "string \<Rightarrow> string" where
  "canonical_key k = (if list_all is_token_char k then canonical_from True k else k)"

definition header_set :: "string \<times> string \<Rightarrow> strmap \<Rightarrow> strmap" where
  "header_set kv hs =
     filter (\<lambda>h. fst h \<noteq> canonical_key (fst kv)) hs @ [(canonical_key (fst kv), snd kv)]"

text \<open>A response: the status, the header Location (empty without one) and the text of the body.\<close>

record http_answer =
  ha_status :: nat
  ha_location :: string
  ha_text :: string

section \<open>The environment\<close>

text \<open>
  \<open>we_do\<close> sends one request. \<open>we_location\<close> resolves a redirect's location against the request
  answered with it and gives the headers to go on with, and \<open>we_client_error\<close> words an error of
  the client; both belong to \<open>net/http\<close>.
\<close>

record 'w writer_env =
  we_stamp :: "'w \<Rightarrow> string"
  we_missing :: "string \<Rightarrow> 'w \<Rightarrow> bool"
  we_mkdir :: "string \<Rightarrow> 'w \<Rightarrow> goerr option \<times> 'w"
  we_write :: "string \<Rightarrow> string \<Rightarrow> 'w \<Rightarrow> goerr option \<times> 'w"
  we_print :: "string \<Rightarrow> 'w \<Rightarrow> 'w"
  we_json :: "final_report \<Rightarrow> goerr + string"
  we_boundary :: "'w \<Rightarrow> string"
  we_request :: "string \<Rightarrow> goerr option"
  we_do :: "http_request \<Rightarrow> 'w \<Rightarrow> (goerr + http_answer) \<times> 'w"
  we_location :: "http_request \<Rightarrow> string \<Rightarrow> goerr + string \<times> strmap"
  we_client_error :: "http_request \<Rightarrow> string \<Rightarrow> goerr"

text \<open>The pictograms of the messages, in UTF-8.\<close>

definition sign_done :: string where
  "sign_done = [CHR 0xE2, CHR 0x9C, CHR 0x85]"

definition sign_chart :: string where
  "sign_chart = [CHR 0xF0, CHR 0x9F, CHR 0x93, CHR 0x8A]"

definition sign_memo :: string where
  "sign_memo = [CHR 0xF0, CHR 0x9F, CHR 0x93, CHR 0x9D]"

definition sign_send :: string where
  "sign_send = [CHR 0xF0, CHR 0x9F, CHR 0x93, CHR 0xA4]"

definition counts_line :: "final_report \<Rightarrow> string" where
  "counts_line rep =
     sign_chart @ '' PASS: '' @ nat_str (fr_passed rep) @ '', FAIL: '' @ nat_str (fr_failed rep) @ nl"

section \<open>Folder\<close>

text \<open>The files in the order they are written; the first failure ends it.\<close>

definition write_or :: "'w writer_env \<Rightarrow> string \<Rightarrow> string \<Rightarrow> string
    \<Rightarrow> ('w \<Rightarrow> goerr option \<times> 'w) \<Rightarrow> 'w \<Rightarrow> goerr option \<times> 'w" where
  "write_or E what file content next w =
     (case we_write E file content w of
        (Some e, w1) \<Rightarrow> (Some (''failed to write '' @ what @ '' file: '' @ e), w1)
      | (None, w1) \<Rightarrow> next w1)"

definition ensure_dir :: "'w writer_env \<Rightarrow> string \<Rightarrow> 'w \<Rightarrow> goerr option \<times> 'w" where
  "ensure_dir E dir w = (if we_missing E dir w then we_mkdir E dir w else (None, w))"

definition write_to_folder ::
    "'w writer_env \<Rightarrow> string \<Rightarrow> final_result \<Rightarrow> 'w \<Rightarrow> goerr option \<times> 'w" where
  "write_to_folder E dir0 res w =
     (let dir = (if dir0 = [] then ''reports'' else dir0);
          base = path_join dir (we_stamp E w @ ''.report'');
          logFile = base @ ''.log''; mdFile = base @ ''.md''; jsonFile = base @ ''.json'' in
      case ensure_dir E dir w of
        (Some e, w1) \<Rightarrow> (Some (''failed to create reports directory: '' @ e), w1)
      | (None, w1) \<Rightarrow>
          write_or E ''log'' logFile (fin_log res)
            (write_or E ''md'' mdFile (fin_markdown res)
              (\<lambda>w2. case we_json E (fin_structured res) of
                 Inl e \<Rightarrow> (Some (''failed to marshal JSON report: '' @ e), w2)
               | Inr json \<Rightarrow>
                   write_or E ''JSON'' jsonFile json
                     (\<lambda>w3. (None,
                        we_print E (nl @ sign_done @ '' Generation Complete!'' @ nl
                          @ counts_line (fin_structured res)
                          @ sign_memo @ '' Log: '' @ logFile @ nl
                          @ sign_memo @ '' Markdown: '' @ mdFile @ nl
                          @ sign_chart @ '' JSON Report: '' @ jsonFile @ nl) w3)) w2)) w1)"

section \<open>Remote submission\<close>

definition calculate_hmac :: "string \<Rightarrow> string \<Rightarrow> string" where
  "calculate_hmac data secret = hex_encode (hmac_sha256 secret data)"

subsection \<open>The JSON payload\<close>

record json_payload =
  jp_json :: string
  jp_jsonSignature :: string
  jp_md :: string
  jp_mdSignature :: string
  jp_log :: string
  jp_logSignature :: string

definition json_payload_of :: "string \<Rightarrow> string \<Rightarrow> final_result \<Rightarrow> json_payload" where
  "json_payload_of secret json res =
     (let j = base64_encode json; m = base64_encode (fin_markdown res); l = base64_encode (fin_log res);
          sig = (\<lambda>d. if secret \<noteq> [] then calculate_hmac d secret else [])
      in \<lparr>jp_json = j, jp_jsonSignature = sig j, jp_md = m, jp_mdSignature = sig m,
          jp_log = l, jp_logSignature = sig l\<rparr>)"

text \<open>
  \<open>json.MarshalIndent\<close> of the payload. Its strings are base64 and hexadecimal, so nothing in them
  is escaped, and the encoding can not fail.
\<close>

definition quoted :: "string \<Rightarrow> string" where
  "quoted s = [CHR 0x22] @ s @ [CHR 0x22]"

definition payload_fields :: "json_payload \<Rightarrow> (string \<times> string) list" where
  "payload_fields p =
     filter (\<lambda>f. snd f \<noteq> [] \<or> fst f \<in> {''json'', ''md'', ''log''})
       [(''json'', jp_json p), (''jsonSignature'', jp_jsonSignature p), (''md'', jp_md p),
        (''mdSignature'', jp_mdSignature p), (''log'', jp_log p), (''logSignature'', jp_logSignature p)]"

definition payload_text :: "json_payload \<Rightarrow> string" where
  "payload_text p =
     ''{'' @ nl
     @ str_join (map (\<lambda>(k, v). ''  '' @ quoted k @ '': '' @ quoted v) (payload_fields p)) ('','' @ nl)
     @ nl @ ''}''"

subsection \<open>The multipart body\<close>

record mime_part =
  mp_filename :: string
  mp_headers :: strmap
  mp_body :: string

definition disposition :: "string \<Rightarrow> string" where
  "disposition name = ''form-data; name='' @ quoted name @ ''; filename='' @ quoted name"

text \<open>
  \<open>addFilePart\<close>: the parts of one file. They are written to a buffer in memory, which can not
  fail. A part's headers are in the order of their keys, as they are written.
\<close>

definition add_file_part :: "string \<Rightarrow> string \<Rightarrow> string \<Rightarrow> string \<Rightarrow> mime_part list" where
  "add_file_part filename contentType content secret =
     (let b64 = base64_encode content; sigFilename = filename @ ''.signature.txt''
      in \<lparr>mp_filename = filename,
          mp_headers = [(''Content-Disposition'', disposition filename),
                        (''Content-Transfer-Encoding'', ''base64''), (''Content-Type'', contentType)],
          mp_body = b64\<rparr>
         # (if secret \<noteq> []
            then [\<lparr>mp_filename = sigFilename,
                   mp_headers = [(''Content-Disposition'', disposition sigFilename),
                                 (''Content-Type'', ''application/octet-stream'')],
                   mp_body = calculate_hmac b64 secret\<rparr>]
            else []))"

definition report_parts :: "string \<Rightarrow> string \<Rightarrow> final_result \<Rightarrow> mime_part list" where
  "report_parts secret json res =
     add_file_part ''report.json'' ''application/json'' json secret
     @ add_file_part ''report.md'' ''text/markdown'' (fin_markdown res) secret
     @ add_file_part ''report.log'' ''text/plain'' (fin_log res) secret"

text \<open>The body as \<open>mime/multipart\<close> writes it.\<close>

definition crlf :: string where
  "crlf = [CHR 0x0D, CHR 0x0A]"

definition part_text :: "string \<Rightarrow> mime_part \<Rightarrow> string" where
  "part_text boundary p =
     ''--'' @ boundary @ crlf @ concat (map (\<lambda>(k, v). k @ '': '' @ v @ crlf) (mp_headers p))
     @ crlf @ mp_body p"

definition multipart_text :: "string \<Rightarrow> mime_part list \<Rightarrow> string" where
  "multipart_text boundary ps =
     str_join (map (part_text boundary) ps) crlf @ crlf @ ''--'' @ boundary @ ''--'' @ crlf"

subsection \<open>The request and its outcome\<close>

definition report_request :: "dest_config \<Rightarrow> string \<Rightarrow> string \<Rightarrow> final_result \<Rightarrow> http_request" where
  "report_request cfg boundary json res =
     (let (ctype, body) =
        (if d_format cfg = report_format_json
         then (''application/json'', payload_text (json_payload_of (d_signatureSecret cfg) json res))
         else (''multipart/form-data; boundary='' @ boundary,
               multipart_text boundary (report_parts (d_signatureSecret cfg) json res)))
      in \<lparr>hq_method = ''POST'', hq_url = d_url cfg,
          hq_headers = fold header_set (d_additionalHeaders cfg) (header_set (''Content-Type'', ctype) []),
          hq_body = body\<rparr>)"

definition submitting_line :: "dest_config \<Rightarrow> string" where
  "submitting_line cfg =
     sign_send @ '' Submitting report to: '' @ d_url cfg @ '' (Format: ''
     @ (if d_format cfg = [] then ''multipart (default)'' else d_format cfg) @ '')'' @ nl"

text \<open>
  The client has no \<open>CheckRedirect\<close>, so \<open>http.Client.Do\<close> follows redirects to any address, up to ten
  requests. After 301, 302 and 303 it goes on with a GET without a body; after 307 and 308 it
  sends method and body again. A response without a location is final. The requests sent are
  listed with their answers.
\<close>

definition next_request ::
    "'w writer_env \<Rightarrow> http_request \<Rightarrow> http_answer \<Rightarrow> (goerr + http_request) option" where
  "next_request E q a =
     (if ha_status a \<notin> {301, 302, 303, 307, 308} \<or> ha_location a = [] then None
      else Some (case we_location E q (ha_location a) of
                   Inl e \<Rightarrow> Inl e
                 | Inr (url, headers) \<Rightarrow>
                     Inr (if ha_status a \<in> {301, 302, 303}
                          then \<lparr>hq_method = ''GET'', hq_url = url, hq_headers = headers, hq_body = []\<rparr>
                          else q\<lparr>hq_url := url, hq_headers := headers\<rparr>)))"

type_synonym exchange = "http_request \<times> http_answer option"

fun client_do ::
    "'w writer_env \<Rightarrow> nat \<Rightarrow> http_request \<Rightarrow> 'w \<Rightarrow> (goerr + http_answer) \<times> exchange list \<times> 'w" where
  "client_do E 0 q w = (Inl (we_client_error E q ''stopped after 10 redirects''), [], w)"
| "client_do E (Suc n) q w =
     (case we_do E q w of
        (Inl e, w1) \<Rightarrow> (Inl e, [(q, None)], w1)
      | (Inr a, w1) \<Rightarrow>
          (case next_request E q a of
             None \<Rightarrow> (Inr a, [(q, Some a)], w1)
           | Some (Inl e) \<Rightarrow> (Inl (we_client_error E q e), [(q, Some a)], w1)
           | Some (Inr q') \<Rightarrow>
               (case client_do E n q' w1 of (r, xs, w2) \<Rightarrow> (r, (q, Some a) # xs, w2))))"

definition max_requests :: nat where
  "max_requests = 10"

definition submission_outcome ::
    "'w writer_env \<Rightarrow> final_report \<Rightarrow> goerr + http_answer \<Rightarrow> 'w \<Rightarrow> goerr option \<times> 'w" where
  "submission_outcome E rep r w1 =
     (case r of
        Inl e \<Rightarrow> (Some (''failed to submit report: '' @ e), w1)
      | Inr a \<Rightarrow>
          if ha_status a < 200 \<or> 300 \<le> ha_status a
          then (Some (''failed to submit report: status '' @ nat_str (ha_status a) @ ''. Response: ''
                      @ ha_text a), w1)
          else (None, we_print E (nl @ sign_done @ '' Submission Complete!'' @ nl @ counts_line rep
                        @ sign_done @ '' Status: '' @ nat_str (ha_status a) @ nl) w1))"

definition submit_report ::
    "'w writer_env \<Rightarrow> dest_config \<Rightarrow> final_result \<Rightarrow> 'w \<Rightarrow> goerr option \<times> exchange list \<times> 'w" where
  "submit_report E cfg res w =
     (if \<not> has_prefix (d_url cfg) ''https://''
      then (Some (''insecure HTTP report submission is not allowed: '' @ d_url cfg), [], w)
      else (case we_json E (fin_structured res) of
              Inl e \<Rightarrow> (Some e, [], w)
            | Inr json \<Rightarrow>
                (case we_request E (d_url cfg) of
                   Some e \<Rightarrow> (Some (''failed to create HTTP request: '' @ e), [], w)
                 | None \<Rightarrow>
                     (case client_do E max_requests (report_request cfg (we_boundary E w) json res)
                             (we_print E (submitting_line cfg) w) of
                        (r, xs, w1) \<Rightarrow>
                          (case submission_outcome E (fin_structured res) r w1 of
                             (err, w2) \<Rightarrow> (err, xs, w2))))))"

text \<open>\<open>WriteToHTTP\<close> itself.\<close>

definition write_to_http ::
    "'w writer_env \<Rightarrow> dest_config \<Rightarrow> final_result \<Rightarrow> 'w \<Rightarrow> goerr option \<times> 'w" where
  "write_to_http E cfg res w = (case submit_report E cfg res w of (err, xs, w') \<Rightarrow> (err, w'))"

text \<open>The writers of the server and of the command line.\<close>

definition report_writers :: "'w writer_env \<Rightarrow> 'w writers" where
  "report_writers E = \<lparr>wr_folder = write_to_folder E, wr_http = write_to_http E\<rparr>"

section \<open>What the receiver gets\<close>

text \<open>
  A receiver that shares the secret: it decodes every file and, with a secret, demands the
  signature of its encoding right after it.
\<close>

definition verified :: "string \<Rightarrow> string \<Rightarrow> string \<Rightarrow> string option" where
  "verified secret b64 sig =
     (if secret = [] \<or> sig = hex_encode (hmac_sha256 secret b64) then base64_decode b64 else None)"

fun received_files :: "string \<Rightarrow> mime_part list \<Rightarrow> (string \<times> string) list option" where
  "received_files secret [] = Some []"
| "received_files secret (p # ps) =
     (if secret = []
      then (case verified secret (mp_body p) [] of
              None \<Rightarrow> None
            | Some d \<Rightarrow> map_option ((#) (mp_filename p, d)) (received_files secret ps))
      else (case ps of
              [] \<Rightarrow> None
            | s # ps' \<Rightarrow>
                if mp_filename s \<noteq> mp_filename p @ ''.signature.txt'' then None
                else (case verified secret (mp_body p) (mp_body s) of
                        None \<Rightarrow> None
                      | Some d \<Rightarrow> map_option ((#) (mp_filename p, d)) (received_files secret ps'))))"

lemma received_file [simp]:
  "received_files secret (add_file_part name ctype content secret @ ps)
     = map_option ((#) (name, content)) (received_files secret ps)"
  by (simp add: add_file_part_def verified_def calculate_hmac_def Let_def)

lemma received_single [simp]:
  "received_files secret (add_file_part name ctype content secret) = Some [(name, content)]"
  using received_file [of secret name ctype content "[]"] by simp

definition received_payload :: "string \<Rightarrow> json_payload \<Rightarrow> (string \<times> string) list option" where
  "received_payload secret p =
     (case (verified secret (jp_json p) (jp_jsonSignature p), verified secret (jp_md p) (jp_mdSignature p),
            verified secret (jp_log p) (jp_logSignature p)) of
        (Some j, Some m, Some l) \<Rightarrow>
          Some [(''report.json'', j), (''report.md'', m), (''report.log'', l)]
      | _ \<Rightarrow> None)"

text \<open>
  C28: In both formats a receiver that shares the secret accepts the submission's signatures and
  decodes exactly the three files of the report; without a secret it decodes them from parts
  without signatures.
\<close>

theorem submission_verifiable:
  "received_files secret (report_parts secret json res)
     = Some [(''report.json'', json), (''report.md'', fin_markdown res), (''report.log'', fin_log res)]
   \<and> received_payload secret (json_payload_of secret json res)
     = Some [(''report.json'', json), (''report.md'', fin_markdown res), (''report.log'', fin_log res)]"
  by (simp add: report_parts_def received_payload_def json_payload_of_def verified_def
      calculate_hmac_def Let_def)

section \<open>What is sent\<close>

text \<open>
  One request and the next: after a permanent or temporary redirect the same body with the same
  method, after the others a GET with no body.
\<close>

definition hop :: "exchange \<Rightarrow> exchange \<Rightarrow> bool" where
  "hop x y \<longleftrightarrow>
     (case x of
        (q, None) \<Rightarrow> False
      | (q, Some a) \<Rightarrow>
          if ha_status a = 307 \<or> ha_status a = 308
          then hq_method (fst y) = hq_method q \<and> hq_body (fst y) = hq_body q
          else ha_status a \<in> {301, 302, 303} \<and> hq_method (fst y) = ''GET'' \<and> hq_body (fst y) = [])"

definition answered_well :: "exchange \<Rightarrow> bool" where
  "answered_well x \<longleftrightarrow> (case snd x of None \<Rightarrow> False | Some a \<Rightarrow> 200 \<le> ha_status a \<and> ha_status a < 300)"

definition succeeds :: "goerr + http_answer \<Rightarrow> bool" where
  "succeeds r \<longleftrightarrow> (case r of Inl e \<Rightarrow> False | Inr a \<Rightarrow> 200 \<le> ha_status a \<and> ha_status a < 300)"

lemma next_request_hop:
  assumes "next_request E q a = Some (Inr q')"
  shows "hop (q, Some a) (q', r)"
  using assms
  by (auto simp: next_request_def hop_def split: if_splits sum.splits prod.splits)

lemma next_request_status: "next_request E q a = Some r \<Longrightarrow> 300 \<le> ha_status a"
  by (auto simp: next_request_def split: if_splits)

lemma client_do_sent:
  assumes "client_do E n q w = (r, xs, w')"
  shows "length xs \<le> n \<and> (n = 0 \<or> xs \<noteq> [] \<and> fst (hd xs) = q) \<and> successively hop xs
    \<and> (n = 0 \<or> (succeeds r \<longleftrightarrow> answered_well (last xs)))"
  using assms
proof (induction E n q w arbitrary: r xs w' rule: client_do.induct)
  case (2 E n q w)
  obtain ra w1 where d: "we_do E q w = (ra, w1)" by (cases "we_do E q w")
  show ?case
  proof (cases "\<exists>a q'. ra = Inr a \<and> next_request E q a = Some (Inr q')")
    case True
    then obtain a q' where a: "ra = Inr a" "next_request E q a = Some (Inr q')" by blast
    obtain r1 ys w2 where c: "client_do E n q' w1 = (r1, ys, w2)" by (cases "client_do E n q' w1")
    have x: "r = r1" "xs = (q, Some a) # ys" using "2.prems" by (simp_all add: d a c)
    note ih = "2.IH" [OF d [symmetric] a(1) a(2) refl c]
    note st = next_request_status [OF a(2)]
    show ?thesis
    proof (cases n)
      case 0
      then show ?thesis using c x st by (auto simp: succeeds_def answered_well_def)
    next
      case (Suc m)
      then have "hd ys = (q', snd (hd ys))" using ih by (simp add: prod_eq_iff)
      then have "hop (q, Some a) (hd ys)" using next_request_hop [OF a(2)] by metis
      then show ?thesis using ih x Suc by (auto simp: successively_Cons)
    qed
  next
    case False
    then show ?thesis using "2.prems" d
      by (auto simp: succeeds_def answered_well_def dest: next_request_status
          split: sum.splits option.splits prod.splits)
  qed
qed (simp add: successively.simps)

lemma submission_outcome_ok: "fst (submission_outcome E rep r w) = None \<longleftrightarrow> succeeds r"
  by (auto simp: submission_outcome_def succeeds_def split: sum.splits)

text \<open>
  C29: What a submission sends. Nothing is sent and nothing is printed unless the configured URL
  is HTTPS. Otherwise at most ten requests are sent; the first is the report's; each further one
  answers a redirect, with the report again after 307 and 308 and without a body after the
  others. The submission succeeds exactly if something was sent and the last request was answered
  with a success status. The address a redirect leads to is not checked: see
  \<open>report_resent_in_the_clear\<close>.
\<close>

theorem submission_sends:
  "case submit_report E cfg res w of (err, xs, w') \<Rightarrow>
     (has_prefix (d_url cfg) ''https://'' \<or> xs = [] \<and> w' = w)
     \<and> length xs \<le> 10
     \<and> (xs = [] \<or> (\<exists>json. we_json E (fin_structured res) = Inr json
                      \<and> fst (hd xs) = report_request cfg (we_boundary E w) json res))
     \<and> successively hop xs
     \<and> (err = None \<longleftrightarrow> xs \<noteq> [] \<and> answered_well (last xs))"
proof -
  consider (unsent) err where "submit_report E cfg res w = (Some err, [], w)"
    | (sent) json where "has_prefix (d_url cfg) ''https://''" "we_json E (fin_structured res) = Inr json"
      "we_request E (d_url cfg) = None"
  proof (cases "has_prefix (d_url cfg) ''https://''")
    case True
    show ?thesis
      by (cases "we_json E (fin_structured res)"; cases "we_request E (d_url cfg)")
        (use True unsent sent in \<open>simp_all add: submit_report_def\<close>)
  qed (use unsent in \<open>simp add: submit_report_def\<close>)
  then show ?thesis
  proof cases
    case unsent
    then show ?thesis by simp
  next
    case sent
    let ?q = "report_request cfg (we_boundary E w) json res"
    obtain r xs w1 where c: "client_do E max_requests ?q (we_print E (submitting_line cfg) w) = (r, xs, w1)"
      by (cases "client_do E max_requests ?q (we_print E (submitting_line cfg) w)")
    obtain err w2 where o: "submission_outcome E (fin_structured res) r w1 = (err, w2)"
      by (cases "submission_outcome E (fin_structured res) r w1")
    have "submit_report E cfg res w = (err, xs, w2)"
      using sent by (simp add: submit_report_def c o)
    moreover have "err = None \<longleftrightarrow> succeeds r"
      using submission_outcome_ok [of E "fin_structured res" r w1] by (simp add: o)
    ultimately show ?thesis
      using client_do_sent [OF c] sent by (simp add: max_requests_def)
  qed
qed

text \<open>
  A server that answers the report with 307 and an address that is not HTTPS gets the whole report
  sent there in the clear, and the submission succeeds: the client is not told to refuse it, as
  the one that fetches remote playbooks is.
\<close>

definition redirecting_env :: "nat writer_env" where
  "redirecting_env =
     \<lparr>we_stamp = (\<lambda>w. []), we_missing = (\<lambda>d w. False), we_mkdir = (\<lambda>d w. (None, w)),
      we_write = (\<lambda>f c w. (None, w)), we_print = (\<lambda>s w. w), we_json = (\<lambda>r. Inr ''{}''),
      we_boundary = (\<lambda>w. ''b''), we_request = (\<lambda>u. None),
      we_do = (\<lambda>q w. (Inr (if w = 0 then \<lparr>ha_status = 307, ha_location = ''http://b'', ha_text = []\<rparr>
                           else \<lparr>ha_status = 200, ha_location = [], ha_text = []\<rparr>), Suc w)),
      we_location = (\<lambda>q loc. Inr (loc, hq_headers q)), we_client_error = (\<lambda>q e. e)\<rparr>"

lemma report_resent_in_the_clear:
  assumes "d_url cfg = ''https://a''"
  shows "\<exists>q1 q2 a1 a2. fst (snd (submit_report redirecting_env cfg res 0)) = [(q1, a1), (q2, a2)]
    \<and> fst (submit_report redirecting_env cfg res 0) = None
    \<and> hq_url q2 = ''http://b'' \<and> hq_method q2 = ''POST'' \<and> hq_body q2 = hq_body q1
    \<and> q1 = report_request cfg ''b'' ''{}'' res"
  using assms
  by (simp add: submit_report_def redirecting_env_def has_prefix_def max_requests_def
      next_request_def submission_outcome_def report_request_def Let_def numeral_eq_Suc
      split: prod.splits)

end
