(* ===== verification/ConfigSource.thy ===== *)
theory ConfigSource
  imports ReportWriter ServerHandlers
begin

text \<open>
  Where a playbook comes from on the command line: the header flags (\<open>internal/headerflags\<close>) and
  \<open>LoadConfig\<close> with its fetch over HTTPS (\<open>internal/configsource\<close>). The file system, the HTTP
  transport and the JSON and YAML decoders are parameters.
\<close>

section \<open>Header flags\<close>

text \<open>A \<open>map[string]string\<close> built by assignments.\<close>

definition map_put :: "string \<Rightarrow> string \<Rightarrow> strmap \<Rightarrow> strmap" where
  "map_put k v m = filter (\<lambda>h. fst h \<noteq> k) m @ [(k, v)]"

definition flag_entry :: "string \<Rightarrow> (string \<times> string) option" where
  "flag_entry val =
     (case str_split2 (CHR '':'') val of
        [k, v] \<Rightarrow> Some (trim_space k, trim_space v)
      | _ \<Rightarrow> None)"

definition add_flag :: "string \<Rightarrow> strmap \<Rightarrow> strmap" where
  "add_flag val m = (case flag_entry val of None \<Rightarrow> m | Some (k, v) \<Rightarrow> map_put k v m)"

definition flags_to_map :: "string list \<Rightarrow> strmap" where
  "flags_to_map flags = fold add_flag flags []"

definition flags_set :: "string \<Rightarrow> string list \<Rightarrow> string list" where
  "flags_set value flags = flags @ [value]"

definition flags_string :: "string list \<Rightarrow> string" where
  "flags_string flags = str_join flags '', ''"

lemma map_of_put [simp]: "map_of (map_put k v m) = (map_of m)(k \<mapsto> v)"
proof
  fix x
  have "map_of (filter (\<lambda>h. fst h \<noteq> k) m) x = (if x = k then None else map_of m x)"
    by (induction m) auto
  then show "map_of (map_put k v m) x = ((map_of m)(k \<mapsto> v)) x"
    by (simp add: map_put_def map_add_def split: option.split)
qed

lemma distinct_map_put: "distinct (map fst m) \<Longrightarrow> distinct (map fst (map_put k v m))"
  by (auto simp: map_put_def distinct_map_filter)

lemma flags_snoc: "flags_to_map (flags @ [val]) = add_flag val (flags_to_map flags)"
  by (simp add: flags_to_map_def)

lemma map_of_flags:
  "map_of (flags_to_map flags) k = map_of (rev (List.map_filter flag_entry flags)) k"
proof (induction flags rule: rev_induct)
  case (snoc val flags)
  show ?case
    by (cases "flag_entry val")
      (auto simp: flags_snoc add_flag_def snoc List.map_filter_def)
qed (simp add: flags_to_map_def List.map_filter_def)

lemma str_split2_first:
  "str_split2 c s = (if c \<in> set s then [takeWhile (\<lambda>x. x \<noteq> c) s, tl (dropWhile (\<lambda>x. x \<noteq> c) s)] else [s])"
  by (induction s) auto

lemma flag_entry_iff:
  "flag_entry val = Some (k, v) \<longleftrightarrow>
     (\<exists>pre post. val = pre @ '':'' @ post \<and> CHR '':'' \<notin> set pre \<and> k = trim_space pre \<and> v = trim_space post)"
proof
  assume "flag_entry val = Some (k, v)"
  then have c: "CHR '':'' \<in> set val"
    and kv: "k = trim_space (takeWhile (\<lambda>x. x \<noteq> CHR '':'') val)"
      "v = trim_space (tl (dropWhile (\<lambda>x. x \<noteq> CHR '':'') val))"
    by (auto simp: flag_entry_def str_split2_first split: if_splits)
  obtain pre post where "val = pre @ CHR '':'' # post" "CHR '':'' \<notin> set pre"
    using c by (meson split_list_first)
  moreover from this have "takeWhile (\<lambda>x. x \<noteq> CHR '':'') val = pre"
    "dropWhile (\<lambda>x. x \<noteq> CHR '':'') val = CHR '':'' # post"
    by (auto simp: takeWhile_append dropWhile_append)
  ultimately show "\<exists>pre post. val = pre @ '':'' @ post \<and> CHR '':'' \<notin> set pre
      \<and> k = trim_space pre \<and> v = trim_space post"
    using kv by auto
next
  assume "\<exists>pre post. val = pre @ '':'' @ post \<and> CHR '':'' \<notin> set pre
      \<and> k = trim_space pre \<and> v = trim_space post"
  then obtain pre post where v: "val = pre @ CHR '':'' # post" "CHR '':'' \<notin> set pre"
    "k = trim_space pre" "v = trim_space post" by auto
  then have "takeWhile (\<lambda>x. x \<noteq> CHR '':'') val = pre"
    "dropWhile (\<lambda>x. x \<noteq> CHR '':'') val = CHR '':'' # post"
    by (auto simp: takeWhile_append dropWhile_append)
  then show "flag_entry val = Some (k, v)" using v by (simp add: flag_entry_def str_split2_first)
qed

text \<open>
  The header flags become a map with one value per name: the value of the last flag with
  that name, where a flag is split at its first colon, name and value trimmed, and a flag without
  a colon is ignored.
\<close>

lemma flags_last_wins:
  "distinct (map fst (flags_to_map flags))
   \<and> map_of (flags_to_map (flags @ [val])) k
       = (if CHR '':'' \<in> set val \<and> k = trim_space (takeWhile (\<lambda>c. c \<noteq> CHR '':'') val)
          then Some (trim_space (tl (dropWhile (\<lambda>c. c \<noteq> CHR '':'') val)))
          else map_of (flags_to_map flags) k)"
proof
  show "distinct (map fst (flags_to_map flags))"
  proof (induction flags rule: rev_induct)
    case (snoc val flags)
    then show ?case by (simp add: flags_snoc add_flag_def distinct_map_put split: option.splits prod.splits)
  qed (simp add: flags_to_map_def)
  show "map_of (flags_to_map (flags @ [val])) k
       = (if CHR '':'' \<in> set val \<and> k = trim_space (takeWhile (\<lambda>c. c \<noteq> CHR '':'') val)
          then Some (trim_space (tl (dropWhile (\<lambda>c. c \<noteq> CHR '':'') val)))
          else map_of (flags_to_map flags) k)"
    by (simp add: flags_snoc add_flag_def flag_entry_def str_split2_first)
qed

section \<open>Loading\<close>

text \<open>
  The parameters: reading a file, the check of \<open>http.NewRequest\<close>, and an HTTP exchange with the
  status, the content type and the body, if it can be read.
\<close>

record config_env =
  ce_read :: "string \<Rightarrow> goerr + string"
  ce_request :: "string \<Rightarrow> goerr option"
  ce_get :: "http_request \<Rightarrow> goerr + nat \<times> string \<times> (goerr + string)"
  ce_decoders :: decoders

definition fetch_request :: "string \<Rightarrow> strmap \<Rightarrow> http_request" where
  "fetch_request url headers =
     \<lparr>hq_method = ''GET'', hq_url = url, hq_headers = fold header_set headers [], hq_body = []\<rparr>"

definition fetch_https_playbook :: "config_env \<Rightarrow> string \<Rightarrow> strmap \<Rightarrow> goerr + string \<times> string" where
  "fetch_https_playbook E url headers =
     (case ce_request E url of
        Some e \<Rightarrow> Inl (''failed to create request: '' @ e)
      | None \<Rightarrow>
          (case ce_get E (fetch_request url headers) of
             Inl e \<Rightarrow> Inl (''failed to fetch remote playbook: '' @ e)
           | Inr (status, ctype, body) \<Rightarrow>
               if status \<noteq> 200
               then Inl (''failed to fetch remote playbook: status '' @ nat_str status)
               else (case body of Inl e \<Rightarrow> Inl e | Inr d \<Rightarrow> Inr (d, ctype))))"

definition is_json_source :: "bool \<Rightarrow> string \<Rightarrow> string \<Rightarrow> bool" where
  "is_json_source isHttps path ctype \<longleftrightarrow>
     has_prefix (to_lower ctype) ''application/json''
     \<or> has_suffix (to_lower path) ''.json'' \<and> \<not> isHttps"

definition read_source :: "config_env \<Rightarrow> string \<Rightarrow> strmap \<Rightarrow> goerr + string \<times> string" where
  "read_source E path headers =
     (if has_prefix path ''https://'' then fetch_https_playbook E path headers
      else (case ce_read E path of Inl e \<Rightarrow> Inl e | Inr d \<Rightarrow> Inr (d, [])))"

definition load_config :: "config_env \<Rightarrow> string \<Rightarrow> strmap \<Rightarrow> goerr + playbook \<times> string" where
  "load_config E path headers =
     (if has_prefix path ''http://''
      then Inl (''insecure HTTP connections are not allowed: '' @ path)
      else (case read_source E path headers of
              Inl e \<Rightarrow> Inl e
            | Inr (data, ctype) \<Rightarrow>
                (let isJson = is_json_source (has_prefix path ''https://'') path ctype in
                 case decode_playbook (ce_decoders E) isJson data of
                   Inl e \<Rightarrow> Inl ((if isJson then ''failed to parse JSON: '' else ''failed to parse YAML: '') @ e)
                 | Inr pb \<Rightarrow> Inr (pb, data))))"

end
