(* ===== verification/Transpile.thy ===== *)
theory Transpile
  imports ConfigSource
begin

text \<open>
  Preprocessing (\<open>internal/transpile\<close>): \<open>Transpile\<close> of one script file, \<open>Preprocess\<close>, which replaces
  every reference to a script file by the transpiled code, and \<open>BakeFile\<close>. Reading files, esbuild,
  the YAML encoder and writing the output are parameters. \<open>Preprocess\<close> works in place and returns
  at the first error; here it returns the new playbook or that error, since its callers give the
  playbook up then.
\<close>

section \<open>One script file\<close>

text \<open>\<open>te_esbuild\<close> takes whether the code is a module, which decides its options.\<close>

record transpile_env =
  te_read :: "string \<Rightarrow> goerr + string"
  te_esbuild :: "bool \<Rightarrow> string \<Rightarrow> goerr + string"

definition is_module :: "string \<Rightarrow> bool" where
  "is_module code \<longleftrightarrow>
     has_prefix (trim_space code) ''export '' \<or> has_prefix (trim_space code) ''import ''
     \<or> str_contains code (nl @ ''export '') \<or> str_contains code (nl @ ''import '')"

definition transpile_file :: "transpile_env \<Rightarrow> string \<Rightarrow> goerr + string" where
  "transpile_file E path =
     (case te_read E path of
        Inl e \<Rightarrow> Inl e
      | Inr code \<Rightarrow>
          (case te_esbuild E (is_module code) code of
             Inl e \<Rightarrow> Inl (''esbuild error: '' @ e)
           | Inr js \<Rightarrow>
               if is_module code
               then Inr (''(function(){var exports={};var module={exports:exports};'' @ js
                         @ '';return module.exports.default||module.exports})()'')
               else Inr (trim_space js)))"

section \<open>The playbook\<close>

definition ok_then :: "goerr + 'a \<Rightarrow> ('a \<Rightarrow> goerr + 'b) \<Rightarrow> goerr + 'b" where
  "ok_then r f = (case r of Inl e \<Rightarrow> Inl e | Inr x \<Rightarrow> f x)"

fun each_ok :: "('a \<Rightarrow> goerr + 'b) \<Rightarrow> 'a list \<Rightarrow> goerr + 'b list" where
  "each_ok f [] = Inr []"
| "each_ok f (x # xs) = ok_then (f x) (\<lambda>y. ok_then (each_ok f xs) (\<lambda>ys. Inr (y # ys)))"

lemma ok_then_Inr [simp]: "ok_then r f = Inr y \<longleftrightarrow> (\<exists>x. r = Inr x \<and> f x = Inr y)"
  by (cases r) (auto simp: ok_then_def)

lemma ok_then_value [simp]: "ok_then (Inr x) f = f x"
  by (simp add: ok_then_def)

lemma each_ok_iff: "each_ok f xs = Inr ys \<longleftrightarrow> list_all2 (\<lambda>x y. f x = Inr y) xs ys"
  by (induction xs arbitrary: ys) (auto simp: list_all2_Cons1)

text \<open>The code that replaces a reference, and the reference that is left: none.\<close>

definition replaced :: "transpile_env \<Rightarrow> string \<Rightarrow> string \<Rightarrow> string \<Rightarrow> string \<Rightarrow> goerr + string" where
  "replaced E base what file code =
     (if file = [] then Inr code
      else (case transpile_file E (path_join base file) of
              Inl e \<Rightarrow> Inl (''transpilation error for '' @ what @ '' ('' @ file @ ''): '' @ e)
            | Inr js \<Rightarrow> Inr js))"

definition process_gather :: "transpile_env \<Rightarrow> string \<Rightarrow> gather_spec \<Rightarrow> goerr + gather_spec" where
  "process_gather E base g =
     ok_then (replaced E base ''gather funcFile'' (g_funcFile g) (g_func g))
       (\<lambda>code. Inr (g\<lparr>g_func := code, g_funcFile := []\<rparr>))"

definition process_exec :: "transpile_env \<Rightarrow> string \<Rightarrow> exec \<Rightarrow> goerr + exec" where
  "process_exec E base e =
     ok_then (replaced E base ''shellFuncFile'' (e_shellFuncFile e) (e_shellFunc e))
       (\<lambda>sh. ok_then (replaced E base ''funcFile'' (e_funcFile e) (e_func e))
         (\<lambda>fn. ok_then (each_ok (process_gather E base) (e_gather e))
           (\<lambda>gs. Inr (e\<lparr>e_shellFunc := sh, e_shellFuncFile := [], e_func := fn, e_funcFile := [],
                        e_gather := gs\<rparr>))))"

definition process_eval_rule :: "transpile_env \<Rightarrow> string \<Rightarrow> evaluation_rule \<Rightarrow> goerr + evaluation_rule" where
  "process_eval_rule E base r =
     ok_then (replaced E base ''evaluationRule funcFile'' (r_funcFile r) (r_func r))
       (\<lambda>code. Inr (r\<lparr>r_func := code, r_funcFile := []\<rparr>))"

definition process_cmd :: "transpile_env \<Rightarrow> string \<Rightarrow> cmd \<Rightarrow> goerr + cmd" where
  "process_cmd E base c =
     ok_then (process_exec E base (c_exec c))
       (\<lambda>e. ok_then (process_eval_rule E base (c_stdOutRule c))
         (\<lambda>ro. ok_then (process_eval_rule E base (c_stdErrRule c))
           (\<lambda>re. Inr (c\<lparr>c_exec := e, c_stdOutRule := ro, c_stdErrRule := re\<rparr>))))"

definition process_assertion :: "transpile_env \<Rightarrow> string \<Rightarrow> assertion \<Rightarrow> goerr + assertion" where
  "process_assertion E base a =
     ok_then (each_ok (process_exec E base) (a_preCmds a))
       (\<lambda>pre. ok_then (each_ok (process_cmd E base) (a_cmds a))
         (\<lambda>cs. ok_then (each_ok (process_exec E base) (a_postCmds a))
           (\<lambda>post. Inr (a\<lparr>a_preCmds := pre, a_cmds := cs, a_postCmds := post\<rparr>))))"

definition process_section :: "transpile_env \<Rightarrow> string \<Rightarrow> pb_section \<Rightarrow> goerr + pb_section" where
  "process_section E base s =
     ok_then (each_ok (process_assertion E base) (s_assertions s)) (\<lambda>as. Inr (s\<lparr>s_assertions := as\<rparr>))"

definition preprocess :: "transpile_env \<Rightarrow> string \<Rightarrow> playbook \<Rightarrow> goerr + playbook" where
  "preprocess E base pb =
     ok_then (each_ok (process_section E base) (p_sections pb)) (\<lambda>ss. Inr (pb\<lparr>p_sections := ss\<rparr>))"

section \<open>Baking a file\<close>

record 'w bake_env =
  be_config :: config_env
  be_transpile :: transpile_env
  be_yaml :: "playbook \<Rightarrow> goerr + string"
  be_write :: "string \<Rightarrow> string \<Rightarrow> 'w \<Rightarrow> goerr option \<times> 'w"

definition baked_playbook :: "'w bake_env \<Rightarrow> string \<Rightarrow> goerr + playbook" where
  "baked_playbook E input =
     (case load_config (be_config E) input [] of
        Inl e \<Rightarrow> Inl (''failed to load input: '' @ e)
      | Inr (pb, data) \<Rightarrow>
          ok_then (preprocess (be_transpile E) (path_dir input) pb)
            (\<lambda>pb'. if validate False pb' \<noteq> []
                   then Inl (''validation error: '' @ validation_errors_text (validate False pb'))
                   else Inr pb'))"

definition bake_file :: "'w bake_env \<Rightarrow> string \<Rightarrow> string \<Rightarrow> 'w \<Rightarrow> goerr option \<times> 'w" where
  "bake_file E input output w =
     (if has_prefix input ''https://''
      then (Some (''baking remote playbooks is not supported as relative paths to external ''
                  @ ''script files would break''), w)
      else if path_clean input = path_clean output
      then (Some (''input and output cannot point to the same file: '' @ input), w)
      else (case baked_playbook E input of
              Inl e \<Rightarrow> (Some e, w)
            | Inr pb \<Rightarrow>
                (case be_yaml E pb of
                   Inl e \<Rightarrow> (Some (''failed to marshal YAML: '' @ e), w)
                 | Inr text \<Rightarrow>
                     (case be_write E output text w of
                        (Some e, w1) \<Rightarrow> (Some (''failed to write output: '' @ e), w1)
                      | (None, w1) \<Rightarrow> (None, w1)))))"

section \<open>Baked playbooks\<close>

text \<open>No reference to a script file is left, in any place.\<close>

definition baked_exec :: "exec \<Rightarrow> bool" where
  "baked_exec e \<longleftrightarrow> agent_exec_ok e \<and> list_all (\<lambda>g. g_funcFile g = []) (e_gather e)"

definition baked_assertion :: "assertion \<Rightarrow> bool" where
  "baked_assertion a \<longleftrightarrow> list_all baked_exec (a_preCmds a)
     \<and> list_all (\<lambda>c. baked_exec (c_exec c) \<and> r_funcFile (c_stdOutRule c) = []
          \<and> r_funcFile (c_stdErrRule c) = []) (a_cmds a)
     \<and> list_all baked_exec (a_postCmds a)"

lemma baked_assertion_ok: "baked_assertion a \<Longrightarrow> agent_assertion_ok a"
  by (auto simp: baked_assertion_def agent_assertion_ok_def agent_cmd_ok_def baked_exec_def list_all_iff)

lemma list_all2_list_all: "list_all2 (\<lambda>x y. f x = Inr y) xs ys \<Longrightarrow> (\<And>x y. f x = Inr y \<Longrightarrow> P y) \<Longrightarrow> list_all P ys"
  by (induction rule: list_all2_induct) auto

lemma each_ok_all: "each_ok f xs = Inr ys \<Longrightarrow> (\<And>x y. f x = Inr y \<Longrightarrow> P y) \<Longrightarrow> list_all P ys"
  unfolding each_ok_iff by (rule list_all2_list_all)

lemma process_gather_baked: "process_gather E base g = Inr g' \<Longrightarrow> g_funcFile g' = []"
  by (auto simp: process_gather_def)

lemma process_exec_baked: "process_exec E base e = Inr e' \<Longrightarrow> baked_exec e'"
  by (auto simp: process_exec_def baked_exec_def agent_exec_ok_def
      intro: each_ok_all process_gather_baked)

lemma process_cmd_baked:
  "process_cmd E base c = Inr c'
     \<Longrightarrow> baked_exec (c_exec c') \<and> r_funcFile (c_stdOutRule c') = [] \<and> r_funcFile (c_stdErrRule c') = []"
  by (auto simp: process_cmd_def process_eval_rule_def process_exec_baked)

lemma process_assertion_baked:
  assumes "process_assertion E base a = Inr a'"
  shows "baked_assertion a' \<and> a_code a' = a_code a"
  using assms
  by (auto simp: process_assertion_def baked_assertion_def
      intro: each_ok_all process_exec_baked intro!: each_ok_all [OF _ process_cmd_baked])

lemma process_section_baked:
  assumes "process_section E base s = Inr s'"
  shows "list_all baked_assertion (s_assertions s') \<and> s_title s' = s_title s
    \<and> map a_code (s_assertions s') = map a_code (s_assertions s)"
proof -
  obtain as where l: "list_all2 (\<lambda>x y. process_assertion E base x = Inr y) (s_assertions s) as"
    and s': "s' = s\<lparr>s_assertions := as\<rparr>"
    using assms by (auto simp: process_section_def each_ok_iff)
  from l have "list_all baked_assertion as \<and> map a_code as = map a_code (s_assertions s)"
    by (induction rule: list_all2_induct) (simp_all add: process_assertion_baked)
  then show ?thesis by (simp add: s')
qed

lemma preprocess_sections:
  assumes "preprocess E base pb = Inr pb'"
  shows "pb' = pb\<lparr>p_sections := p_sections pb'\<rparr>
    \<and> list_all2 (\<lambda>s s'. process_section E base s = Inr s') (p_sections pb) (p_sections pb')"
  using assms by (auto simp: preprocess_def each_ok_iff)

text \<open>Preprocessing what is already baked changes nothing and reads nothing.\<close>

lemma each_ok_id: "list_all P xs \<Longrightarrow> (\<And>x. P x \<Longrightarrow> f x = Inr x) \<Longrightarrow> each_ok f xs = Inr xs"
  by (induction xs) simp_all

lemma process_gather_id: "g_funcFile g = [] \<Longrightarrow> process_gather E base g = Inr g"
  by (simp add: process_gather_def replaced_def)

lemma process_exec_id:
  assumes "baked_exec e"
  shows "process_exec E base e = Inr e"
proof -
  have g: "each_ok (process_gather E base) (e_gather e) = Inr (e_gather e)"
    by (rule each_ok_id [of "\<lambda>g. g_funcFile g = []"])
      (use assms in \<open>simp_all add: baked_exec_def process_gather_id\<close>)
  show ?thesis
    using assms
    by (cases e) (use g in \<open>simp add: process_exec_def baked_exec_def agent_exec_ok_def replaced_def
      del: ok_then_Inr\<close>)
qed

lemma process_cmd_id:
  "baked_exec (c_exec c) \<and> r_funcFile (c_stdOutRule c) = [] \<and> r_funcFile (c_stdErrRule c) = []
     \<Longrightarrow> process_cmd E base c = Inr c"
  by (simp add: process_cmd_def process_eval_rule_def process_exec_id replaced_def)

lemma process_assertion_id:
  assumes "baked_assertion a"
  shows "process_assertion E base a = Inr a"
proof -
  have "each_ok (process_exec E base) (a_preCmds a) = Inr (a_preCmds a)"
    "each_ok (process_exec E base) (a_postCmds a) = Inr (a_postCmds a)"
    by (rule each_ok_id [of baked_exec];
        use assms in \<open>simp add: baked_assertion_def process_exec_id\<close>)+
  moreover have "each_ok (process_cmd E base) (a_cmds a) = Inr (a_cmds a)"
    by (rule each_ok_id [of "\<lambda>c. baked_exec (c_exec c) \<and> r_funcFile (c_stdOutRule c) = []
          \<and> r_funcFile (c_stdErrRule c) = []"]; (rule process_cmd_id)?)
      (use assms in \<open>simp_all add: baked_assertion_def list_all_iff\<close>)
  ultimately show ?thesis by (simp add: process_assertion_def del: ok_then_Inr)
qed

lemma process_section_id: "list_all baked_assertion (s_assertions s) \<Longrightarrow> process_section E base s = Inr s"
  by (simp add: process_section_def each_ok_id [OF _ process_assertion_id])

lemma sections_agree:
  assumes "list_all2 (\<lambda>s s'. process_section E base s = Inr s') ss ss'"
  shows "concat (map (map a_code \<circ> s_assertions) ss') = concat (map (map a_code \<circ> s_assertions) ss)
    \<and> map (\<lambda>s. (s_title s, s_assertions s = [])) ss' = map (\<lambda>s. (s_title s, s_assertions s = [])) ss
    \<and> list_all (\<lambda>s. list_all baked_assertion (s_assertions s)) ss'"
  using assms
proof (induction rule: list_all2_induct)
  case (Cons s ss s' ss')
  note b = process_section_baked [OF Cons(1)]
  have "(s_assertions s' = []) = (s_assertions s = [])" using b by (metis map_is_Nil_conv)
  then show ?case using b Cons(3) by simp
qed simp

lemma baked_sections_ok:
  "list_all (\<lambda>s. list_all baked_assertion (s_assertions s)) ss
     \<Longrightarrow> list_all agent_assertion_ok (concat (map s_assertions ss))"
proof (induction ss)
  case (Cons s ss)
  then have "list_all agent_assertion_ok (s_assertions s)"
    using list.pred_mono_strong [of baked_assertion _ agent_assertion_ok] baked_assertion_ok by auto
  with Cons show ?case by simp
qed simp

lemma preprocess_valid:
  assumes "preprocess E base pb = Inr pb'"
  shows "valid_playbook True pb' \<longleftrightarrow> valid_playbook False pb"
proof -
  have pb': "pb' = pb\<lparr>p_sections := p_sections pb'\<rparr>"
    and l: "list_all2 (\<lambda>s s'. process_section E base s = Inr s') (p_sections pb) (p_sections pb')"
    using preprocess_sections [OF assms] by auto
  note g = sections_agree [OF l]
  have codes: "map a_code (all_assertions pb') = map a_code (all_assertions pb)"
    using g by (simp add: all_assertions_def map_concat comp_def)
  have "list_all (\<lambda>c. trim_space c \<noteq> []) (map a_code (all_assertions pb'))
      = list_all (\<lambda>c. trim_space c \<noteq> []) (map a_code (all_assertions pb))"
    by (simp only: codes)
  then have blank: "(\<forall>a \<in> set (all_assertions pb'). trim_space (a_code a) \<noteq> [])
      = (\<forall>a \<in> set (all_assertions pb). trim_space (a_code a) \<noteq> [])"
    by (simp add: list_all_iff)
  have "list_all agent_assertion_ok (all_assertions pb')"
    unfolding all_assertions_def by (rule baked_sections_ok) (simp add: g)
  moreover have "list_all (\<lambda>(x, e). title_ok x \<and> \<not> e)
        (map (\<lambda>s. (s_title s, s_assertions s = [])) (p_sections pb'))
      = list_all (\<lambda>(x, e). title_ok x \<and> \<not> e)
        (map (\<lambda>s. (s_title s, s_assertions s = [])) (p_sections pb))"
    using g by simp
  then have "(\<forall>s \<in> set (p_sections pb'). title_ok (s_title s) \<and> s_assertions s \<noteq> [])
      = (\<forall>s \<in> set (p_sections pb). title_ok (s_title s) \<and> s_assertions s \<noteq> [])"
    by (simp add: list_all_iff)
  moreover have "p_title pb' = p_title pb" "destination_ok pb' = destination_ok pb"
    by (subst pb', simp add: destination_ok_def)+
  moreover have "p_sections pb' = [] \<longleftrightarrow> p_sections pb = []" using l by auto
  ultimately show ?thesis using codes blank by (simp add: valid_playbook_def)
qed

lemma preprocess_again:
  assumes "preprocess E base pb = Inr pb'"
  shows "preprocess E' base' pb' = Inr pb'"
proof -
  have "list_all (\<lambda>s. list_all baked_assertion (s_assertions s)) (p_sections pb')"
    using preprocess_sections [OF assms] sections_agree by blast
  then have "each_ok (process_section E' base') (p_sections pb') = Inr (p_sections pb')"
    by (rule each_ok_id) (rule process_section_id)
  then show ?thesis by (simp add: preprocess_def del: ok_then_Inr)
qed

text \<open>
  C30: A successful preprocessing makes a valid playbook acceptable to an agent, and only such a
  one: the result passes the agent's validation exactly if the raw playbook passes the builder's;
  and preprocessing the result again leaves it as it is, without reading any file.
\<close>

theorem preprocess_bakes:
  assumes "preprocess E base pb = Inr pb'"
  shows "(valid_playbook True pb' \<longleftrightarrow> valid_playbook False pb) \<and> preprocess E' base' pb' = Inr pb'"
  using preprocess_valid [OF assms] preprocess_again [OF assms] by blast

text \<open>
  The text is the encoding of what preprocessing makes of the input, relative to the input's
  directory; input and result are valid, the one for the builder, the other for an agent.
\<close>

definition baked_from :: "'w bake_env \<Rightarrow> string \<Rightarrow> string \<Rightarrow> bool" where
  "baked_from E input yaml \<longleftrightarrow>
     (\<exists>raw data pb. load_config (be_config E) input [] = Inr (raw, data)
        \<and> preprocess (be_transpile E) (path_dir input) raw = Inr pb
        \<and> valid_playbook False raw \<and> valid_playbook True pb \<and> be_yaml E pb = Inr yaml)"

lemma baked_playbook_from:
  assumes "baked_playbook E input = Inr pb" and "be_yaml E pb = Inr yaml"
  shows "baked_from E input yaml"
proof -
  obtain raw data where l: "load_config (be_config E) input [] = Inr (raw, data)"
    and p: "preprocess (be_transpile E) (path_dir input) raw = Inr pb"
    and v: "validate False pb = []"
    using assms(1) by (auto simp: baked_playbook_def split: sum.splits if_splits)
  have "valid_playbook True pb \<longleftrightarrow> valid_playbook False pb"
    by (rule preprocess_valid [OF preprocess_again [OF p]])
  then have "valid_playbook True pb" using v by (simp add: validate_valid)
  then show ?thesis
    using l p assms(2) preprocess_valid [OF p] unfolding baked_from_def by blast
qed

text \<open>
  C31: Baking either fails and touches nothing, or makes exactly one write, to the output, of the
  encoding of a playbook that an agent accepts, made by preprocessing a valid input; it succeeds
  exactly if that write does. The input is not protected from being the file written:
  see \<open>bake_overwrites_input\<close>.
\<close>

theorem bake_file_writes_valid:
  "case bake_file E input output w of (err, w') \<Rightarrow>
     err \<noteq> None \<and> w' = w
     \<or> (\<exists>yaml r. baked_from E input yaml \<and> be_write E output yaml w = (r, w')
          \<and> (err = None \<longleftrightarrow> r = None))"
proof -
  obtain err w' where f: "bake_file E input output w = (err, w')"
    by (cases "bake_file E input output w")
  consider "err \<noteq> None" "w' = w"
    | pb yaml r where "baked_playbook E input = Inr pb" "be_yaml E pb = Inr yaml"
        "be_write E output yaml w = (r, w')" "err = None \<longleftrightarrow> r = None"
    using f
    by (simp add: bake_file_def split: if_splits sum.splits prod.splits option.splits; fastforce)
  then show ?thesis by cases (use f baked_playbook_from in fastforce)+
qed

section \<open>A raw playbook\<close>

definition sample_transpile :: transpile_env where
  "sample_transpile = \<lparr>te_read = (\<lambda>p. if p = ''pb/a.ts'' then Inr ''1'' else Inl ''none''),
                       te_esbuild = (\<lambda>m code. Inr code)\<rparr>"

definition raw_assertion :: assertion where
  "raw_assertion = (plain_assertion ''A1'' [''true''])\<lparr>a_preCmds := [(plain_exec [])\<lparr>e_funcFile := ''a.ts''\<rparr>]\<rparr>"

definition baked_sample_assertion :: assertion where
  "baked_sample_assertion =
     (plain_assertion ''A1'' [''true''])\<lparr>a_preCmds := [(plain_exec [])\<lparr>e_func := ''1''\<rparr>]\<rparr>"

definition with_assertion :: "assertion \<Rightarrow> playbook" where
  "with_assertion a =
     sample_playbook\<lparr>p_sections := [\<lparr>s_title = ''one'', s_description = [], s_assertions = [a]\<rparr>]\<rparr>"

lemma transpile_sample: "transpile_file sample_transpile (path_join ''pb'' ''a.ts'') = Inr ''1''"
  by code_simp

lemma preprocess_sample:
  "preprocess sample_transpile ''pb'' (with_assertion raw_assertion) = Inr (with_assertion baked_sample_assertion)"
  by (simp add: preprocess_def process_section_def process_assertion_def process_exec_def process_cmd_def
      process_eval_rule_def replaced_def with_assertion_def raw_assertion_def baked_sample_assertion_def
      plain_assertion_def plain_exec_def plain_cmd_def no_rule_def transpile_sample)

lemma raw_sample_valid: "valid_playbook False (with_assertion raw_assertion)"
proof -
  have t: "trim_space ''sample'' = ''sample''" "trim_space ''one'' = ''one''" "trim_space ''A1'' = ''A1''"
    by (code_simp, code_simp, code_simp)
  then show ?thesis
    by (simp add: valid_playbook_def title_ok_def destination_ok_def all_assertions_def
        with_assertion_def raw_assertion_def sample_playbook_def plain_assertion_def playbook_enums)
qed

lemma preprocess_bakes_witness:
  "valid_playbook True (with_assertion baked_sample_assertion)
   \<and> preprocess sample_transpile ''x'' (with_assertion baked_sample_assertion)
       = Inr (with_assertion baked_sample_assertion)"
  using preprocess_bakes [OF preprocess_sample] raw_sample_valid by blast

definition sample_bake :: "(string \<times> string) list bake_env" where
  "sample_bake =
     \<lparr>be_config = \<lparr>ce_read = (\<lambda>p. Inr []), ce_request = (\<lambda>u. None), ce_get = (\<lambda>r. Inl []),
                   ce_decoders = \<lparr>dec_json = (\<lambda>d. Inl []),
                                  dec_yaml = (\<lambda>d. Inr (with_assertion raw_assertion))\<rparr>\<rparr>,
      be_transpile = sample_transpile, be_yaml = (\<lambda>pb. Inr ''baked''),
      be_write = (\<lambda>path data w. (None, (path, data) # w))\<rparr>"

lemma bake_sample:
  "bake_file sample_bake ''pb/raw.yaml'' ''out.yaml'' [] = (None, [(''out.yaml'', ''baked'')])"
proof -
  have "path_dir ''pb/raw.yaml'' = ''pb''" "path_clean ''pb/raw.yaml'' = ''pb/raw.yaml''"
    "path_clean ''out.yaml'' = ''out.yaml''"
    by (code_simp, code_simp, code_simp)
  moreover have "has_suffix (to_lower ''pb/raw.yaml'') ''.json'' = False"
    "has_prefix (to_lower []) ''application/json'' = False" by (code_simp, code_simp)
  moreover have "has_prefix ''pb/raw.yaml'' ''https://'' = False" "has_prefix ''pb/raw.yaml'' ''http://'' = False"
    by (code_simp, code_simp)
  moreover have "validate False (with_assertion baked_sample_assertion) = []"
    using preprocess_valid [OF preprocess_again [OF preprocess_sample]]
      preprocess_valid [OF preprocess_sample] raw_sample_valid
    by (simp add: validate_valid)
  ultimately show ?thesis
    by (simp add: bake_file_def baked_playbook_def load_config_def read_source_def is_json_source_def
        decode_playbook_def sample_bake_def preprocess_sample Let_def)
qed

lemma be_write_sample: "be_write sample_bake path data w = (None, (path, data) # w)"
  by (simp add: sample_bake_def)

lemma bake_file_writes_valid_witness:
  "baked_from sample_bake ''pb/raw.yaml'' ''baked''"
  using bake_file_writes_valid [of "[]" sample_bake "''pb/raw.yaml''" "''out.yaml''"]
  by (auto simp: bake_sample be_write_sample)

text \<open>
  The check that input and output differ compares the two paths as they are given: the input named
  by a relative path and the output by the absolute path of the same file pass it, and the source
  playbook is overwritten with the baked one.
\<close>

lemma bake_overwrites_input:
  assumes "baked_playbook E ''raw.yaml'' = Inr pb" and "be_yaml E pb = Inr yaml"
  shows "path_abs (Some ''/w'') ''raw.yaml'' = path_abs (Some ''/w'') ''/w/raw.yaml''
    \<and> snd (bake_file E ''raw.yaml'' ''/w/raw.yaml'' w) = snd (be_write E ''/w/raw.yaml'' yaml w)"
proof -
  have "path_abs (Some ''/w'') ''raw.yaml'' = path_abs (Some ''/w'') ''/w/raw.yaml''"
    "path_clean ''raw.yaml'' \<noteq> path_clean ''/w/raw.yaml''" "\<not> has_prefix ''raw.yaml'' ''https://''"
    by (code_simp, code_simp, code_simp)
  then show ?thesis
    using assms by (simp add: bake_file_def split: prod.splits option.splits)
qed

end
