(* ===== verification/Elevation.thy ===== *)
theory Elevation
  imports LocalRunner
begin

text \<open>
  The elevated worker (\<open>internal/elevation\<close>): the wire protocol, the client (\<open>Client\<close>), the worker
  (\<open>RunWorker\<close>) and \<open>SetupElevation\<close>. Spawning, listening, accepting and dialling are parameters;
  so are sending and receiving where an operation stands alone. A message arrives as it was sent:
  JSON keeps valid UTF-8, which scripts out of a YAML or JSON playbook and outputs out of
  \<open>CleanupOutput\<close> are. ElevationLink puts client and worker together as a transition system.
\<close>

section \<open>Messages\<close>

abbreviation MsgTypeExec :: string where "MsgTypeExec \<equiv> ''exec''"
abbreviation MsgTypeResult :: string where "MsgTypeResult \<equiv> ''result''"
abbreviation MsgTypePing :: string where "MsgTypePing \<equiv> ''ping''"
abbreviation MsgTypePong :: string where "MsgTypePong \<equiv> ''pong''"
abbreviation MsgTypeShutdown :: string where "MsgTypeShutdown \<equiv> ''shutdown''"

record wire_message =
  wm_type :: string
  wm_id :: string
  wm_exec :: "execution_request option"
  wm_result :: "execution_result option"
  wm_error :: string

definition wire :: "string \<Rightarrow> string \<Rightarrow> wire_message" where
  "wire kind i = \<lparr>wm_type = kind, wm_id = i, wm_exec = None, wm_result = None, wm_error = []\<rparr>"

section \<open>The client\<close>

text \<open>The sequence counter is a \<open>uint64\<close>; commands and pings share it.\<close>

record client =
  cl_seq :: "64 word"
  cl_closed :: bool

definition request_id :: "64 word \<Rightarrow> string" where
  "request_id n = ''req-'' @ nat_str (unat n)"

definition ping_id :: "64 word \<Rightarrow> string" where
  "ping_id n = ''ping-'' @ nat_str (unat n)"

definition exec_message :: "string \<Rightarrow> execution_request \<Rightarrow> wire_message" where
  "exec_message i req = (wire MsgTypeExec i)\<lparr>wm_exec := Some req\<rparr>"

text \<open>
  \<open>Run\<close> up to the sending of the request: the error it returns at once, or the message and its
  id. \<open>ctx\<close> is the error of the context, if it is done.
\<close>

definition run_begin ::
    "goerr option \<Rightarrow> execution_request \<Rightarrow> client \<Rightarrow> (goerr + string \<times> wire_message) \<times> client" where
  "run_begin ctx req c =
     (if cl_closed c then (Inl ''client closed'', c)
      else (case ctx of
              Some e \<Rightarrow> (Inl e, c)
            | None \<Rightarrow>
                (let n = cl_seq c + 1; i = request_id n
                 in (Inr (i, exec_message i req), c\<lparr>cl_seq := n\<rparr>))))"

text \<open>\<open>Run\<close> after the sending: what it makes of the received message, or of the failure.\<close>

definition run_response :: "string \<Rightarrow> goerr + wire_message \<Rightarrow> execution_result \<times> goerr option" where
  "run_response i r =
     (case r of
        Inl e \<Rightarrow> (empty_result, Some (''failed to receive exec response: '' @ e))
      | Inr resp \<Rightarrow>
          if wm_id resp \<noteq> i
          then (empty_result, Some (''mismatched response ID: got '' @ wm_id resp @ '', want '' @ i))
          else if wm_error resp \<noteq> []
          then ((case wm_result resp of None \<Rightarrow> empty_result | Some res \<Rightarrow> res),
                Some (''elevated worker error: '' @ wm_error resp))
          else (case wm_result resp of
                  None \<Rightarrow> (empty_result, Some ''nil result from elevated worker'')
                | Some res \<Rightarrow> (res, None)))"

text \<open>
  The whole of \<open>Run\<close>: the error of sending, then what the call waits for, its context or a response.
\<close>

datatype await = CallCancelled goerr | Received "goerr + wire_message"

definition client_run ::
    "goerr option \<Rightarrow> (wire_message \<Rightarrow> goerr option) \<Rightarrow> (wire_message \<Rightarrow> await) \<Rightarrow> execution_request \<Rightarrow> client
     \<Rightarrow> (execution_result \<times> goerr option) \<times> client" where
  "client_run ctx send wait req c =
     (case run_begin ctx req c of
        (Inl e, c1) \<Rightarrow> ((empty_result, Some e), c1)
      | (Inr (i, msg), c1) \<Rightarrow>
          ((case send msg of
              Some e \<Rightarrow> (empty_result, Some (''failed to send exec request: '' @ e))
            | None \<Rightarrow> (case wait msg of
                         CallCancelled e \<Rightarrow> (empty_result, Some e)
                       | Received r \<Rightarrow> run_response i r)), c1))"

definition ping_begin :: "client \<Rightarrow> (goerr + string \<times> wire_message) \<times> client" where
  "ping_begin c =
     (if cl_closed c then (Inl ''client closed'', c)
      else (let n = cl_seq c + 1; i = ping_id n in (Inr (i, wire MsgTypePing i), c\<lparr>cl_seq := n\<rparr>)))"

definition ping_response :: "string \<Rightarrow> goerr + wire_message \<Rightarrow> goerr option" where
  "ping_response i r =
     (case r of
        Inl e \<Rightarrow> Some (''failed to receive pong: '' @ e)
      | Inr resp \<Rightarrow>
          if wm_type resp \<noteq> MsgTypePong \<or> wm_id resp \<noteq> i
          then Some (''unexpected ping response: type='' @ wm_type resp @ '', id='' @ wm_id resp)
          else None)"

definition client_ping ::
    "(wire_message \<Rightarrow> goerr option) \<Rightarrow> (wire_message \<Rightarrow> goerr + wire_message) \<Rightarrow> client
     \<Rightarrow> goerr option \<times> client" where
  "client_ping send recv c =
     (case ping_begin c of
        (Inl e, c1) \<Rightarrow> (Some e, c1)
      | (Inr (i, msg), c1) \<Rightarrow>
          ((case send msg of
              Some e \<Rightarrow> Some (''failed to send ping: '' @ e)
            | None \<Rightarrow> ping_response i (recv msg)), c1))"

text \<open>\<open>Close\<close>: the messages it sends; it releases everything only the first time.\<close>

definition close_client :: "client \<Rightarrow> wire_message list \<times> client" where
  "close_client c =
     (if cl_closed c then ([], c) else ([wire MsgTypeShutdown []], c\<lparr>cl_closed := True\<rparr>))"

subsection \<open>Starting the worker\<close>

text \<open>
  \<open>NewClient\<close>: what listening, spawning (which gives a process handle or none) and accepting come
  to, and what is released again on a failure.
\<close>

datatype accept_outcome = Accepted | AcceptFailed goerr | AcceptTimeout
datatype release = CloseListener | CleanupListener | KillProcess

definition new_client ::
    "goerr option \<Rightarrow> goerr + bool \<Rightarrow> accept_outcome \<Rightarrow> (goerr + client) \<times> release list" where
  "new_client listen spawn acc =
     (case listen of
        Some e \<Rightarrow> (Inl (''failed to create IPC listener: '' @ e), [])
      | None \<Rightarrow>
          (case spawn of
             Inl e \<Rightarrow> (Inl (''failed to spawn elevated worker: '' @ e), [CloseListener, CleanupListener])
           | Inr proc \<Rightarrow>
               (let undo = [CloseListener, CleanupListener] @ (if proc then [KillProcess] else []) in
                case acc of
                  Accepted \<Rightarrow> (Inr \<lparr>cl_seq = 0, cl_closed = False\<rparr>, [])
                | AcceptFailed e \<Rightarrow> (Inl (''failed accepting worker connection: '' @ e), undo)
                | AcceptTimeout \<Rightarrow> (Inl ''timeout waiting for elevated worker to connect'', undo))))"

text \<open>
  \<open>SetupElevation\<close> over the installed elevated runner: the error, or whether the cleanup it
  returns closes the client and uninstalls the runner.
\<close>

definition setup_elevation ::
    "playbook option \<Rightarrow> goerr + client \<Rightarrow> client option \<Rightarrow> (goerr + bool) \<times> client option" where
  "setup_elevation pb fresh installed =
     (if pb = None \<or> \<not> requires_elevation pb \<or> installed \<noteq> None then (Inr False, installed)
      else (case fresh of
              Inl e \<Rightarrow> (Inl (''failed to initialize elevated runner: '' @ e), installed)
            | Inr c \<Rightarrow> (Inr True, Some c)))"

definition cleanup_elevation :: "bool \<Rightarrow> client option \<Rightarrow> wire_message list \<times> client option" where
  "cleanup_elevation own installed =
     (if own then ((case installed of None \<Rightarrow> [] | Some c \<Rightarrow> fst (close_client c)), None)
      else ([], installed))"

section \<open>The worker\<close>

text \<open>At most twenty attempts to connect; the result is the last attempt's error, or nothing.\<close>

fun dial_loop :: "nat \<Rightarrow> ('w \<Rightarrow> goerr option \<times> 'w) \<Rightarrow> goerr \<Rightarrow> 'w \<Rightarrow> goerr option \<times> 'w" where
  "dial_loop 0 dial err w = (Some err, w)"
| "dial_loop (Suc n) dial err w =
     (case dial w of
        (None, w1) \<Rightarrow> (None, w1)
      | (Some e, w1) \<Rightarrow> dial_loop n dial e w1)"

definition dial_worker :: "string \<Rightarrow> ('w \<Rightarrow> goerr option \<times> 'w) \<Rightarrow> 'w \<Rightarrow> goerr option \<times> 'w" where
  "dial_worker uri dial w =
     (case dial_loop 20 dial [] w of
        (None, w1) \<Rightarrow> (None, w1)
      | (Some e, w1) \<Rightarrow>
          (Some (''worker failed to connect to coordinator at '' @ uri @ '': '' @ e), w1))"

text \<open>What the worker does with one message, and the answer of a finished command.\<close>

datatype worker_action =
    Reply wire_message
  | StartJob string execution_request
  | StopWorker
  | NoAction

definition worker_handle :: "wire_message \<Rightarrow> worker_action" where
  "worker_handle msg =
     (if wm_type msg = MsgTypeExec
      then (case wm_exec msg of
              None \<Rightarrow> Reply ((wire MsgTypeResult (wm_id msg))\<lparr>wm_error := ''exec request payload missing''\<rparr>)
            | Some req \<Rightarrow> StartJob (wm_id msg) req)
      else if wm_type msg = MsgTypePing then Reply (wire MsgTypePong (wm_id msg))
      else if wm_type msg = MsgTypeShutdown then StopWorker
      else NoAction)"

definition job_response :: "string \<Rightarrow> execution_result \<times> goerr option \<Rightarrow> wire_message" where
  "job_response i r =
     (wire MsgTypeResult i)\<lparr>wm_result := Some (fst r),
                            wm_error := (case snd r of None \<Rightarrow> [] | Some e \<Rightarrow> e)\<rparr>"

text \<open>The end of the worker's loop when reading fails.\<close>

datatype read_error = ReadEOF | ReadClosed | ReadBroken goerr

definition worker_read_error :: "read_error \<Rightarrow> goerr option" where
  "worker_read_error e =
     (case e of ReadBroken msg \<Rightarrow> Some (''worker decode error: '' @ msg) | _ \<Rightarrow> None)"

text \<open>
  The loop over what is read from the connection: the commands it starts, in order, and how it
  ends. \<open>Waiting\<close>: everything was handled and the worker waits for more.
\<close>

datatype worker_end = Waiting | Returned "goerr option"

fun worker_loop ::
    "(wire_message \<Rightarrow> goerr option) \<Rightarrow> (read_error + wire_message) list
     \<Rightarrow> (string \<times> execution_request) list \<times> worker_end" where
  "worker_loop send [] = ([], Waiting)"
| "worker_loop send (Inl e # rest) = ([], Returned (worker_read_error e))"
| "worker_loop send (Inr msg # rest) =
     (case worker_handle msg of
        Reply resp \<Rightarrow>
          (case send resp of
             Some e \<Rightarrow> ([], Returned (Some e))
           | None \<Rightarrow> worker_loop send rest)
      | StartJob i req \<Rightarrow>
          (let (jobs, ending) = worker_loop send rest in ((i, req) # jobs, ending))
      | StopWorker \<Rightarrow> ([], Returned None)
      | NoAction \<Rightarrow> worker_loop send rest)"

definition run_worker ::
    "string \<Rightarrow> ('w \<Rightarrow> goerr option \<times> 'w) \<Rightarrow> (wire_message \<Rightarrow> goerr option)
     \<Rightarrow> (read_error + wire_message) list \<Rightarrow> 'w \<Rightarrow> ((string \<times> execution_request) list \<times> worker_end) \<times> 'w" where
  "run_worker uri dial send incoming w =
     (case dial_worker uri dial w of
        (Some e, w1) \<Rightarrow> (([], Returned (Some e)), w1)
      | (None, w1) \<Rightarrow> (worker_loop send incoming, w1))"

section \<open>The elevated runner, one command at a time\<close>

text \<open>
  A command sent and answered without anything in between: the runner that the executor is given.
  A request without a payload can not occur; a worker that panics closes the connection.
\<close>

definition worker_serves ::
    "'w os_env \<Rightarrow> wire_message \<Rightarrow> 'w \<Rightarrow> (goerr + wire_message) \<times> 'w" where
  "worker_serves os msg w =
     (case worker_handle msg of
        StartJob i req \<Rightarrow>
          (case local_run os req w of
             Inl _ \<Rightarrow> (Inl ''EOF'', w)
           | Inr (r, w1) \<Rightarrow> (Inr (job_response i r), w1))
      | Reply resp \<Rightarrow> (Inr resp, w)
      | _ \<Rightarrow> (Inl ''EOF'', w))"

definition elevated_runner :: "'w os_env \<Rightarrow> client \<Rightarrow> 'w runner" where
  "elevated_runner os c req w =
     (let send = (\<lambda>_. None); wait = (\<lambda>msg. Received (fst (worker_serves os msg w)))
      in (fst (client_run None send wait req c),
          case fst (run_begin None req c) of
            Inl _ \<Rightarrow> w
          | Inr (_, msg) \<Rightarrow> snd (worker_serves os msg w)))"

lemma worker_handle_exec [simp]: "worker_handle (exec_message i req) = StartJob i req"
  by (simp add: worker_handle_def exec_message_def wire_def)

lemma run_response_job [simp]:
  "run_response i (Inr (job_response i (res, None))) = (res, None)"
  by (simp add: run_response_def job_response_def wire_def)

lemma local_run_no_error: "local_run os c w = Inr ((res, err), w') \<Longrightarrow> err = None"
  by (auto simp: local_run_def split: prod.splits command_plan.splits)

text \<open>
  C33: An elevated command runs as the local runner would run it: same process, same result, no
  error, for every request and every open client, and the worker dies exactly where the local
  runner would panic.
\<close>

theorem elevated_runner_refines_local:
  "elevated_runner os \<lparr>cl_seq = n, cl_closed = False\<rparr> req w
     = (case local_run os req w of
          Inr r \<Rightarrow> r
        | Inl _ \<Rightarrow> ((empty_result, Some ''failed to receive exec response: EOF''), w))"
  by (auto simp: elevated_runner_def client_run_def worker_serves_def run_begin_def
      run_response_def [of _ "Inl ''EOF''"] Let_def
      dest: local_run_no_error split: sum.splits prod.splits)

end
