(* ===== verification/ElevationLink.thy ===== *)
theory ElevationLink
  imports Elevation
begin

text \<open>
  Client and worker of the elevation as one system: calls, cancellations, messages in both
  directions, commands under way in the worker, its crash and its shutdown, in any interleaving.
  As in a run, a client's calls share one context, which stays cancelled once it is; \<open>fresh\<close> lifts
  that restriction.
\<close>

section \<open>The system\<close>

text \<open>
  The call that waits for its response; the readers that cancelled calls left behind; the queues;
  the worker's commands; and the calls that have returned, with their outcomes.
\<close>

record link =
  ln_client :: client
  ln_cancelled :: bool
  ln_call :: "(string \<times> execution_request) option"
  ln_orphans :: nat
  ln_up :: "wire_message list"
  ln_down :: "wire_message list"
  ln_jobs :: "(string \<times> execution_request) list"
  ln_alive :: bool
  ln_returned :: "(execution_request \<times> execution_result \<times> goerr option) list"

definition link_start :: link where
  "link_start = \<lparr>ln_client = \<lparr>cl_seq = 0, cl_closed = False\<rparr>, ln_cancelled = False, ln_call = None,
                 ln_orphans = 0, ln_up = [], ln_down = [], ln_jobs = [], ln_alive = True,
                 ln_returned = []\<rparr>"

definition take_message :: "wire_message \<Rightarrow> link \<Rightarrow> link" where
  "take_message m S =
     (case worker_handle m of
        Reply r \<Rightarrow> S\<lparr>ln_down := ln_down S @ [r]\<rparr>
      | StartJob j q \<Rightarrow> S\<lparr>ln_jobs := ln_jobs S @ [(j, q)]\<rparr>
      | StopWorker \<Rightarrow> S\<lparr>ln_alive := False, ln_jobs := []\<rparr>
      | NoAction \<Rightarrow> S)"

inductive link_step :: "bool \<Rightarrow> 'w os_env \<Rightarrow> link \<Rightarrow> link \<Rightarrow> bool" for fresh os where
  ln_begin: "ln_call S = None \<Longrightarrow> \<not> ln_cancelled S
    \<Longrightarrow> run_begin None req (ln_client S) = (Inr (i, m), c)
    \<Longrightarrow> link_step fresh os S (S\<lparr>ln_client := c, ln_call := Some (i, req), ln_up := ln_up S @ [m]\<rparr>)"
| ln_cancel: "link_step fresh os S (S\<lparr>ln_cancelled := True\<rparr>)"
| ln_fresh: "fresh \<Longrightarrow> link_step fresh os S (S\<lparr>ln_cancelled := False\<rparr>)"
| ln_give_up: "ln_call S = Some call \<Longrightarrow> ln_cancelled S
    \<Longrightarrow> link_step fresh os S (S\<lparr>ln_call := None, ln_orphans := Suc (ln_orphans S)\<rparr>)"
| ln_receive: "ln_call S = Some (i, req) \<Longrightarrow> ln_down S = m # ms
    \<Longrightarrow> link_step fresh os S
          (S\<lparr>ln_call := None, ln_down := ms,
            ln_returned := ln_returned S @ [(req, run_response i (Inr m))]\<rparr>)"
| ln_orphan: "ln_orphans S = Suc n \<Longrightarrow> ln_down S = m # ms
    \<Longrightarrow> link_step fresh os S (S\<lparr>ln_orphans := n, ln_down := ms\<rparr>)"
| ln_eof: "ln_call S = Some (i, req) \<Longrightarrow> ln_down S = [] \<Longrightarrow> \<not> ln_alive S \<or> cl_closed (ln_client S)
    \<Longrightarrow> link_step fresh os S
          (S\<lparr>ln_call := None, ln_returned := ln_returned S @ [(req, run_response i (Inl ''EOF''))]\<rparr>)"
| ln_take: "ln_alive S \<Longrightarrow> ln_up S = m # ms
    \<Longrightarrow> link_step fresh os S (take_message m (S\<lparr>ln_up := ms\<rparr>))"
| ln_job: "ln_alive S \<Longrightarrow> ln_jobs S = as @ (j, q) # bs \<Longrightarrow> local_run os q w = Inr (r, w')
    \<Longrightarrow> link_step fresh os S
          (S\<lparr>ln_jobs := as @ bs, ln_down := ln_down S @ [job_response j r]\<rparr>)"
| ln_crash: "link_step fresh os S (S\<lparr>ln_alive := False, ln_jobs := []\<rparr>)"
| ln_close: "close_client (ln_client S) = (ms, c)
    \<Longrightarrow> link_step fresh os S (S\<lparr>ln_client := c, ln_up := ln_up S @ ms\<rparr>)"

section \<open>Where a request is\<close>

text \<open>The result of running a request, in some state of the world.\<close>

definition executes :: "'w os_env \<Rightarrow> execution_request \<Rightarrow> execution_result \<times> goerr option \<Rightarrow> bool" where
  "executes os req r \<longleftrightarrow> (\<exists>w w'. local_run os req w = Inr (r, w'))"

text \<open>
  The request is on its way up, or run by the worker, or its response is on its way down; with
  the worker gone it may be nowhere. Behind it there is at most the shutdown message, as far as
  there is a worker to take it.
\<close>

definition shutdown_only :: "link \<Rightarrow> wire_message list \<Rightarrow> bool" where
  "shutdown_only S ms \<longleftrightarrow> ms = [] \<or> cl_closed (ln_client S) \<and> ms = [wire MsgTypeShutdown []]"

definition nowhere :: "link \<Rightarrow> bool" where
  "nowhere S \<longleftrightarrow> (ln_alive S \<longrightarrow> shutdown_only S (ln_up S)) \<and> ln_jobs S = [] \<and> ln_down S = []"

definition answered :: "'w os_env \<Rightarrow> string \<Rightarrow> execution_request \<Rightarrow> wire_message list \<Rightarrow> bool" where
  "answered os i req ms \<longleftrightarrow> (\<exists>r. executes os req r \<and> ms = [job_response i r])"

definition in_flight :: "'w os_env \<Rightarrow> link \<Rightarrow> string \<Rightarrow> execution_request \<Rightarrow> bool" where
  "in_flight os S i req \<longleftrightarrow>
     (\<exists>ms. ln_up S = exec_message i req # ms \<and> shutdown_only S ms \<and> ln_jobs S = [] \<and> ln_down S = [])
     \<or> shutdown_only S (ln_up S) \<and> ln_alive S \<and> ln_jobs S = [(i, req)] \<and> ln_down S = []
     \<or> (ln_alive S \<longrightarrow> shutdown_only S (ln_up S)) \<and> ln_jobs S = [] \<and> answered os i req (ln_down S)
     \<or> \<not> ln_alive S \<and> nowhere S"

definition outcome_ok :: "'w os_env \<Rightarrow> bool \<Rightarrow> execution_request \<times> execution_result \<times> goerr option \<Rightarrow> bool" where
  "outcome_ok os gone qr \<longleftrightarrow>
     executes os (fst qr) (snd qr)
     \<or> gone \<and> snd qr = (empty_result, Some ''failed to receive exec response: EOF'')"

definition link_inv :: "'w os_env \<Rightarrow> link \<Rightarrow> bool" where
  "link_inv os S \<longleftrightarrow>
     list_all (outcome_ok os (\<not> ln_alive S \<or> cl_closed (ln_client S))) (ln_returned S)
     \<and> (case ln_call S of
          Some (i, req) \<Rightarrow> ln_orphans S = 0 \<and> in_flight os S i req
        | None \<Rightarrow>
            if ln_orphans S = 0
            then nowhere S \<or> cl_closed (ln_client S) \<and> (\<exists>i req. in_flight os S i req)
            else ln_orphans S = 1 \<and> ln_cancelled S \<and> (\<exists>i req. in_flight os S i req))"

lemma run_begin_cases:
  assumes "run_begin None req c = (Inr (i, m), c')"
  shows "\<not> cl_closed c \<and> m = exec_message i req \<and> \<not> cl_closed c'"
  using assms by (auto simp: run_begin_def Let_def split: if_splits)

lemma take_exec [simp]: "take_message (exec_message i req) S = S\<lparr>ln_jobs := ln_jobs S @ [(i, req)]\<rparr>"
  by (simp add: take_message_def)

lemma take_shutdown [simp]: "take_message (wire MsgTypeShutdown []) S = S\<lparr>ln_alive := False, ln_jobs := []\<rparr>"
  by (simp add: take_message_def worker_handle_def wire_def)

lemma shutdown_not_exec [simp]:
  "\<not> shutdown_only S (exec_message i req # ms)"
  by (simp add: shutdown_only_def exec_message_def wire_def)

text \<open>What the steps of the worker and of the connection do to a request in flight.\<close>

lemma nowhere_take:
  assumes "nowhere S" and "ln_alive S" and "ln_up S = m # ms"
  shows "nowhere (take_message m (S\<lparr>ln_up := ms\<rparr>))"
  using assms by (auto simp: nowhere_def shutdown_only_def)

lemma in_flight_take:
  assumes "in_flight os S i req" and "ln_alive S" and "ln_up S = m # ms"
  shows "in_flight os (take_message m (S\<lparr>ln_up := ms\<rparr>)) i req"
proof -
  consider (waiting) "m = exec_message i req" "shutdown_only S ms" "ln_jobs S = []" "ln_down S = []"
    | (behind) "m = wire MsgTypeShutdown []" "ms = []" "ln_down S = [] \<or> answered os i req (ln_down S)"
    using assms by (auto simp: in_flight_def shutdown_only_def)
  then show ?thesis
  proof cases
    case waiting
    then show ?thesis using assms(2) by (simp add: in_flight_def shutdown_only_def)
  next
    case behind
    then show ?thesis by (auto simp: in_flight_def nowhere_def)
  qed
qed

lemma in_flight_job:
  assumes "in_flight os S i req" and "ln_alive S" and "ln_jobs S = as @ (j, q) # bs"
    and "local_run os q w = Inr (r, w')"
  shows "in_flight os (S\<lparr>ln_jobs := as @ bs, ln_down := ln_down S @ [job_response j r]\<rparr>) i req"
proof -
  have "shutdown_only S (ln_up S)" "ln_jobs S = [(i, req)]" "ln_down S = []"
    using assms(1-3) by (auto simp: in_flight_def)
  moreover from this have "as = []" "bs = []" "j = i" "q = req"
    using assms(3) by (auto simp: append_eq_Cons_conv)
  moreover have "answered os j q [job_response j r]"
    unfolding answered_def executes_def using assms(4) by blast
  ultimately show ?thesis by (auto simp: in_flight_def shutdown_only_def)
qed

lemma in_flight_crash:
  assumes "in_flight os S i req"
  shows "in_flight os (S\<lparr>ln_alive := False, ln_jobs := []\<rparr>) i req"
proof -
  have "ln_down S = [] \<or> answered os i req (ln_down S)" using assms by (auto simp: in_flight_def nowhere_def)
  then show ?thesis by (auto simp: in_flight_def nowhere_def)
qed

lemma shutdown_only_close:
  assumes "close_client (ln_client S) = (ms, c)" and "shutdown_only S us"
  shows "shutdown_only (S\<lparr>ln_client := c, ln_up := vs\<rparr>) (us @ ms)"
  using assms by (auto simp: shutdown_only_def close_client_def split: if_splits)

lemma in_flight_close:
  assumes "in_flight os S i req" and "close_client (ln_client S) = (ms, c)"
  shows "in_flight os (S\<lparr>ln_client := c, ln_up := ln_up S @ ms\<rparr>) i req"
  using assms(1) shutdown_only_close [OF assms(2)]
  by (auto simp: in_flight_def nowhere_def)

lemma nowhere_close:
  assumes "nowhere S" and "close_client (ln_client S) = (ms, c)"
  shows "nowhere (S\<lparr>ln_client := c, ln_up := ln_up S @ ms\<rparr>)"
  using assms by (auto simp: nowhere_def shutdown_only_def close_client_def split: if_splits)

lemma in_flight_received:
  assumes "in_flight os S i req" and "ln_down S = m # ms"
  shows "ms = [] \<and> nowhere (S\<lparr>ln_down := ms\<rparr>) \<and> (\<exists>r. executes os req r \<and> m = job_response i r)"
  using assms by (auto simp: in_flight_def nowhere_def shutdown_only_def answered_def)

lemma executes_response: "executes os req r \<Longrightarrow> run_response i (Inr (job_response i r)) = r"
  by (cases r) (auto simp: executes_def dest: local_run_no_error)

section \<open>The invariant\<close>

lemma outcome_mono: "(g \<Longrightarrow> g') \<Longrightarrow> list_all (outcome_ok os g) qs \<Longrightarrow> list_all (outcome_ok os g') qs"
  by (auto simp: list_all_iff outcome_ok_def)

text \<open>A change that moves the request along and leaves the calls as they are.\<close>

lemma link_inv_move:
  assumes "link_inv os S"
    and "ln_call T = ln_call S" "ln_orphans T = ln_orphans S" "ln_returned T = ln_returned S"
      "ln_cancelled S \<Longrightarrow> ln_cancelled T"
    and "\<not> ln_alive S \<Longrightarrow> \<not> ln_alive T" "cl_closed (ln_client S) \<Longrightarrow> cl_closed (ln_client T)"
    and "\<And>i req. in_flight os S i req \<Longrightarrow> in_flight os T i req"
    and "nowhere S \<Longrightarrow> nowhere T"
  shows "link_inv os T"
proof -
  have "list_all (outcome_ok os (\<not> ln_alive T \<or> cl_closed (ln_client T))) (ln_returned S)"
  proof (rule outcome_mono)
    show "list_all (outcome_ok os (\<not> ln_alive S \<or> cl_closed (ln_client S))) (ln_returned S)"
      using assms(1) by (simp add: link_inv_def)
  qed (use assms(6,7) in blast)
  then show ?thesis
    using assms(1,5,7-9)
    by (auto simp: link_inv_def assms(2-4) split: option.splits if_splits)
qed

lemma link_inv_receive:
  assumes "link_inv os S" and "ln_call S = Some (i, req)" and "ln_down S = m # ms"
  shows "link_inv os (S\<lparr>ln_call := None, ln_down := ms,
    ln_returned := ln_returned S @ [(req, run_response i (Inr m))]\<rparr>)"
proof -
  have f: "in_flight os S i req" and o: "ln_orphans S = 0"
    using assms(1,2) by (simp_all add: link_inv_def)
  from in_flight_received [OF f assms(3)] obtain r
    where r: "executes os req r" "m = job_response i r" and n: "nowhere (S\<lparr>ln_down := ms\<rparr>)" by blast
  have "outcome_ok os g (req, run_response i (Inr m))" for g
    using r executes_response [OF r(1)] by (simp add: outcome_ok_def)
  then show ?thesis
    using assms(1) n o by (simp add: link_inv_def nowhere_def shutdown_only_def)
qed

lemma link_inv_eof:
  assumes "link_inv os S" and "ln_call S = Some (i, req)" and "ln_down S = []"
    and "\<not> ln_alive S \<or> cl_closed (ln_client S)"
  shows "link_inv os (S\<lparr>ln_call := None,
    ln_returned := ln_returned S @ [(req, run_response i (Inl ''EOF''))]\<rparr>)"
proof -
  let ?T = "S\<lparr>ln_call := None, ln_returned := ln_returned S @ [(req, run_response i (Inl ''EOF''))]\<rparr>"
  have f: "in_flight os S i req" and o: "ln_orphans S = 0"
    using assms(1,2) by (simp_all add: link_inv_def)
  have "nowhere S \<or> cl_closed (ln_client S)"
    using f assms(3,4) by (auto simp: in_flight_def nowhere_def)
  moreover have "nowhere ?T = nowhere S" "in_flight os ?T j q = in_flight os S j q" for j q
    by (simp_all add: nowhere_def in_flight_def shutdown_only_def)
  moreover have "outcome_ok os (\<not> ln_alive S \<or> cl_closed (ln_client S)) (req, run_response i (Inl ''EOF''))"
    using assms(4) by (simp add: outcome_ok_def run_response_def)
  ultimately show ?thesis using assms(1) f o by (auto simp: link_inv_def)
qed

lemma link_inv_begin:
  assumes "link_inv os S" and "ln_call S = None" and "\<not> ln_cancelled S"
    and "run_begin None req (ln_client S) = (Inr (i, m), c)"
  shows "link_inv os (S\<lparr>ln_client := c, ln_call := Some (i, req), ln_up := ln_up S @ [m]\<rparr>)"
proof -
  note c = run_begin_cases [OF assms(4)]
  have n: "nowhere S" and o: "ln_orphans S = 0"
    using assms(1-3) c by (auto simp: link_inv_def split: if_splits)
  then have "in_flight os (S\<lparr>ln_client := c, ln_call := Some (i, req), ln_up := ln_up S @ [m]\<rparr>) i req"
    using c by (cases "ln_alive S") (auto simp: in_flight_def nowhere_def shutdown_only_def)
  then show ?thesis using assms(1) c o by (simp add: link_inv_def)
qed

lemma link_inv_give_up:
  assumes "link_inv os S" and "ln_call S = Some call" and "ln_cancelled S"
  shows "link_inv os (S\<lparr>ln_call := None, ln_orphans := Suc (ln_orphans S)\<rparr>)"
proof -
  obtain i req where "call = (i, req)" by (cases call)
  then have "in_flight os S i req" "ln_orphans S = 0" using assms(1,2) by (simp_all add: link_inv_def)
  moreover have "in_flight os (S\<lparr>ln_call := None, ln_orphans := Suc 0\<rparr>) i req = in_flight os S i req"
    by (simp add: in_flight_def nowhere_def shutdown_only_def)
  ultimately show ?thesis using assms(1,3) by (auto simp: link_inv_def)
qed

lemma link_inv_orphan:
  assumes "link_inv os S" and "ln_orphans S = Suc n" and "ln_down S = m # ms"
  shows "link_inv os (S\<lparr>ln_orphans := n, ln_down := ms\<rparr>)"
proof -
  have c: "ln_call S = None" and n: "n = 0" and "\<exists>i req. in_flight os S i req"
    using assms(1,2) by (auto simp: link_inv_def split: option.splits)
  then have "nowhere (S\<lparr>ln_down := ms\<rparr>)" using in_flight_received [OF _ assms(3)] by blast
  then have "nowhere (S\<lparr>ln_orphans := n, ln_down := ms\<rparr>)" by (simp add: nowhere_def shutdown_only_def)
  then show ?thesis using assms(1) c n by (simp add: link_inv_def)
qed

lemma link_inv_take:
  assumes "link_inv os S" and "ln_alive S" and "ln_up S = m # ms"
  shows "link_inv os (take_message m (S\<lparr>ln_up := ms\<rparr>))"
proof -
  have sel: "ln_call (take_message m T) = ln_call T" "ln_orphans (take_message m T) = ln_orphans T"
    "ln_returned (take_message m T) = ln_returned T" "ln_cancelled (take_message m T) = ln_cancelled T"
    "ln_client (take_message m T) = ln_client T" for T
    by (simp_all add: take_message_def split: worker_action.split)
  show ?thesis
    by (rule link_inv_move [OF assms(1)])
      (use sel in_flight_take [OF _ assms(2,3)] nowhere_take [OF _ assms(2,3)] assms(2)
        in \<open>auto simp: sel\<close>)
qed

lemma link_inv_job:
  assumes "link_inv os S" and "ln_alive S" and "ln_jobs S = as @ (j, q) # bs"
    and "local_run os q w = Inr (r, w')"
  shows "link_inv os (S\<lparr>ln_jobs := as @ bs, ln_down := ln_down S @ [job_response j r]\<rparr>)"
  by (rule link_inv_move [OF assms(1)])
    (use in_flight_job [OF _ assms(2-4)] assms(2,3) in \<open>auto simp: nowhere_def\<close>)

lemma link_inv_crash: "link_inv os S \<Longrightarrow> link_inv os (S\<lparr>ln_alive := False, ln_jobs := []\<rparr>)"
  by (erule link_inv_move) (auto simp: in_flight_crash, auto simp: nowhere_def)

lemma link_inv_close:
  assumes "link_inv os S" and "close_client (ln_client S) = (ms, c)"
  shows "link_inv os (S\<lparr>ln_client := c, ln_up := ln_up S @ ms\<rparr>)"
  by (rule link_inv_move [OF assms(1)])
    (use in_flight_close [OF _ assms(2)] nowhere_close [OF _ assms(2)] assms(2)
      in \<open>auto simp: close_client_def split: if_splits\<close>)

lemma link_inv_step:
  assumes "link_inv os S" and "link_step False os S T"
  shows "link_inv os T"
  using assms(2)
proof cases
  case ln_cancel
  show ?thesis unfolding ln_cancel
    by (rule link_inv_move [OF assms(1)]) (auto simp: in_flight_def nowhere_def shutdown_only_def)
qed (use assms(1) in \<open>simp_all add: link_inv_begin link_inv_give_up link_inv_receive link_inv_orphan
    link_inv_eof link_inv_take link_inv_job link_inv_crash link_inv_close\<close>)

lemma link_inv_start: "link_inv os link_start"
  by (simp add: link_inv_def link_start_def nowhere_def shutdown_only_def)

interpretation elev: inductive_invariant "\<lambda>S. S = link_start" "link_step False os" "link_inv os" for os
  by unfold_locales (auto intro: link_inv_start link_inv_step)

section \<open>What the executor may rely on\<close>

abbreviation link_reach :: "'w os_env \<Rightarrow> link \<Rightarrow> bool" where
  "link_reach os \<equiv> reach (\<lambda>S. S = link_start) (link_step False os)"

lemma pending_in_flight:
  assumes "link_inv os S" and "ln_call S = Some (i, req)" and "ln_alive S" and "\<not> cl_closed (ln_client S)"
  shows "ln_up S = [exec_message i req] \<and> ln_jobs S = [] \<and> ln_down S = []
    \<or> ln_up S = [] \<and> ln_jobs S = [(i, req)] \<and> ln_down S = []
    \<or> ln_up S = [] \<and> ln_jobs S = [] \<and> answered os i req (ln_down S)"
  using assms by (auto simp: link_inv_def in_flight_def shutdown_only_def)

text \<open>
  C34: Whatever happens in between, a call that returns has the result of running its own request
  locally, never another call's, or the connection's end if the worker has gone or the client is
  closed; and a call that waits has its request on the way up, at the worker, or answered: none
  is lost.
\<close>

theorem elevated_calls_answered:
  assumes "link_reach os S"
  shows "list_all (\<lambda>(req, out). executes os req out
          \<or> (\<not> ln_alive S \<or> cl_closed (ln_client S))
            \<and> out = (empty_result, Some ''failed to receive exec response: EOF'')) (ln_returned S)
    \<and> (\<forall>i req. ln_call S = Some (i, req) \<and> ln_alive S \<and> \<not> cl_closed (ln_client S)
         \<longrightarrow> ln_up S = [exec_message i req] \<or> ln_jobs S = [(i, req)] \<or> answered os i req (ln_down S))"
proof
  have inv: "link_inv os S" by (rule elev.inv_reach [OF assms])
  then have "list_all (outcome_ok os (\<not> ln_alive S \<or> cl_closed (ln_client S))) (ln_returned S)"
    by (simp add: link_inv_def)
  then show "list_all (\<lambda>(req, out). executes os req out
          \<or> (\<not> ln_alive S \<or> cl_closed (ln_client S))
            \<and> out = (empty_result, Some ''failed to receive exec response: EOF'')) (ln_returned S)"
    by (rule list.pred_mono_strong) (auto simp: outcome_ok_def)
  show "\<forall>i req. ln_call S = Some (i, req) \<and> ln_alive S \<and> \<not> cl_closed (ln_client S)
         \<longrightarrow> ln_up S = [exec_message i req] \<or> ln_jobs S = [(i, req)] \<or> answered os i req (ln_down S)"
    using pending_in_flight [OF inv] by blast
qed

text \<open>The steps that complete a waiting call.\<close>

lemma step_receive:
  assumes "ln_call S = Some (i, req)" and "answered os i req (ln_down S)"
  shows "\<exists>out. executes os req out \<and> link_step fresh os S
    (S\<lparr>ln_call := None, ln_down := [], ln_returned := ln_returned S @ [(req, out)]\<rparr>)"
proof -
  obtain r where r: "executes os req r" "ln_down S = [job_response i r]"
    using assms(2) unfolding answered_def by blast
  show ?thesis
    by (rule exI [of _ r]) (use ln_receive [OF assms(1) r(2), of fresh os] r(1) in \<open>simp add: executes_response\<close>)
qed

lemma step_job:
  assumes "ln_alive S" and "ln_jobs S = [(i, req)]" and "ln_down S = []" and "executes os req r"
  shows "link_step fresh os S (S\<lparr>ln_jobs := [], ln_down := [job_response i r]\<rparr>)"
proof -
  obtain w w' where "local_run os req w = Inr (r, w')" using assms(4) unfolding executes_def by blast
  from ln_job [OF assms(1) _ this, of "[]" i "[]" fresh] show ?thesis by (simp add: assms(2,3))
qed

definition returns :: "'w os_env \<Rightarrow> link \<Rightarrow> execution_request \<Rightarrow> bool" where
  "returns os S req \<longleftrightarrow>
     (\<exists>T out. (link_step False os)\<^sup>*\<^sup>* S T \<and> ln_call T = None \<and> executes os req out
        \<and> ln_returned T = ln_returned S @ [(req, out)])"

lemma returns_answered:
  assumes "ln_call S = Some (i, req)" and "answered os i req (ln_down S)"
  shows "returns os S req"
proof -
  obtain out where "executes os req out" "link_step False os S
    (S\<lparr>ln_call := None, ln_down := [], ln_returned := ln_returned S @ [(req, out)]\<rparr>)"
    using step_receive [OF assms] by blast
  moreover from this(2) have "(link_step False os)\<^sup>*\<^sup>* S
    (S\<lparr>ln_call := None, ln_down := [], ln_returned := ln_returned S @ [(req, out)]\<rparr>)"
    by (rule r_into_rtranclp)
  ultimately show ?thesis unfolding returns_def
    by (intro exI [of _ "S\<lparr>ln_call := None, ln_down := [], ln_returned := ln_returned S @ [(req, out)]\<rparr>"]
        exI [of _ out]) simp
qed

lemma returns_step:
  "link_step False os S T \<Longrightarrow> ln_returned T = ln_returned S \<Longrightarrow> returns os T req \<Longrightarrow> returns os S req"
  unfolding returns_def by (metis converse_rtranclp_into_rtranclp)

lemma returns_running:
  assumes "ln_call S = Some (i, req)" and "ln_alive S" and "ln_jobs S = [(i, req)]" and "ln_down S = []"
    and "executes os req r"
  shows "returns os S req"
proof (rule returns_step)
  show "link_step False os S (S\<lparr>ln_jobs := [], ln_down := [job_response i r]\<rparr>)"
    by (rule step_job [OF assms(2-5)])
  show "returns os (S\<lparr>ln_jobs := [], ln_down := [job_response i r]\<rparr>) req"
  proof (rule returns_answered)
    show "answered os i req (ln_down (S\<lparr>ln_jobs := [], ln_down := [job_response i r]\<rparr>))"
      unfolding answered_def by (rule exI [of _ r]) (simp add: assms(5))
  qed (simp add: assms(1))
qed simp

lemma returns_waiting:
  assumes "ln_call S = Some (i, req)" and "ln_alive S" and "ln_up S = [exec_message i req]"
    and "ln_jobs S = []" and "ln_down S = []" and "executes os req r"
  shows "returns os S req"
proof (rule returns_step)
  show "link_step False os S (take_message (exec_message i req) (S\<lparr>ln_up := []\<rparr>))"
    by (rule ln_take [OF assms(2,3)])
  show "returns os (take_message (exec_message i req) (S\<lparr>ln_up := []\<rparr>)) req"
    by (rule returns_running [OF _ _ _ _ assms(6)]) (simp_all add: assms)
qed simp

text \<open>
  C35: A waiting call is never stuck: while the worker lives and the client is open, a request that
  can be run is run and the call returns with its result after at most three more steps of worker
  and connection.
\<close>

theorem elevated_call_returns:
  assumes "link_reach os S" and "ln_call S = Some (i, req)" and "ln_alive S"
    and "\<not> cl_closed (ln_client S)" and "executes os req r"
  shows "returns os S req"
  using pending_in_flight [OF elev.inv_reach [OF assms(1)] assms(2-4)]
    returns_waiting [OF assms(2,3) _ _ _ assms(5)] returns_running [OF assms(2,3) _ _ assms(5)]
    returns_answered [OF assms(2)]
  by blast

section \<open>A session\<close>

definition ring :: execution_request where
  "ring = \<lparr>rq_script = ''ring twice'', rq_shell = ''!'', rq_extension = []\<rparr>"

lemma ring_executes: "executes bell_os ring (bell_result, None)"
proof -
  have "local_run bell_os ring 0 = Inr ((bell_result, None), 1)"
    by (simp add: ring_def local_run_def plan_command_def effective_shell_def bell_fields
        bell_clean [simplified] bell_os_def bell_result_def exit_code_of_def)
  then show ?thesis unfolding executes_def by blast
qed

definition ring_waits :: link where
  "ring_waits = link_start\<lparr>ln_client := \<lparr>cl_seq = 1, cl_closed = False\<rparr>,
     ln_call := Some (request_id 1, ring), ln_up := [exec_message (request_id 1) ring]\<rparr>"

lemma ring_begins: "link_step fresh os link_start ring_waits"
  using ln_begin [of link_start ring "request_id 1" "exec_message (request_id 1) ring"
      "\<lparr>cl_seq = 1, cl_closed = False\<rparr>" fresh os]
  by (simp add: ring_waits_def link_start_def run_begin_def Let_def)

lemma ring_waits_reach: "link_reach bell_os ring_waits"
proof (rule reach_step)
  show "link_reach bell_os link_start" by (rule reach_init) simp
qed (rule ring_begins)

lemma elevated_call_returns_witness: "returns bell_os ring_waits ring"
  by (rule elevated_call_returns [OF ring_waits_reach _ _ _ ring_executes])
    (simp_all add: ring_waits_def link_start_def)

lemma reach_many: "(link_step False os)\<^sup>*\<^sup>* S T \<Longrightarrow> link_reach os S \<Longrightarrow> link_reach os T"
  by (induction rule: rtranclp_induct) (auto intro: reach_step)

lemma elevated_calls_answered_witness:
  "\<exists>S. ln_returned S = [(ring, bell_result, None)] \<and> link_reach bell_os S
     \<and> list_all (\<lambda>(req, out). executes bell_os req out) (ln_returned S)"
proof -
  define S1 where "S1 = ring_waits\<lparr>ln_up := [], ln_jobs := [(request_id 1, ring)]\<rparr>"
  define S2 where "S2 = S1\<lparr>ln_jobs := [], ln_down := [job_response (request_id 1) (bell_result, None)]\<rparr>"
  define S3 where "S3 = S2\<lparr>ln_call := None, ln_down := [], ln_returned := [(ring, bell_result, None)]\<rparr>"
  note d = S1_def S2_def S3_def ring_waits_def link_start_def
  have "link_step False bell_os ring_waits S1"
    using ln_take [of ring_waits "exec_message (request_id 1) ring" "[]"] by (simp add: d)
  moreover have "link_step False bell_os S1 S2"
    using step_job [of S1 "request_id 1" ring bell_os "(bell_result, None)"] ring_executes
    by (simp add: d)
  moreover have "link_step False bell_os S2 S3"
    using ln_receive [of S2 "request_id 1" ring "job_response (request_id 1) (bell_result, None)" "[]"]
    by (simp add: d)
  ultimately have r: "link_reach bell_os S3"
    using ring_waits_reach by (blast intro: reach_step)
  have "ln_alive S3" "\<not> cl_closed (ln_client S3)" by (simp_all add: d)
  then show ?thesis using elevated_calls_answered [OF r] r by (intro exI [of _ S3]) (simp add: S3_def)
qed

section \<open>A client used by another context\<close>

text \<open>
  Where calls with a fresh context follow a cancelled one over the same client, the reader that the
  cancelled call left behind and the new one take each other's responses: the second call fails
  although both commands ran.
\<close>

lemma late_response_mismatch:
  "\<exists>S. reach (\<lambda>S. S = link_start) (link_step True bell_os) S \<and> ln_alive S \<and> \<not> ln_cancelled S
     \<and> ln_returned S = [(ring, empty_result,
         Some (''mismatched response ID: got '' @ request_id 1 @ '', want '' @ request_id 2))]"
proof -
  let ?m1 = "exec_message (request_id 1) ring" and ?m2 = "exec_message (request_id 2) ring"
  let ?r = "job_response (request_id 1) (bell_result, None)"
  define A where "A = ring_waits\<lparr>ln_cancelled := True\<rparr>"
  define B where "B = A\<lparr>ln_call := None, ln_orphans := Suc 0\<rparr>"
  define C where "C = B\<lparr>ln_cancelled := False\<rparr>"
  define D where "D = C\<lparr>ln_client := \<lparr>cl_seq = 2, cl_closed = False\<rparr>, ln_call := Some (request_id 2, ring),
      ln_up := [?m1, ?m2]\<rparr>"
  define F where "F = D\<lparr>ln_up := [?m2], ln_jobs := [(request_id 1, ring)]\<rparr>"
  define G where "G = F\<lparr>ln_jobs := [], ln_down := [?r]\<rparr>"
  define H where "H = G\<lparr>ln_call := None, ln_down := [],
      ln_returned := [(ring, run_response (request_id 2) (Inr ?r))]\<rparr>"
  note d = A_def B_def C_def D_def F_def G_def H_def ring_waits_def link_start_def
  have ids: "request_id 1 \<noteq> request_id 2"
    by (simp add: request_id_def nat_str.simps digit_char_def)
  let ?R = "reach (\<lambda>S. S = link_start) (link_step True bell_os)" and ?s = "link_step True bell_os"
  have "?R link_start" by (rule reach_init) simp
  then have "?R ring_waits" by (rule reach_step) (rule ring_begins)
  moreover have "?s ring_waits A" unfolding A_def by (rule ln_cancel)
  moreover have "?s A B" using ln_give_up [of A "(request_id 1, ring)" True bell_os] by (simp add: d)
  moreover have "?s B C" unfolding C_def by (rule ln_fresh) simp
  moreover have "?s C D"
    using ln_begin [of C ring "request_id 2" ?m2 "\<lparr>cl_seq = 2, cl_closed = False\<rparr>" True bell_os]
    by (simp add: d run_begin_def Let_def)
  moreover have "?s D F" using ln_take [of D ?m1 "[?m2]" True bell_os] by (simp add: d)
  moreover have "?s F G"
    using step_job [of F "request_id 1" ring bell_os "(bell_result, None)" True] ring_executes
    by (simp add: d)
  moreover have "?s G H" using ln_receive [of G "request_id 2" ring ?r "[]" True bell_os] by (simp add: d)
  ultimately have "?R H" by (meson reach_step)
  moreover have "run_response (request_id 2) (Inr ?r)
    = (empty_result, Some (''mismatched response ID: got '' @ request_id 1 @ '', want '' @ request_id 2))"
    using ids by (simp add: run_response_def job_response_def wire_def)
  ultimately show ?thesis by (intro exI [of _ H]) (simp add: d)
qed

end
