(* ===== verification/Access.thy ===== *)
theory Access
  imports ConfigSource Lifecycle
begin

text \<open>
  Who reaches what (\<open>internal/server/auth.go\<close> and \<open>server.go\<close>): the session token, the two
  multiplexers with the authentication in front of the API, the bootstrap redirect that turns the
  token of the URL into a cookie, the security headers, and the server's start and shutdown. The
  handlers behind the endpoints are in ServerHandlers. The random source, the embedded files and
  \<open>net.Listen\<close> are parameters.
\<close>

section \<open>Requests\<close>

text \<open>
  The path as it was sent, still escaped; the decoded query in order; the lines of the \<open>Cookie\<close>
  header; the value of \<open>Authorization\<close>, empty if there is none.
\<close>

record web_request =
  wq_method :: string
  wq_path :: string
  wq_query :: "(string \<times> string) list"
  wq_cookie :: "string list"
  wq_authorization :: string

definition query_get :: "string \<Rightarrow> web_request \<Rightarrow> string" where
  "query_get k r = (case map_of (wq_query r) k of None \<Rightarrow> [] | Some v \<Rightarrow> v)"

subsection \<open>Cookies\<close>

definition ascii_blank :: "char \<Rightarrow> bool" where
  "ascii_blank c \<longleftrightarrow> c = CHR '' '' \<or> c = CHR 0x09 \<or> c = CHR 0x0A \<or> c = CHR 0x0D"

definition trim_blanks :: "string \<Rightarrow> string" where
  "trim_blanks s = rev (dropWhile ascii_blank (rev (dropWhile ascii_blank s)))"

definition quote_char :: char where
  "quote_char = CHR 0x22"

definition cookie_char :: "char \<Rightarrow> bool" where
  "cookie_char c \<longleftrightarrow>
     0x20 \<le> (of_char c :: nat) \<and> (of_char c :: nat) < 0x7F \<and> c \<noteq> quote_char \<and> c \<noteq> CHR '';''
     \<and> c \<noteq> CHR 0x5C"

definition unquoted :: "string \<Rightarrow> string" where
  "unquoted v =
     (if 1 < length v \<and> hd v = quote_char \<and> last v = quote_char then butlast (tl v) else v)"

definition cut :: "char \<Rightarrow> string \<Rightarrow> string \<times> string" where
  "cut c s = (takeWhile (\<lambda>x. x \<noteq> c) s, tl (dropWhile (\<lambda>x. x \<noteq> c) s))"

text \<open>One element of a \<open>Cookie\<close> line: its name and value, unless it is malformed.\<close>

definition cookie_pair :: "string \<Rightarrow> (string \<times> string) option" where
  "cookie_pair part =
     (case cut (CHR ''='') part of
        (k, v) \<Rightarrow>
          (let name = trim_blanks k in
           if name \<noteq> [] \<and> list_all is_token_char name \<and> list_all cookie_char (unquoted v)
           then Some (name, unquoted v) else None))"

definition line_cookies :: "string \<Rightarrow> (string \<times> string) list" where
  "line_cookies l =
     List.map_filter cookie_pair (map trim_blanks (str_split (CHR '';'') (trim_blanks l)))"

definition request_cookie :: "string \<Rightarrow> web_request \<Rightarrow> string option" where
  "request_cookie name r = map_of (concat (map line_cookies (wq_cookie r))) name"

text \<open>What \<open>http.SetCookie\<close> writes for the session cookie, and what a browser sends back for it.\<close>

abbreviation SessionCookieName :: string where
  "SessionCookieName \<equiv> ''crobe_session''"

definition cookie_text :: "string \<Rightarrow> string" where
  "cookie_text v =
     (let ok = filter cookie_char v in
      if CHR '' '' \<in> set ok \<or> CHR '','' \<in> set ok then quote_char # ok @ [quote_char] else ok)"

definition session_cookie :: "string \<Rightarrow> string" where
  "session_cookie v =
     SessionCookieName @ ''='' @ cookie_text v @ ''; Path=/; HttpOnly; SameSite=Strict''"

definition sent_back :: "string \<Rightarrow> string" where
  "sent_back text = takeWhile (\<lambda>c. c \<noteq> CHR '';'') text"

section \<open>Authentication\<close>

text \<open>The random source fills 32 bytes, or fails.\<close>

definition generate_token :: "goerr + (nat \<Rightarrow> char) \<Rightarrow> goerr + string" where
  "generate_token rnd =
     (case rnd of Inl e \<Rightarrow> Inl e | Inr random_byte \<Rightarrow> Inr (hex_encode (map random_byte [0..<32])))"

definition extract_auth_token :: "web_request \<Rightarrow> string" where
  "extract_auth_token r =
     (case request_cookie SessionCookieName r of
        Some (c # v) \<Rightarrow> c # v
      | _ \<Rightarrow>
          if has_prefix (to_lower (wq_authorization r)) ''bearer ''
          then trim_space (drop 7 (wq_authorization r))
          else query_get ''token'' r)"

definition unauthorized :: http_response where
  "unauthorized =
     error_response 401 ''UNAUTHORIZED'' ''Authentication required or invalid session token''"

text \<open>The middleware: its refusal, or nothing if it calls the next handler.\<close>

definition auth_middleware :: "string \<Rightarrow> web_request \<Rightarrow> http_response option" where
  "auth_middleware token r =
     (if token = [] then None
      else if extract_auth_token r = [] \<or> extract_auth_token r \<noteq> token then Some unauthorized
      else None)"

text \<open>A keyword of a content security policy, in single quotes.\<close>

definition csp_keyword :: "string \<Rightarrow> string" where
  "csp_keyword s = [CHR 0x27] @ s @ [CHR 0x27]"

definition security_headers :: strmap where
  "security_headers =
     (let self = csp_keyword ''self''; inline = csp_keyword ''unsafe-inline'' in
      [(''Content-Security-Policy'',
        ''default-src '' @ self @ ''; script-src '' @ self @ ''; style-src '' @ self @ '' '' @ inline
        @ ''; font-src '' @ self @ '' data:; img-src '' @ self @ '' data:; connect-src '' @ self),
       (''Cache-Control'', ''no-store''),
       (''X-Content-Type-Options'', ''nosniff''),
       (''X-Frame-Options'', ''DENY'')])"

definition secured :: "http_response \<Rightarrow> http_response" where
  "secured resp = resp\<lparr>rp_headers := fold header_set (rp_headers resp) security_headers\<rparr>"

section \<open>Routing\<close>

text \<open>Go's \<open>url.PathUnescape\<close> of one segment, which the multiplexer compares; malformed ones stay.\<close>

definition hex_value :: "char \<Rightarrow> nat option" where
  "hex_value c =
     (let n = (of_char c :: nat) in
      if 0x30 \<le> n \<and> n \<le> 0x39 then Some (n - 0x30)
      else if 0x61 \<le> n \<and> n \<le> 0x66 then Some (n - 0x61 + 10)
      else if 0x41 \<le> n \<and> n \<le> 0x46 then Some (n - 0x41 + 10)
      else None)"

fun unescape :: "string \<Rightarrow> string option" where
  "unescape [] = Some []"
| "unescape (c # s) =
     (if c = CHR ''%'' then
        (case s of
           a # b # t \<Rightarrow>
             (case (hex_value a, hex_value b) of
                (Some x, Some y) \<Rightarrow> map_option ((#) (char_of (16 * x + y))) (unescape t)
              | _ \<Rightarrow> None)
         | _ \<Rightarrow> None)
      else map_option ((#) c) (unescape s))"

definition path_unescape :: "string \<Rightarrow> string" where
  "path_unescape s = (case unescape s of None \<Rightarrow> s | Some t \<Rightarrow> t)"

text \<open>\<open>cleanPath\<close> of the multiplexer: it keeps a trailing slash.\<close>

definition clean_path :: "string \<Rightarrow> string" where
  "clean_path p =
     (let q = (if rooted p then p else slash # p); np = path_clean q
      in if last q = slash \<and> np \<noteq> ''/'' then np @ ''/'' else np)"

definition segments :: "string \<Rightarrow> string list" where
  "segments p = map path_unescape (str_split slash (drop 1 p))"

datatype endpoint =
    EpState | EpUpload | EpRemote | EpPlaybookGet | EpPlaybookDelete | EpDestination
  | EpRun | EpCancel | EpExecution | EpReport | EpReportMD | EpReportLog | EpDownload
  | EpSubmit | EpEvents | EpShutdown

text \<open>
  Where a request ends: an answer of the routing itself, a handler, a permanent redirect to
  another path (with the same query), or the file server.
\<close>

datatype routed = Answer http_response | Call endpoint | MovedTo string | ServeFile string

definition not_found :: http_response where
  "not_found = http_error ''404 page not found'' 404"

definition api_mux :: "string \<Rightarrow> string list \<Rightarrow> routed" where
  "api_mux m segs =
     (if segs = [''api'', ''state''] then Call EpState
      else if segs = [''api'', ''playbook'', ''upload''] then Call EpUpload
      else if segs = [''api'', ''playbook'', ''remote''] then Call EpRemote
      else if segs = [''api'', ''playbook''] then
        (if m = ''GET'' then Call EpPlaybookGet
         else if m = ''DELETE'' then Call EpPlaybookDelete
         else Answer method_not_allowed)
      else if segs = [''api'', ''report'', ''destination''] then Call EpDestination
      else if segs = [''api'', ''run''] then Call EpRun
      else if segs = [''api'', ''execution'', ''cancel''] then Call EpCancel
      else if segs = [''api'', ''execution''] then Call EpExecution
      else if segs = [''api'', ''report''] then Call EpReport
      else if segs = [''api'', ''report'', ''md''] then Call EpReportMD
      else if segs = [''api'', ''report'', ''log''] then Call EpReportLog
      else if segs = [''api'', ''report'', ''download''] then Call EpDownload
      else if segs = [''api'', ''report'', ''remote-submit''] then Call EpSubmit
      else if segs = [''api'', ''events''] then Call EpEvents
      else if segs = [''api'', ''shutdown''] then Call EpShutdown
      else Answer not_found)"

definition mounted_api :: "string \<Rightarrow> web_request \<Rightarrow> routed" where
  "mounted_api token r =
     (case auth_middleware token r of
        Some resp \<Rightarrow> Answer resp
      | None \<Rightarrow> api_mux (wq_method r) (segments (wq_path r)))"

subsection \<open>Pages\<close>

record web_ui =
  wu_index :: "goerr + string"
  wu_files :: bool

definition bootstrap_redirect :: "string \<Rightarrow> web_request \<Rightarrow> http_response" where
  "bootstrap_redirect token r =
     \<lparr>rp_status = 303,
      rp_headers = [(''Set-Cookie'', session_cookie token), (''Location'', ''/'')]
        @ (if wq_method r \<in> {''GET'', ''HEAD''} then [(''Content-Type'', ''text/html; charset=utf-8'')] else []),
      rp_body = PlainText
        (if wq_method r = ''GET''
         then ''<a href='' @ [quote_char] @ ''/'' @ [quote_char] @ ''>See Other</a>.'' @ nl @ nl
         else [])\<rparr>"

definition page :: "web_ui \<Rightarrow> string \<Rightarrow> web_request \<Rightarrow> routed" where
  "page ui token r =
     (if query_get ''token'' r \<noteq> [] then
        (if query_get ''token'' r = token then Answer (bootstrap_redirect token r)
         else Answer (http_error ''Unauthorized: Invalid token'' 401))
      else
        (let path = path_unescape (wq_path r) in
         if path = ''/'' \<or> path = ''/index.html'' \<or> \<not> str_contains path ''.''
         then (case wu_index ui of
                 Inl _ \<Rightarrow> Answer (http_error ''Embedded index.html not found'' 500)
               | Inr html \<Rightarrow>
                   Answer \<lparr>rp_status = 200,
                           rp_headers = [(''Content-Type'', ''text/html; charset=utf-8'')],
                           rp_body = PlainText html\<rparr>)
         else if wu_files ui then ServeFile path
         else Answer not_found))"

text \<open>
  The outer multiplexer with the patterns \<open>/api/\<close> and \<open>/\<close>: a path that is not clean is redirected,
  unless the method is \<open>CONNECT\<close>, and so is \<open>/api\<close>.
\<close>

definition route :: "web_ui \<Rightarrow> string \<Rightarrow> web_request \<Rightarrow> routed" where
  "route ui token r =
     (let path = (if wq_method r = ''CONNECT'' then wq_path r else clean_path (wq_path r)) in
      if segments path = [''api''] then MovedTo (clean_path (path_unescape (wq_path r)) @ ''/'')
      else if path \<noteq> wq_path r then MovedTo path
      else if hd (segments path) = ''api'' then mounted_api token r
      else page ui token r)"

section \<open>The server\<close>

record server_config =
  sc_host :: string
  sc_port :: goint
  sc_token :: string
  sc_cliFolder :: string
  sc_noOpen :: bool
  sc_lifecycle :: lifecycle_config

text \<open>
  The server with its timers; \<open>ws_listener\<close> is the address \<open>net.Listen\<close> gave, \<open>ws_shutdown\<close> that
  the shutdown channel is closed.
\<close>

record web_server =
  ws_config :: server_config
  ws_listener :: "string option"
  ws_server :: server
  ws_lifecycle :: lifecycle_manager
  ws_timers :: timers
  ws_shutdown :: bool

text \<open>A process starts without timers.\<close>

definition no_timers :: timers where
  "no_timers = \<lparr>tm_next = 0, tm_live = Map.empty, tm_expired = []\<rparr>"

definition with_defaults ::
    "goerr + (nat \<Rightarrow> char) \<Rightarrow> server_config \<Rightarrow> goerr + server_config" where
  "with_defaults rnd cfg =
     (let cfg1 = (if sc_host cfg = [] then cfg\<lparr>sc_host := ''127.0.0.1''\<rparr> else cfg) in
      if sc_token cfg1 = []
      then (case generate_token rnd of
              Inl e \<Rightarrow> Inl (''failed to generate bootstrap token: '' @ e)
            | Inr token \<Rightarrow> Inr (cfg1\<lparr>sc_token := token\<rparr>))
      else Inr cfg1)"

definition new_server ::
    "goerr + (nat \<Rightarrow> char) \<Rightarrow> string option \<Rightarrow> server_config \<Rightarrow> timers \<Rightarrow> goerr + web_server" where
  "new_server rnd cwd cfg T =
     (case with_defaults rnd cfg of
        Inl e \<Rightarrow> Inl e
      | Inr cfg1 \<Rightarrow>
          (case new_lifecycle_manager (sc_lifecycle cfg1) T of
             (lm, T1) \<Rightarrow>
               Inr \<lparr>ws_config = cfg1, ws_listener = None,
                    ws_server = \<lparr>sv_state = new_state_manager cwd (sc_cliFolder cfg1) True,
                                 sv_broker = new_event_broker\<rparr>,
                    ws_lifecycle = lm, ws_timers = T1, ws_shutdown = False\<rparr>))"

definition ws_token :: "web_server \<Rightarrow> string" where
  "ws_token s = sc_token (ws_config s)"

text \<open>Every response passes the middleware that sets the security headers.\<close>

definition serve :: "web_ui \<Rightarrow> web_server \<Rightarrow> web_request \<Rightarrow> routed" where
  "serve ui s r =
     (case route ui (ws_token s) r of Answer resp \<Rightarrow> Answer (secured resp) | other \<Rightarrow> other)"

definition configured_addr :: "server_config \<Rightarrow> string" where
  "configured_addr cfg = sc_host cfg @ '':'' @ goint_str (sc_port cfg)"

definition start_server :: "(string \<Rightarrow> goerr + string) \<Rightarrow> web_server \<Rightarrow> goerr option \<times> web_server" where
  "start_server listen s =
     (if ws_listener s \<noteq> None then (None, s)
      else (let addr = configured_addr (ws_config s) in
            case listen addr of
              Inl e \<Rightarrow> (Some (''failed to listen on '' @ addr @ '': '' @ e), s)
            | Inr actual \<Rightarrow> (None, s\<lparr>ws_listener := Some actual\<rparr>)))"

definition listening_addr :: "web_server \<Rightarrow> string" where
  "listening_addr s =
     (case ws_listener s of Some a \<Rightarrow> a | None \<Rightarrow> configured_addr (ws_config s))"

definition server_url :: "web_server \<Rightarrow> string" where
  "server_url s =
     (let addr = listening_addr s;
          addr1 = (if has_prefix addr ''0.0.0.0:'' then ''127.0.0.1'' @ drop 7 addr
                   else if has_prefix addr ''[::]:'' then ''127.0.0.1'' @ drop 4 addr
                   else addr)
      in ''http://'' @ addr1 @ ''/?token='' @ ws_token s)"

subsection \<open>Shutdown\<close>

text \<open>
  \<open>Shutdown\<close> and \<open>Close\<close> (which differ in the time they wait for the clients and in what they ask of
  the HTTP server): the termination broadcast with the clients waited for, the closing of the
  channel, once, then the stop of the timers and the run to cancel, if any.
\<close>

definition shutdown_announce :: "web_server \<Rightarrow> nat set \<times> web_server" where
  "shutdown_announce s =
     (case broadcast_termination (sv_broker (ws_server s)) of
        (_, waits, b) \<Rightarrow> (waits, s\<lparr>ws_server := (ws_server s)\<lparr>sv_broker := b\<rparr>\<rparr>))"

definition shutdown_signal :: "web_server \<Rightarrow> web_server" where
  "shutdown_signal s = s\<lparr>ws_shutdown := True\<rparr>"

definition shutdown_stop :: "web_server \<Rightarrow> web_server \<times> nat option" where
  "shutdown_stop s =
     (case lifecycle_stop (ws_lifecycle s) (ws_timers s) of
        (lm, T) \<Rightarrow> (s\<lparr>ws_lifecycle := lm, ws_timers := T\<rparr>, sm_cancel (sv_state (ws_server s))))"

definition shutdown_server :: "web_server \<Rightarrow> web_server \<times> nat option" where
  "shutdown_server s = shutdown_stop (shutdown_signal (snd (shutdown_announce s)))"

definition close_server :: "web_server \<Rightarrow> web_server \<times> nat option" where
  "close_server s = shutdown_stop (shutdown_signal (snd (shutdown_announce s)))"

section \<open>Only the token opens the API\<close>

definition canonical_request :: "web_request \<Rightarrow> bool" where
  "canonical_request r \<longleftrightarrow> wq_method r = ''CONNECT'' \<or> clean_path (wq_path r) = wq_path r"

lemma page_answers: "page ui token r \<noteq> Call ep"
  by (simp add: page_def Let_def split: sum.split)

lemma auth_middleware_iff:
  "token \<noteq> [] \<Longrightarrow> auth_middleware token r = None \<longleftrightarrow> extract_auth_token r = token"
  by (auto simp: auth_middleware_def)

lemma auth_middleware_refuses:
  "auth_middleware token r \<noteq> None \<Longrightarrow> auth_middleware token r = Some unauthorized"
  by (simp add: auth_middleware_def split: if_splits)

lemma api_mux_segments: "api_mux m segs = Call ep \<Longrightarrow> \<exists>x xs. segs = ''api'' # x # xs"
  by (auto simp: api_mux_def split: if_splits)

lemma route_canonical:
  "canonical_request r \<Longrightarrow> segments (wq_path r) = ''api'' # x # xs \<Longrightarrow> route ui token r = mounted_api token r"
  by (auto simp: route_def canonical_request_def Let_def)

lemma mounted_api_call:
  "mounted_api token r = Call ep
     \<longleftrightarrow> auth_middleware token r = None \<and> api_mux (wq_method r) (segments (wq_path r)) = Call ep"
  by (simp add: mounted_api_def split: option.split)

lemma route_call:
  "route ui token r = Call ep
     \<longleftrightarrow> canonical_request r \<and> auth_middleware token r = None
         \<and> api_mux (wq_method r) (segments (wq_path r)) = Call ep" (is "?L \<longleftrightarrow> ?R")
proof
  assume l: ?L
  then have c: "canonical_request r" and m: "route ui token r = mounted_api token r"
    by (auto simp: route_def canonical_request_def Let_def page_answers split: if_splits)
  from l [unfolded m mounted_api_call] c show ?R by blast
next
  assume r: ?R
  then obtain x xs where "segments (wq_path r) = ''api'' # x # xs" using api_mux_segments by blast
  then have "route ui token r = mounted_api token r" using r by (simp add: route_canonical)
  then show ?L using r by (simp add: mounted_api_call)
qed

lemma serve_call: "serve ui s r = Call ep \<longleftrightarrow> route ui (ws_token s) r = Call ep"
  by (simp add: serve_def split: routed.split)

lemma generated_token:
  "generate_token rnd = Inr t \<Longrightarrow> \<exists>bytes. length bytes = 32 \<and> t = hex_encode bytes"
  unfolding generate_token_def
  by (auto split: sum.splits) (metis diff_zero length_map length_upt)

lemma new_server_token:
  assumes "new_server rnd cwd cfg T = Inr s"
  shows "ws_token s = sc_token cfg \<and> sc_token cfg \<noteq> []
     \<or> sc_token cfg = [] \<and> (\<exists>bytes. length bytes = 32 \<and> ws_token s = hex_encode bytes)"
  using assms
  by (auto simp: new_server_def with_defaults_def ws_token_def Let_def
      split: sum.splits prod.splits if_splits dest: generated_token)

lemma hex_encode_nonempty: "length bytes = 32 \<Longrightarrow> hex_encode bytes \<noteq> []"
  by (cases bytes) (simp_all add: hex_encode_def)

lemma ws_token_nonempty: "new_server rnd cwd cfg T = Inr s \<Longrightarrow> ws_token s \<noteq> []"
  using new_server_token [of rnd cwd cfg T s] hex_encode_nonempty by auto

text \<open>
  C36: A handler is reached exactly by the requests with its method and path, in canonical form,
  that carry the server's token; every other request to a path of the API is refused with 401.
  The token is never empty.
\<close>

theorem api_needs_token:
  assumes "new_server rnd cwd cfg T = Inr s"
  shows "ws_token s \<noteq> []
    \<and> (serve ui s r = Call ep
        \<longleftrightarrow> canonical_request r \<and> api_mux (wq_method r) (segments (wq_path r)) = Call ep
            \<and> extract_auth_token r = ws_token s)
    \<and> (canonical_request r \<and> segments (wq_path r) = ''api'' # x # xs \<and> extract_auth_token r \<noteq> ws_token s
        \<longrightarrow> serve ui s r = Answer (secured unauthorized))"
proof (intro conjI impI)
  note t = ws_token_nonempty [OF assms]
  show "ws_token s \<noteq> []" by (rule t)
  show "serve ui s r = Call ep
        \<longleftrightarrow> canonical_request r \<and> api_mux (wq_method r) (segments (wq_path r)) = Call ep
            \<and> extract_auth_token r = ws_token s"
    by (auto simp: serve_call route_call auth_middleware_iff [OF t])
  assume a: "canonical_request r \<and> segments (wq_path r) = ''api'' # x # xs
    \<and> extract_auth_token r \<noteq> ws_token s"
  then have "auth_middleware (ws_token s) r = Some unauthorized"
    using auth_middleware_iff [OF t] auth_middleware_refuses by blast
  then show "serve ui s r = Answer (secured unauthorized)"
    using a by (simp add: serve_def route_canonical mounted_api_def)
qed

section \<open>The token of the URL becomes the cookie\<close>

lemma hex_digits:
  assumes "n < 16"
  shows "cookie_char (hex_char n)"
proof -
  define m where "m = (if n < 10 then 48 + n else 87 + n)"
  have m: "48 \<le> m \<and> m \<le> 57 \<or> 97 \<le> m \<and> m \<le> 102" using assms by (auto simp: m_def)
  then have b: "byte (char_of m) = m" by (intro byte_char_of) linarith
  have q: "byte quote_char = 34" "byte (CHR '';'') = 59" "byte (CHR 0x5C) = 92"
    by (simp_all add: quote_char_def)
  have "char_of m \<noteq> quote_char" "char_of m \<noteq> CHR '';''" "char_of m \<noteq> CHR 0x5C"
    using b q m by fastforce+
  moreover have "hex_char n = char_of m" by (simp add: hex_char_def m_def)
  moreover have "0x20 \<le> m" "m < 0x7F" using m by linarith+
  ultimately show ?thesis unfolding cookie_char_def by (simp only: b) blast
qed

lemma hex_chars: "list_all cookie_char (hex_encode bytes)"
proof (induction bytes)
  case (Cons c bytes)
  have "byte c div 16 < 16" using byte_less [of c] by linarith
  then show ?case using Cons by (simp add: hex_encode_def hex_digits)
qed (simp add: hex_encode_def)

lemma cookie_text_filter: "list_all cookie_char v \<Longrightarrow> filter cookie_char v = v"
  by (simp add: list_all_iff filter_id_conv)

lemma unquoted_cookie_text:
  assumes "list_all cookie_char v"
  shows "unquoted (cookie_text v) = v"
proof (cases "CHR '' '' \<in> set v \<or> CHR '','' \<in> set v")
  case True
  then show ?thesis using assms
    by (auto simp: cookie_text_def Let_def cookie_text_filter unquoted_def)
next
  case False
  have "hd v \<noteq> quote_char" if "v \<noteq> []"
    using assms that by (cases v) (auto simp: cookie_char_def)
  then show ?thesis using False assms
    by (cases "v = []") (auto simp: cookie_text_def Let_def cookie_text_filter unquoted_def)
qed

lemma cookie_text_chars:
  assumes "list_all cookie_char v" and "c \<in> set (cookie_text v)"
  shows "cookie_char c \<or> c = quote_char"
  using assms by (auto simp: cookie_text_def Let_def cookie_text_filter list_all_iff split: if_splits)

lemma last_cookie_text:
  assumes "list_all cookie_char v" and "v \<noteq> []"
  shows "cookie_text v \<noteq> [] \<and> \<not> ascii_blank (last (cookie_text v))"
proof -
  have "\<not> ascii_blank (last v)" if "CHR '' '' \<notin> set v"
  proof -
    have "last v \<in> set v" using assms(2) by simp
    then have "last v \<noteq> CHR '' ''" "cookie_char (last v)"
      using that assms(1) by (auto simp: list_all_iff)
    then show ?thesis by (auto simp: ascii_blank_def cookie_char_def)
  qed
  then show ?thesis using assms
    by (auto simp: cookie_text_def Let_def cookie_text_filter quote_char_def ascii_blank_def)
qed

lemma trim_blanks_id:
  "s \<noteq> [] \<Longrightarrow> \<not> ascii_blank (hd s) \<Longrightarrow> \<not> ascii_blank (last s) \<Longrightarrow> trim_blanks s = s"
  using dropWhile_eq_self_iff [of ascii_blank s] dropWhile_eq_self_iff [of ascii_blank "rev s"]
  by (simp add: trim_blanks_def hd_rev)

lemma str_split_single: "c \<notin> set s \<Longrightarrow> str_split c s = [s]"
  by (induction s) auto

lemma request_cookie_back:
  assumes "list_all cookie_char v" and "v \<noteq> []" and "wq_cookie r = [sent_back (session_cookie v)]"
  shows "request_cookie SessionCookieName r = Some v"
proof -
  let ?l = "SessionCookieName @ ''='' @ cookie_text v"
  have semi: "CHR '';'' \<notin> set (cookie_text v)"
    using cookie_text_chars [OF assms(1)] by (auto simp: cookie_char_def quote_char_def)
  then have sb: "sent_back (session_cookie v) = ?l"
    by (auto simp: sent_back_def session_cookie_def takeWhile_append)
  have t: "trim_blanks ?l = ?l"
    using last_cookie_text [OF assms(1,2)] by (intro trim_blanks_id) (auto simp: ascii_blank_def)
  have "trim_blanks SessionCookieName = SessionCookieName" by (simp add: trim_blanks_def ascii_blank_def)
  moreover have "list_all is_token_char SessionCookieName" by (simp add: is_token_char_def)
  ultimately have "cookie_pair ?l = Some (SessionCookieName, v)"
    using assms(1) by (simp add: cookie_pair_def cut_def unquoted_cookie_text)
  moreover have "str_split (CHR '';'') ?l = [?l]" using semi by (intro str_split_single) simp
  ultimately have "line_cookies ?l = [(SessionCookieName, v)]"
    by (simp only: line_cookies_def t list.map List.map_filter_simps option.simps)
  then show ?thesis by (simp add: request_cookie_def assms(3) sb)
qed

lemma cookie_authenticates:
  assumes "list_all cookie_char v" and "v \<noteq> []"
  shows "extract_auth_token (r\<lparr>wq_cookie := [sent_back (session_cookie v)]\<rparr>) = v"
  using request_cookie_back [OF assms, of "r\<lparr>wq_cookie := [sent_back (session_cookie v)]\<rparr>"] assms(2)
  by (cases v) (simp_all add: extract_auth_token_def)

lemma serve_bootstrap:
  assumes "wq_path q = ''/''" and "query_get ''token'' q = ws_token s" and "ws_token s \<noteq> []"
  shows "serve ui s q = Answer (secured (bootstrap_redirect (ws_token s) q))"
proof -
  have "clean_path ''/'' = ''/''" by (simp add: clean_path_def path_clean_def rooted_def has_prefix_def clean_step_def)
  moreover have "segments ''/'' = [[]]" by (simp add: segments_def path_unescape_def)
  ultimately have "route ui (ws_token s) q = page ui (ws_token s) q"
    using assms(1) by (simp add: route_def)
  then show ?thesis using assms(2,3) by (simp add: serve_def page_def)
qed

lemma secured_set_cookie:
  "map_of (rp_headers (secured (bootstrap_redirect t q))) ''Set-Cookie'' = Some (session_cookie t)"
  by (simp add: secured_def bootstrap_redirect_def security_headers_def Let_def header_set_def
      canonical_key_def is_token_char_def upper1_def lower1_def)

text \<open>
  C37: Opening the server's URL sets a cookie with which every request of the browser to the API
  is authenticated: it reaches the handler of its method and path. This holds for generated tokens
  and for configured ones a cookie can carry.
\<close>

theorem bootstrap_authenticates:
  assumes "new_server rnd cwd cfg T = Inr s" and "list_all cookie_char (sc_token cfg)"
    and "wq_path q = ''/''" and "query_get ''token'' q = ws_token s"
  shows "serve ui s q = Answer (secured (bootstrap_redirect (ws_token s) q))
    \<and> map_of (rp_headers (secured (bootstrap_redirect (ws_token s) q))) ''Set-Cookie''
        = Some (session_cookie (ws_token s))
    \<and> (serve ui s (r\<lparr>wq_cookie := [sent_back (session_cookie (ws_token s))]\<rparr>) = Call ep
        \<longleftrightarrow> canonical_request r \<and> api_mux (wq_method r) (segments (wq_path r)) = Call ep)"
proof (intro conjI)
  note t = ws_token_nonempty [OF assms(1)]
  have c: "list_all cookie_char (ws_token s)"
    using new_server_token [OF assms(1)] assms(2) hex_chars by auto
  show "serve ui s q = Answer (secured (bootstrap_redirect (ws_token s) q))"
    by (rule serve_bootstrap [OF assms(3,4) t])
  show "serve ui s (r\<lparr>wq_cookie := [sent_back (session_cookie (ws_token s))]\<rparr>) = Call ep
        \<longleftrightarrow> canonical_request r \<and> api_mux (wq_method r) (segments (wq_path r)) = Call ep"
    by (auto simp: serve_call route_call canonical_request_def auth_middleware_iff [OF t]
        cookie_authenticates [OF c t])
qed (rule secured_set_cookie)

section \<open>A cookie hides the other credentials\<close>

text \<open>
  A cookie of another token is taken before the header and the query: cookies do not tell ports
  apart, so a browser with the cookie of a second server on the same host is refused even with the
  right token in the header.
\<close>

lemma stale_cookie_wins:
  assumes "list_all cookie_char v" and "v \<noteq> []" and "v \<noteq> token" and "token \<noteq> []"
  shows "auth_middleware token (r\<lparr>wq_cookie := [sent_back (session_cookie v)]\<rparr>) = Some unauthorized"
  using assms by (simp add: auth_middleware_def cookie_authenticates)

section \<open>The order of a shutdown\<close>

text \<open>
  The channel that lets the process exit is closed while the run is not yet cancelled and the
  timers still run; a second shutdown finds nothing new to stop.
\<close>

lemma shutdown_signals_first:
  "ws_shutdown (shutdown_signal (snd (shutdown_announce s)))
   \<and> sm_cancel (sv_state (ws_server (shutdown_signal (snd (shutdown_announce s))))) = sm_cancel (sv_state (ws_server s))
   \<and> snd (shutdown_server s) = sm_cancel (sv_state (ws_server s))
   \<and> lm_stopped (ws_lifecycle (fst (shutdown_server s)))
   \<and> lm_graceTimer (ws_lifecycle (fst (shutdown_server s))) = None
   \<and> lm_idleTimer (ws_lifecycle (fst (shutdown_server s))) = None"
  by (simp add: shutdown_server_def shutdown_stop_def shutdown_signal_def shutdown_announce_def
      lifecycle_stop_def split: prod.split)

section \<open>Witnesses\<close>

definition demo_config :: server_config where
  "demo_config = \<lparr>sc_host = [], sc_port = 0, sc_token = ''secret'', sc_cliFolder = [],
                  sc_noOpen = True, sc_lifecycle = default_lifecycle\<rparr>"

definition demo_ui :: web_ui where
  "demo_ui = \<lparr>wu_index = Inr ''<html>'', wu_files = True\<rparr>"

definition state_request :: web_request where
  "state_request = \<lparr>wq_method = ''GET'', wq_path = ''/api/state'', wq_query = [], wq_cookie = [],
                    wq_authorization = ''bearer secret ''\<rparr>"

definition first_request :: web_request where
  "first_request = \<lparr>wq_method = ''GET'', wq_path = ''/'', wq_query = [(''token'', ''secret'')],
                    wq_cookie = [], wq_authorization = []\<rparr>"

lemma demo_server: "\<exists>s. new_server (Inl ''no entropy'') None demo_config no_timers = Inr s \<and> ws_token s = ''secret''"
  by (simp add: new_server_def with_defaults_def demo_config_def ws_token_def split: prod.split)

lemma state_request_routed:
  "canonical_request state_request"
  "api_mux (wq_method state_request) (segments (wq_path state_request)) = Call EpState"
  "extract_auth_token state_request = ''secret''"
  "extract_auth_token (state_request\<lparr>wq_authorization := []\<rparr>) = []"
  "segments ''/api/state'' = [''api'', ''state'']"
  by (simp_all add: state_request_def canonical_request_def clean_path_def path_clean_def rooted_def
      has_prefix_def clean_step_def segments_def path_unescape_def api_mux_def extract_auth_token_def
      request_cookie_def query_get_def go_str)

lemma api_needs_token_witness:
  "\<exists>s. new_server (Inl ''no entropy'') None demo_config no_timers = Inr s
     \<and> serve demo_ui s state_request = Call EpState
     \<and> serve demo_ui s (state_request\<lparr>wq_authorization := []\<rparr>) = Answer (secured unauthorized)"
proof -
  obtain s where s: "new_server (Inl ''no entropy'') None demo_config no_timers = Inr s"
    "ws_token s = ''secret''" using demo_server by blast
  have "serve demo_ui s state_request = Call EpState"
    using api_needs_token [OF s(1), of demo_ui state_request EpState] state_request_routed s(2) by simp
  moreover have "serve demo_ui s (state_request\<lparr>wq_authorization := []\<rparr>) = Answer (secured unauthorized)"
    using api_needs_token [OF s(1), of demo_ui "state_request\<lparr>wq_authorization := []\<rparr>" _ "''state''" "[]"]
      state_request_routed s(2) by (simp add: canonical_request_def state_request_def)
  ultimately show ?thesis using s(1) by blast
qed

lemma bootstrap_authenticates_witness:
  "\<exists>s. new_server (Inl ''no entropy'') None demo_config no_timers = Inr s
     \<and> map_of (rp_headers (secured (bootstrap_redirect ''secret'' first_request))) ''Set-Cookie''
         = Some (session_cookie ''secret'')
     \<and> serve demo_ui s (state_request\<lparr>wq_authorization := [],
                                      wq_cookie := [sent_back (session_cookie ''secret'')]\<rparr>) = Call EpState"
proof -
  obtain s where s: "new_server (Inl ''no entropy'') None demo_config no_timers = Inr s"
    "ws_token s = ''secret''" using demo_server by blast
  have q: "list_all cookie_char (sc_token demo_config)" "wq_path first_request = ''/''"
    "query_get ''token'' first_request = ws_token s"
    by (simp_all add: demo_config_def cookie_char_def quote_char_def first_request_def query_get_def s(2))
  show ?thesis
    using bootstrap_authenticates [OF s(1) q, of demo_ui "state_request\<lparr>wq_authorization := []\<rparr>" EpState]
      state_request_routed s by (auto simp: canonical_request_def)
qed

end
