(* ===== verification/Runner.thy ===== *)
theory Runner
  imports DirectorScore Transpile ElevationLink Access ServerRuns
begin

text \<open>
  The command line (\<open>internal/runner/runner.go\<close>) and its two programs \<open>crobe\<close> (\<open>cmd/probe\<close>) and
  \<open>crobe-builder\<close> (\<open>cmd/builder\<close>): the flags, the choice between worker, custom action, web server and
  headless run, and the headless run from the loading of the playbook to the exit code. Everything
  outside the program comes from the environments of the theories below; the schema generator,
  \<open>strconv\<close> and the desktop are parameters.
\<close>

section \<open>Flags\<close>

text \<open>
  The parser of the package \<open>flag\<close>: the settings in the order given, and the arguments left. The
  first argument that is no flag ends the flags.
\<close>

datatype flag_kind = BoolFlag | TextFlag | IntFlag

definition parse_bool :: "string \<Rightarrow> bool option" where
  "parse_bool s =
     (if s \<in> set [''1'', ''t'', ''T'', ''TRUE'', ''true'', ''True''] then Some True
      else if s \<in> set [''0'', ''f'', ''F'', ''FALSE'', ''false'', ''False''] then Some False
      else None)"

definition value_ok :: "(string \<Rightarrow> goint option) \<Rightarrow> flag_kind \<Rightarrow> string \<Rightarrow> bool" where
  "value_ok num k v =
     (case k of BoolFlag \<Rightarrow> parse_bool v \<noteq> None | TextFlag \<Rightarrow> True | IntFlag \<Rightarrow> num v \<noteq> None)"

text \<open>A flag without its dashes: the name and the value after the first equals sign, if any.\<close>

definition flag_parts :: "string \<Rightarrow> string \<times> string option" where
  "flag_parts s =
     (case cut (CHR ''='') (tl s) of
        (n, v) \<Rightarrow> (hd s # n, if CHR ''='' \<in> set (tl s) then Some v else None))"

definition undashed :: "string \<Rightarrow> string" where
  "undashed s = (if has_prefix s ''--'' then drop 2 s else drop 1 s)"

definition flag_syntax :: "string \<Rightarrow> bool" where
  "flag_syntax s \<longleftrightarrow>
     undashed s \<noteq> [] \<and> hd (undashed s) \<noteq> CHR ''-'' \<and> hd (undashed s) \<noteq> CHR ''=''"

fun parse_flags ::
    "(string \<Rightarrow> goint option) \<Rightarrow> (string \<times> flag_kind) list \<Rightarrow> string list
     \<Rightarrow> ((string \<times> string) list \<times> string list) option" where
  "parse_flags num flags [] = Some ([], [])"
| "parse_flags num flags (s # rest) =
     (if length s < 2 \<or> hd s \<noteq> CHR ''-'' then Some ([], s # rest)
      else if s = ''--'' then Some ([], rest)
      else if \<not> flag_syntax s then None
      else (case flag_parts (undashed s) of
              (n, given) \<Rightarrow>
                (case (map_of flags n, given, rest) of
                   (None, _, _) \<Rightarrow> None
                 | (Some BoolFlag, None, _) \<Rightarrow>
                     map_option (apfst ((#) (n, ''true''))) (parse_flags num flags rest)
                 | (Some k, Some v, _) \<Rightarrow>
                     (if value_ok num k v
                      then map_option (apfst ((#) (n, v))) (parse_flags num flags rest) else None)
                 | (Some k, None, v # rest') \<Rightarrow>
                     (if value_ok num k v
                      then map_option (apfst ((#) (n, v))) (parse_flags num flags rest') else None)
                 | (Some k, None, []) \<Rightarrow> None)))"

type_synonym settings = "(string \<times> string) list"

definition flag_text :: "string \<Rightarrow> string \<Rightarrow> settings \<Rightarrow> string" where
  "flag_text dflt n fs = (case map_of (rev fs) n of None \<Rightarrow> dflt | Some v \<Rightarrow> v)"

definition flag_bool :: "string \<Rightarrow> settings \<Rightarrow> bool" where
  "flag_bool n fs \<longleftrightarrow> parse_bool (flag_text ''false'' n fs) = Some True"

definition flag_all :: "string \<Rightarrow> settings \<Rightarrow> string list" where
  "flag_all n fs = map snd (filter (\<lambda>kv. fst kv = n) fs)"

definition standard_flags :: "(string \<times> flag_kind) list" where
  "standard_flags =
     [(''folder'', TextFlag), (''worker'', TextFlag), (''ui'', BoolFlag), (''host'', TextFlag),
      (''port'', IntFlag), (''no-open'', BoolFlag), (''H'', TextFlag)]"

section \<open>Programs and their environment\<close>

text \<open>
  \<open>Options\<close>: the custom handler may end the program with an exit code and an output; the hook
  gives the preprocessed playbook or an error.
\<close>

record 'w options =
  op_name :: string
  op_isAgent :: bool
  op_preprocess :: "(playbook \<Rightarrow> string \<Rightarrow> goerr + playbook) option"
  op_flags :: "(string \<times> flag_kind) list"
  op_handler :: "settings \<Rightarrow> 'w \<Rightarrow> (nat \<times> string) option \<times> 'w"

text \<open>
  \<open>rn_worker\<close> is what \<open>RunWorker\<close> (see Elevation) comes to, \<open>rn_client\<close> what \<open>NewClient\<close> gives and
  \<open>rn_close\<close> what closing the client does; \<open>rn_int\<close> and \<open>rn_atoi\<close> parse the port.
\<close>

record ('j, 'w) runner_env =
  rn_config :: config_env
  rn_int :: "string \<Rightarrow> goint option"
  rn_atoi :: "string \<Rightarrow> goint option"
  rn_portEnv :: string
  rn_desktop :: bool
  rn_cwd :: "string option"
  rn_worker :: "string \<Rightarrow> 'w \<Rightarrow> goerr option \<times> 'w"
  rn_client :: "'w \<Rightarrow> (goerr + client) \<times> 'w"
  rn_close :: "client \<Rightarrow> 'w \<Rightarrow> 'w"
  rn_os :: "'w os_env"
  rn_exec :: "('j, 'w) exec_env"
  rn_now :: "'w \<Rightarrow> gotime \<times> 'w"
  rn_formats :: report_formats
  rn_writers :: "'w writers"
  rn_random :: "goerr + (nat \<Rightarrow> char)"
  rn_listen :: "string \<Rightarrow> goerr + string"

text \<open>How the program ends; a served web interface ends by a signal or by its own shutdown.\<close>

datatype outcome =
    BadFlags
  | WorkerEnded "goerr option"
  | Handled nat string
  | NoPlaybook
  | ServerInitFailed goerr
  | ServerStartFailed goerr
  | Served web_server
  | LoadFailed string goerr
  | InvalidPlaybook "validation_error list"
  | PreprocessFailed goerr
  | ElevationFailed goerr
  | ReportFailed goerr
  | Completed final_result

fun exit_code :: "outcome \<Rightarrow> nat" where
  "exit_code (WorkerEnded None) = 0"
| "exit_code (Handled code _) = code"
| "exit_code (Served _) = 0"
| "exit_code (Completed res) = (if 0 < fr_failed (fin_structured res) then 1 else 0)"
| "exit_code _ = 1"

text \<open>What is printed last; the bullet and the globe are in UTF-8.\<close>

definition bullet :: string where
  "bullet = [CHR 0xE2, CHR 0x80, CHR 0xA2]"

definition sign_globe :: string where
  "sign_globe = [CHR 0xF0, CHR 0x9F, CHR 0x8C, CHR 0x90]"

definition failure_line :: "string \<Rightarrow> string" where
  "failure_line msg = mark_fail @ '' '' @ msg @ nl"

fun outcome_text :: "string \<Rightarrow> outcome \<Rightarrow> string" where
  "outcome_text name (WorkerEnded (Some e)) = failure_line (''Worker Error: '' @ e)"
| "outcome_text name (Handled _ msg) = msg"
| "outcome_text name NoPlaybook =
     failure_line (''Error: No playbook provided. Use '' @ [CHR 0x27] @ name
       @ '' [path/to/playbook.yaml]'' @ [CHR 0x27] @ '' or run '' @ [CHR 0x27] @ name @ '' --ui''
       @ [CHR 0x27])"
| "outcome_text name (ServerInitFailed e) = failure_line (''Failed to initialize Web UI server: '' @ e)"
| "outcome_text name (ServerStartFailed e) = failure_line (''Failed to start Web UI server: '' @ e)"
| "outcome_text name (Served s) =
     sign_globe @ '' Compliance Probe UI is running at:'' @ nl @ ''   '' @ server_url s @ nl @ nl"
| "outcome_text name (LoadFailed path e) =
     failure_line (''Failed to load playbook '' @ path @ '': '' @ e)"
| "outcome_text name (InvalidPlaybook errs) =
     failure_line ''Playbook Validation Failed:''
     @ concat (map (\<lambda>e. ''  '' @ bullet @ '' '' @ validation_error_text e @ nl) errs)"
| "outcome_text name (PreprocessFailed e) = failure_line (''Preprocessing Error: '' @ e)"
| "outcome_text name (ElevationFailed e) = failure_line (''Elevation Setup Error: '' @ e)"
| "outcome_text name (ReportFailed e) = failure_line (''Reporting Error: '' @ e)"
| "outcome_text name _ = []"

section \<open>The headless run\<close>

text \<open>The director of a run that nobody cancels, with the local and the elevated runner.\<close>

definition runner_director :: "('j, 'w) runner_env \<Rightarrow> client option \<Rightarrow> 'w director_env" where
  "runner_director E c =
     director_of
       ((rn_exec E)\<lparr>x_local := local_runner (rn_os E),
                    x_elevated := map_option (elevated_runner (rn_os E)) c\<rparr>)
       (\<lambda>w. (False, w)) (rn_now E) (rn_formats E)"

definition run_and_report ::
    "('j, 'w) runner_env \<Rightarrow> state_manager \<Rightarrow> playbook \<Rightarrow> client option \<Rightarrow> 'w \<Rightarrow> outcome \<times> string \<times> 'w" where
  "run_and_report E sm pb c w =
     (case director_run (runner_director E c) pb w of
        (t, console, w1) \<Rightarrow>
          (let res = fst (generate_report (rn_formats E) t) in
           case dispatch_report (rn_writers E) sm res w1 of
             (Some e, w2) \<Rightarrow> (ReportFailed e, console, w2)
           | (None, w2) \<Rightarrow> (Completed res, console, w2)))"

text \<open>With the elevation, if the playbook asks for it, and its cleanup.\<close>

definition elevated_run ::
    "('j, 'w) runner_env \<Rightarrow> state_manager \<Rightarrow> playbook \<Rightarrow> 'w \<Rightarrow> outcome \<times> string \<times> 'w" where
  "elevated_run E sm pb w =
     (let (fresh, w1) = (if requires_elevation (Some pb) then rn_client E w else (Inl [], w)) in
      case setup_elevation (Some pb) fresh None of
        (Inl e, _) \<Rightarrow> (ElevationFailed e, [], w1)
      | (Inr own, c) \<Rightarrow>
          (case run_and_report E sm pb c w1 of
             (o1, console, w2) \<Rightarrow>
               (o1, console, case c of Some cl \<Rightarrow> (if own then rn_close E cl w2 else w2) | None \<Rightarrow> w2)))"

definition prepared ::
    "'w options \<Rightarrow> string \<Rightarrow> playbook \<Rightarrow> goerr + playbook" where
  "prepared opts path pb =
     (case op_preprocess opts of None \<Rightarrow> Inr pb | Some hook \<Rightarrow> hook pb (path_dir path))"

definition headless ::
    "'w options \<Rightarrow> ('j, 'w) runner_env \<Rightarrow> string \<Rightarrow> string \<Rightarrow> strmap \<Rightarrow> 'w \<Rightarrow> outcome \<times> string \<times> 'w" where
  "headless opts E folder path headers w =
     (case load_config (rn_config E) path headers of
        Inl e \<Rightarrow> (LoadFailed path e, [], w)
      | Inr (pb, raw) \<Rightarrow>
          (let errs = validate (op_isAgent opts) pb;
               sm = set_playbook (rn_cwd E) pb raw errs (new_state_manager (rn_cwd E) folder False)
           in if errs \<noteq> [] then (InvalidPlaybook errs, [], w)
              else (case prepared opts path pb of
                      Inl e \<Rightarrow> (PreprocessFailed e, [], w)
                    | Inr pb' \<Rightarrow> elevated_run E sm pb' w)))"

section \<open>The web interface\<close>

definition ui_port :: "('j, 'w) runner_env \<Rightarrow> goint \<Rightarrow> goint" where
  "ui_port E port =
     (if port \<noteq> 0 \<or> rn_portEnv E = [] then port
      else (case rn_atoi E (rn_portEnv E) of
              Some p \<Rightarrow> if int_lt 0 p then p else port
            | None \<Rightarrow> port))"

definition ui_config :: "('j, 'w) runner_env \<Rightarrow> settings \<Rightarrow> server_config" where
  "ui_config E fs =
     \<lparr>sc_host = flag_text ''127.0.0.1'' ''host'' fs,
      sc_port = ui_port E (case rn_int E (flag_text [] ''port'' fs) of Some p \<Rightarrow> p | None \<Rightarrow> 0),
      sc_token = [], sc_cliFolder = flag_text [] ''folder'' fs, sc_noOpen = flag_bool ''no-open'' fs,
      sc_lifecycle = \<lparr>lc_startupGracePeriod = 0, lc_inactivityTimeout = 0, lc_disableAutoShutdown = False\<rparr>\<rparr>"

definition preload ::
    "'w options \<Rightarrow> ('j, 'w) runner_env \<Rightarrow> string \<Rightarrow> strmap \<Rightarrow> state_manager \<Rightarrow> state_manager" where
  "preload opts E path headers sm =
     (if path = [] then sm
      else (case load_config (rn_config E) path headers of
              Inl e \<Rightarrow>
                set_load_error ErrCodePlaybookParseFailed
                  (''Failed to load playbook '' @ path @ '': '' @ e) NoDetail sm
            | Inr (pb, raw) \<Rightarrow> set_playbook (rn_cwd E) pb raw (validate (op_isAgent opts) pb) sm))"

definition start_ui ::
    "'w options \<Rightarrow> ('j, 'w) runner_env \<Rightarrow> settings \<Rightarrow> string \<Rightarrow> strmap \<Rightarrow> outcome" where
  "start_ui opts E fs path headers =
     (case new_server (rn_random E) (rn_cwd E) (ui_config E fs) no_timers of
        Inl e \<Rightarrow> ServerInitFailed e
      | Inr s \<Rightarrow>
          (let sv = ws_server s;
               s1 = s\<lparr>ws_server := sv\<lparr>sv_state := preload opts E path headers (sv_state sv)\<rparr>\<rparr>
           in case start_server (rn_listen E) s1 of
                (Some e, _) \<Rightarrow> ServerStartFailed e
              | (None, s2) \<Rightarrow> Served s2))"

definition opens_browser :: "('j, 'w) runner_env \<Rightarrow> settings \<Rightarrow> bool" where
  "opens_browser E fs \<longleftrightarrow> \<not> flag_bool ''no-open'' fs \<and> rn_desktop E"

text \<open>The end of the wait: a signal shuts the server down, the server's own shutdown just ends it.\<close>

definition after_wait :: "bool \<Rightarrow> web_server \<Rightarrow> web_server" where
  "after_wait signalled s = (if signalled then fst (shutdown_server s) else s)"

section \<open>\<open>Run\<close>\<close>

definition config_path :: "string list \<Rightarrow> string" where
  "config_path rest = (case rest of [] \<Rightarrow> [] | p # _ \<Rightarrow> p)"

definition ui_wanted :: "('j, 'w) runner_env \<Rightarrow> string list \<Rightarrow> settings \<Rightarrow> string \<Rightarrow> bool" where
  "ui_wanted E args fs path \<longleftrightarrow> flag_bool ''ui'' fs \<or> path = [] \<and> args = [] \<and> rn_desktop E"

definition run_main ::
    "'w options \<Rightarrow> ('j, 'w) runner_env \<Rightarrow> string list \<Rightarrow> settings \<Rightarrow> string \<Rightarrow> 'w
     \<Rightarrow> outcome \<times> string \<times> 'w" where
  "run_main opts E args fs path w =
     (let headers = flags_to_map (flag_all ''H'' fs) in
      if ui_wanted E args fs path then (start_ui opts E fs path headers, [], w)
      else if path = [] then (NoPlaybook, [], w)
      else headless opts E (flag_text [] ''folder'' fs) path headers w)"

definition run_cli ::
    "'w options \<Rightarrow> ('j, 'w) runner_env \<Rightarrow> string list \<Rightarrow> 'w \<Rightarrow> outcome \<times> string \<times> 'w" where
  "run_cli opts E args w =
     (case parse_flags (rn_int E) (standard_flags @ op_flags opts) args of
        None \<Rightarrow> (BadFlags, [], w)
      | Some (fs, rest) \<Rightarrow>
          if flag_text [] ''worker'' fs \<noteq> []
          then (case rn_worker E (flag_text [] ''worker'' fs) w of (e, w1) \<Rightarrow> (WorkerEnded e, [], w1))
          else (case op_handler opts fs w of
                  (Some (code, msg), w1) \<Rightarrow> (Handled code msg, [], w1)
                | (None, w1) \<Rightarrow> run_main opts E args fs (config_path rest) w1))"

section \<open>The two programs\<close>

definition probe_options :: "'w options" where
  "probe_options =
     \<lparr>op_name = ''crobe'', op_isAgent = True, op_preprocess = None, op_flags = [],
      op_handler = (\<lambda>fs w. (None, w))\<rparr>"

definition sign_rocket :: string where
  "sign_rocket = [CHR 0xF0, CHR 0x9F, CHR 0x9A, CHR 0x80]"

definition run_preprocess :: "'w bake_env \<Rightarrow> string \<Rightarrow> string \<Rightarrow> 'w \<Rightarrow> (nat \<times> string) \<times> 'w" where
  "run_preprocess B input output w =
     (case bake_file B input output w of
        (Some e, w1) \<Rightarrow> ((1, failure_line (''Preprocessing Failed: '' @ e)), w1)
      | (None, w1) \<Rightarrow>
          ((0, sign_rocket @ '' Preprocessing Complete! Baked playbook saved to: '' @ output @ nl), w1))"

definition builder_handler ::
    "'w bake_env \<Rightarrow> goerr + string \<Rightarrow> settings \<Rightarrow> 'w \<Rightarrow> (nat \<times> string) option \<times> 'w" where
  "builder_handler B schema fs w =
     (let input = flag_text [] ''input'' fs; output = flag_text [] ''output'' fs in
      if flag_bool ''schema'' fs then
        (case schema of
           Inl e \<Rightarrow> (Some (1, failure_line (''Failed to generate schema: '' @ e)), w)
         | Inr s \<Rightarrow> (Some (0, s @ nl), w))
      else if flag_bool ''preprocess'' fs then
        (if input = [] then (Some (1, failure_line ''Error: --input is required for --preprocess''), w)
         else if output = []
         then (Some (1, failure_line ''Error: --output is required for --preprocess''), w)
         else if path_clean input = path_clean output
         then (Some (1, failure_line ''Error: --input and --output cannot point to the same file''), w)
         else (case run_preprocess B input output w of (r, w1) \<Rightarrow> (Some r, w1)))
      else (None, w))"

definition builder_options :: "'w bake_env \<Rightarrow> goerr + string \<Rightarrow> 'w options" where
  "builder_options B schema =
     \<lparr>op_name = ''crobe-builder'', op_isAgent = False,
      op_preprocess = Some (\<lambda>pb dir. preprocess (be_transpile B) dir pb),
      op_flags = [(''schema'', BoolFlag), (''preprocess'', BoolFlag), (''input'', TextFlag),
                  (''output'', TextFlag)],
      op_handler = builder_handler B schema\<rparr>"

section \<open>A run that nobody cancels\<close>

locale never_cancelled =
  fixes D :: "'w director_env"
  assumes background: "de_cancelled D w = (False, w)"
begin

lemma poll_uncancelled [simp]: "\<not> st_cancelled (poll D st)"
  by (simp add: poll_def background)

lemma side_loop_uncancelled:
  "side_loop D k a es st = (lgs, st') \<Longrightarrow> \<not> st_cancelled st \<Longrightarrow> \<not> st_cancelled st'"
proof (induction es arbitrary: st lgs)
  case (Cons e es)
  obtain lg e' st1 where r: "run_logged D e (poll D st) = (lg, e', st1)"
    by (cases "run_logged D e (poll D st)") auto
  have "\<not> st_cancelled st1" using run_logged_state [OF r] by simp
  then show ?case
    using Cons.prems(1) Cons.IH by (auto simp: r Let_def split: prod.splits option.splits)
qed simp

lemma cmd_loop_uncancelled: "\<not> st_cancelled st \<Longrightarrow> \<not> st_cancelled (cmd_loop D cs st)"
proof (induction cs arbitrary: st)
  case (Cons c cs)
  obtain lg e' st1 where r: "run_logged D (c_exec c) (poll D st) = (lg, e', st1)"
    by (cases "run_logged D (c_exec c) (poll D st)") auto
  have "\<not> st_cancelled (cmd_step D c (poll D st))"
    using run_logged_state [OF r]
    by (cases "l_err lg")
      (auto simp: cmd_step_def r Let_def split: prod.splits dest!: apply_rule_state)
  then show ?case using Cons.IH by (simp add: Let_def)
qed simp

lemma run_assertion_uncancelled:
  "run_assertion D a w evs = (ac, w', evs') \<Longrightarrow> \<not> is_cancelled ac"
  by (auto simp: run_assertion_def run_commands_def Let_def is_cancelled_def
      cmd_loop_uncancelled dest!: side_loop_uncancelled split: prod.splits if_splits)

lemma run_assertions_finish: "fst (run_assertions D i n jas rs) = Finished"
proof (induction jas arbitrary: rs)
  case (Cons ja jas)
  obtain j a where ja: "ja = (j, a)" by (cases ja)
  let ?r = "run_assertion D a (rs_world rs) (rs_events rs @ [OnAssertionStart a (j + 1) n])"
  obtain ac w evs where r: "?r = (ac, w, evs)" by (cases ?r) auto
  have "ac_status ac \<noteq> AssertionStatusCancelled"
    using run_assertion_uncancelled [OF r] by (simp add: is_cancelled_def)
  then show ?case using Cons.IH by (simp add: ja background r [simplified] Let_def)
qed simp

lemma run_sections_finish: "fst (run_sections D n iss rs) = Finished"
proof (induction iss arbitrary: rs)
  case (Cons x iss)
  obtain i s where s: "x = (i, s)" by (cases x)
  show ?case using Cons.IH run_assertions_finish
    by (auto simp: s background Let_def split: prod.split run_end.split) (metis fst_conv run_end.distinct(1))
qed simp

lemma run_completes:
  assumes "run_with_observer D p rid w = (t, evs, w')"
  shows "list_all (\<lambda>ac. \<not> is_cancelled ac) (trace_assertions t)
     \<and> t_totalPassed t = passed_in (trace_assertions t)
     \<and> t_totalFailed t = failed_in (trace_assertions t)"
proof -
  obtain es cl where f: "evs = OnRunStart rid p # es @ [cl]" "closing (de_formats D) rid t cl"
    by (rule run_facts [OF assms])
  have "\<exists>t' rep. last evs = OnRunComplete t' rep"
    using assms run_sections_finish
    by (auto simp: run_with_observer_def Let_def split: prod.splits run_end.splits)
      (metis fst_conv run_end.distinct(1))
  then show ?thesis using f by (auto simp: closing_def)
qed

end

interpretation bg: never_cancelled "runner_director E c"
  for E :: "('j, 'w) runner_env" and c
  by unfold_locales (simp add: runner_director_def director_of_def)

section \<open>The exit code\<close>

lemma ran_report_entries:
  assumes "distinct (map (a_code \<circ> ac_assertion) acs)"
  shows "ran (report_entries acs) = report_entry ` set acs"
proof
  show "ran (report_entries acs) \<subseteq> report_entry ` set acs"
  proof
    fix r assume "r \<in> ran (report_entries acs)"
    then obtain c where c: "report_entries acs c = Some r" by (auto simp: ran_def)
    then have "c \<in> dom (report_entries acs)" by blast
    then obtain a where "a \<in> set acs" "c = a_code (ac_assertion a)"
      by (auto simp: report_entries_dom)
    with c show "r \<in> report_entry ` set acs" using report_entries_lookup [OF assms] by auto
  qed
  show "report_entry ` set acs \<subseteq> ran (report_entries acs)"
    using report_entries_lookup [OF assms] by (auto intro: ranI)
qed

lemma tally_split:
  "list_all (\<lambda>ac. \<not> is_cancelled ac) acs
     \<Longrightarrow> passed_in acs + failed_in acs = length acs \<and> (failed_in acs = 0 \<longleftrightarrow> list_all ac_passed acs)"
  by (induction acs) (auto simp: passed_in_def failed_in_def)

text \<open>What the report of a finished headless run says of the playbook that ran.\<close>

definition reports_all :: "playbook \<Rightarrow> final_report \<Rightarrow> bool" where
  "reports_all pb rep \<longleftrightarrow>
     dom (fr_assertions rep) = set (map a_code (all_assertions pb))
     \<and> fr_passed rep + fr_failed rep = length (all_assertions pb)
     \<and> (fr_failed rep = 0 \<longleftrightarrow> (\<forall>r \<in> ran (fr_assertions rep). ra_passed r))"

lemma run_and_report_all:
  assumes "run_and_report E sm pb c w = (Completed res, console, w')"
    and "distinct (map a_code (all_assertions pb))"
  shows "reports_all pb (fin_structured res)"
proof -
  obtain t evs w1 where t: "run_with_observer (runner_director E c) pb [] w = (t, evs, w1)"
    by (cases "run_with_observer (runner_director E c) pb [] w") auto
  let ?acs = "trace_assertions t"
  have res: "res = fst (generate_report (rn_formats E) t)"
    using assms(1) by (auto simp: run_and_report_def director_run_def t Let_def split: prod.splits option.splits)
  obtain es cl where f: "covered (runner_director E c) (p_sections pb) (t_sections t) es"
    by (rule run_facts [OF t])
  then have acs: "map ac_assertion ?acs = all_assertions pb"
    by (auto simp: covered_def stretch_def trace_assertions_def all_assertions_def)
  then have codes: "map (a_code \<circ> ac_assertion) ?acs = map a_code (all_assertions pb)"
    by (metis map_map)
  have len: "length ?acs = length (all_assertions pb)" using acs by (metis length_map)
  note d = assms(2) [folded codes]
  note ended = bg.run_completes [OF t]
  have "(fr_failed (fin_structured res) = 0) = (\<forall>r \<in> report_entry ` set ?acs. ra_passed r)"
    using ended tally_split [of ?acs] by (simp add: res structured_eq list_all_iff report_entry_def)
  moreover have "dom (report_entries ?acs) = set (map a_code (all_assertions pb))"
    by (simp add: report_entries_dom flip: codes)
  ultimately show ?thesis
    using ended tally_split [of ?acs]
    by (simp add: reports_all_def res structured_eq ran_report_entries [OF d] len)
qed

lemma elevated_run_completed:
  "elevated_run E sm pb w = (Completed res, console, w')
     \<Longrightarrow> \<exists>c w1 w2. run_and_report E sm pb c w1 = (Completed res, console, w2)"
  by (auto simp: elevated_run_def Let_def split: prod.splits sum.splits)

lemma prepared_valid:
  assumes "opts = probe_options \<or> opts = builder_options B schema"
    and "validate (op_isAgent opts) pb0 = []" and "prepared opts path pb0 = Inr pb"
  shows "valid_playbook True pb"
  using assms preprocess_valid [of "be_transpile B" "path_dir path" pb0 pb]
  by (auto simp: probe_options_def builder_options_def prepared_def validate_valid)

text \<open>
  C38: A headless run of either program that gets to the end of its playbook has run a playbook
  an agent accepts: the loaded one, preprocessed by the builder. Its report has one entry for each
  assertion, its totals add up to their number, and the exit code is 0 exactly if all of them
  passed.
\<close>

theorem headless_exit_code:
  assumes "opts = probe_options \<or> opts = builder_options B schema"
    and "headless opts E folder path headers w = (Completed res, console, w')"
  shows "\<exists>raw pb0 pb. load_config (rn_config E) path headers = Inr (pb0, raw)
    \<and> prepared opts path pb0 = Inr pb \<and> valid_playbook True pb
    \<and> reports_all pb (fin_structured res)
    \<and> (exit_code (Completed res) = 0 \<longleftrightarrow> (\<forall>r \<in> ran (fr_assertions (fin_structured res)). ra_passed r))"
proof -
  from assms(2) obtain pb0 raw pb sm where h: "load_config (rn_config E) path headers = Inr (pb0, raw)"
    "validate (op_isAgent opts) pb0 = []" "prepared opts path pb0 = Inr pb"
    "elevated_run E sm pb w = (Completed res, console, w')"
    by (auto simp: headless_def Let_def split: sum.splits prod.splits if_splits)
  note v = prepared_valid [OF assms(1) h(2,3)]
  then have d: "distinct (map a_code (all_assertions pb))" by (simp add: valid_playbook_def)
  obtain c w1 w2 where r: "run_and_report E sm pb c w1 = (Completed res, console, w2)"
    using elevated_run_completed [OF h(4)] by blast
  have "reports_all pb (fin_structured res)" by (rule run_and_report_all [OF r d])
  moreover from this have "exit_code (Completed res) = 0
      \<longleftrightarrow> (\<forall>r \<in> ran (fr_assertions (fin_structured res)). ra_passed r)"
    by (cases "fr_failed (fin_structured res)") (auto simp: reports_all_def)
  ultimately show ?thesis
    by (intro exI [of _ raw] exI [of _ pb0] exI [of _ pb] conjI h(1,3) v)
qed

text \<open>A playbook file with one assertion, run headless by the agent.\<close>

definition demo_runner :: "(string, int) runner_env" where
  "demo_runner =
     \<lparr>rn_config = \<lparr>ce_read = (\<lambda>p. Inr []), ce_request = (\<lambda>u. None), ce_get = (\<lambda>r. Inl []),
                   ce_decoders = \<lparr>dec_json = (\<lambda>d. Inl []), dec_yaml = (\<lambda>d. Inr sample_playbook)\<rparr>\<rparr>,
      rn_int = (\<lambda>s. None), rn_atoi = (\<lambda>s. None), rn_portEnv = [], rn_desktop = False,
      rn_cwd = Some ''/'', rn_worker = (\<lambda>u w. (None, w)), rn_client = (\<lambda>w. (Inl ''denied'', w)),
      rn_close = (\<lambda>c w. w), rn_os = bell_os, rn_exec = sample_env, rn_now = (\<lambda>w. (w, w + 1)),
      rn_formats = sample_formats, rn_writers = plain_writers, rn_random = Inl ''no entropy'',
      rn_listen = (\<lambda>a. Inr a)\<rparr>"

lemma demo_loads: "load_config (rn_config demo_runner) ''pb.yaml'' headers = Inr (sample_playbook, [])"
proof -
  have "has_suffix (to_lower ''pb.yaml'') ''.json'' = False"
    "has_prefix (to_lower []) ''application/json'' = False" by (code_simp, code_simp)
  moreover have "has_prefix ''pb.yaml'' ''https://'' = False" "has_prefix ''pb.yaml'' ''http://'' = False"
    by (code_simp, code_simp)
  ultimately show ?thesis
    by (simp add: demo_runner_def load_config_def read_source_def is_json_source_def decode_playbook_def)
qed

lemma demo_headless:
  "\<exists>res out. headless probe_options demo_runner [] ''pb.yaml'' [] 0 = (Completed res, out)"
proof -
  have e: "requires_elevation (Some sample_playbook) = False"
    by (simp add: requires_elevation_def elevation_stats_def sample_playbook_def plain_assertion_def
        plain_cmd_def plain_exec_def elev_section_def elev_assertion_def elev_exec_def)
  let ?sm = "set_playbook (Some ''/'') sample_playbook [] [] (new_state_manager (Some ''/'') [] False)"
  have d: "fst (dispatch_report plain_writers ?sm res w) = None" for res w
    by (simp add: dispatch_report_def dispatch_https_step_def set_playbook_def cli_destination_def
        new_state_manager_def sample_playbook_def plain_writers_def playbook_enums Let_def split: prod.split)
  have "\<exists>res out. run_and_report demo_runner ?sm sample_playbook None 0 = (Completed res, out)"
    using d by (auto simp: run_and_report_def Let_def demo_runner_def split: prod.split option.split)
      (metis fst_conv option.distinct(1))
  then obtain res console w where
    r: "run_and_report demo_runner ?sm sample_playbook None 0 = (Completed res, console, w)" by auto
  have c: "rn_cwd demo_runner = Some ''/''" by (simp add: demo_runner_def)
  have v: "validate True sample_playbook = []" by (simp add: validate_valid sample_playbook_valid)
  have "elevated_run demo_runner ?sm sample_playbook 0 = (Completed res, console, w)"
    by (simp add: elevated_run_def e setup_elevation_def r)
  then show ?thesis
    by (simp add: headless_def demo_loads probe_options_def prepared_def v c)
qed

lemma headless_exit_code_witness:
  "\<exists>res out. headless probe_options demo_runner [] ''pb.yaml'' [] 0 = (Completed res, out)
     \<and> reports_all sample_playbook (fin_structured res)"
proof -
  obtain res console w' where h: "headless probe_options demo_runner [] ''pb.yaml'' [] 0
      = (Completed res, console, w')" using demo_headless by (metis prod.exhaust)
  obtain raw pb0 pb where "load_config (rn_config demo_runner) ''pb.yaml'' [] = Inr (pb0, raw)"
    "prepared (probe_options :: int options) ''pb.yaml'' pb0 = Inr pb" "reports_all pb (fin_structured res)"
    using headless_exit_code [OF disjI1 [OF refl] h] by blast
  then show ?thesis using h by (auto simp: demo_loads prepared_def probe_options_def)
qed

section \<open>The web interface of the builder\<close>

text \<open>
  A playbook given to \<open>crobe-builder --ui\<close> is loaded as it is: it is not preprocessed, and only
  checked as a source playbook. A playbook with references to script files, which the server
  refuses to load by upload, is ready to run there, and its references are never resolved.
\<close>

lemma builder_ui_loads_sources:
  assumes "load_config (rn_config E) path headers = Inr (pb, raw)" and "path \<noteq> []"
    and "valid_playbook False pb"
  shows "sm_playbook (preload (builder_options B schema) E path headers sm) = Some pb
    \<and> run_refusal ''POST'' (preload (builder_options B schema) E path headers sm) = None"
  using assms
  by (simp add: preload_def builder_options_def validate_valid [THEN iffD2] set_playbook_def Let_def
      run_refusal_def first_validation_error_def busy_status_def)

section \<open>The server that is served\<close>

text \<open>
  The server of the web interface starts in one of the states that ServerRuns starts from, with
  the validation of its program, whatever was given to preload.
\<close>

lemma served_system_starts:
  assumes "start_ui opts E fs path headers = Served s"
  shows "sys_starts (op_isAgent opts) (idle_system (ws_server s))"
proof -
  obtain s0 where n: "new_server (rn_random E) (rn_cwd E) (ui_config E fs) no_timers = Inr s0"
    and w: "ws_server s = (ws_server s0)
      \<lparr>sv_state := preload opts E path headers (sv_state (ws_server s0))\<rparr>"
    using assms
    by (auto simp: start_ui_def start_server_def Let_def split: sum.splits prod.splits option.splits
        if_splits)
  obtain cli where s0: "ws_server s0 = new_ui_server (rn_cwd E) cli"
    using n by (auto simp: new_server_def new_ui_server_def split: sum.splits prod.splits)
  have sv: "sv_state (new_ui_server (rn_cwd E) cli) = new_state_manager (rn_cwd E) cli True"
    by (simp add: new_ui_server_def)
  show ?thesis
  proof (cases "path = []")
    case True
    then show ?thesis
      using starts_empty [of "op_isAgent opts" "rn_cwd E" cli]
      by (simp add: w s0 preload_def system_start_def new_ui_server_def)
  next
    case False
    then show ?thesis
      by (cases "load_config (rn_config E) path headers")
        (auto simp: w s0 sv preload_def intro: starts_loaded starts_failed)
  qed
qed

end
