(* ===== verification/Limits.thy ===== *)
theory Limits
  imports DirectorScore ServerHandlers Elevation
begin

text \<open>
  Where the program counts: scores that are sums of machine integers (\<open>director/director.go\<close>), the
  redirects of a remote fetch (\<open>internal/server/handlers_playbook.go\<close>) and the attempts of the
  worker to connect (\<open>internal/elevation/worker.go\<close>).
\<close>

section \<open>Scores\<close>

text \<open>No command contributes more than \<open>B\<close>, and not even all together reach 64 bits.\<close>

definition small_scores :: "int \<Rightarrow> assertion \<Rightarrow> bool" where
  "small_scores B a \<longleftrightarrow>
     list_all (\<lambda>c. \<bar>sint (get_pass_score c)\<bar> \<le> B \<and> \<bar>sint (get_fail_score c)\<bar> \<le> B) (a_cmds a)
     \<and> B * int (length (a_cmds a)) < 2 ^ 63"

definition command_share :: "cmd \<Rightarrow> int \<Rightarrow> bool" where
  "command_share c x \<longleftrightarrow> x = 0 \<or> x = sint (get_pass_score c) \<or> x = sint (get_fail_score c)"

text \<open>The score as an integer: one share of each command, at most \<open>B\<close> each.\<close>

definition exact_score :: "int \<Rightarrow> assertion_context \<Rightarrow> bool" where
  "exact_score B ac \<longleftrightarrow>
     (\<exists>xs. list_all2 command_share (a_cmds (ac_assertion ac)) xs \<and> sint (ac_score ac) = sum_list xs)
     \<and> \<bar>sint (ac_score ac)\<bar> \<le> B * int (length (a_cmds (ac_assertion ac)))"

lemma cmd_step_share:
  "\<exists>y. st_score (cmd_step D c st) = st_score st + y \<and> command_share c (sint y)"
proof -
  obtain lg e' st1 where r: "run_logged D (c_exec c) st = (lg, e', st1)"
    by (cases "run_logged D (c_exec c) st") auto
  show ?thesis
    using run_logged_state [OF r]
    by (cases "l_err lg")
      (auto simp: cmd_step_def r Let_def score_of_def command_share_def split: prod.splits
        dest!: apply_rule_state)
qed

lemma no_shares: "\<exists>xs. list_all2 command_share cs xs \<and> sum_list xs = 0"
  by (rule exI [of _ "map (\<lambda>c. 0) cs"]) (induction cs; simp add: command_share_def)

lemma cmd_loop_exact:
  assumes "list_all (\<lambda>c. \<bar>sint (get_pass_score c)\<bar> \<le> B \<and> \<bar>sint (get_fail_score c)\<bar> \<le> B) cs"
    and "\<bar>sint (st_score st)\<bar> + B * int (length cs) < 2 ^ 63"
  shows "\<exists>xs. list_all2 command_share cs xs
    \<and> sint (st_score (cmd_loop D cs st)) = sint (st_score st) + sum_list xs"
  using assms
proof (induction cs arbitrary: st)
  case (Cons c cs)
  note p = poll_state [of D st]
  show ?case
  proof (cases "st_cancelled (poll D st)")
    case True
    then show ?thesis using p no_shares [of "c # cs"] by (auto simp: Let_def)
  next
    case False
    let ?s = "cmd_step D c (poll D st)"
    obtain y where y: "st_score ?s = st_score st + y" "command_share c (sint y)"
      using cmd_step_share [of D c "poll D st"] p by auto
    have b: "\<bar>sint y\<bar> \<le> B" using y(2) Cons.prems(1) by (auto simp: command_share_def)
    have len: "\<bar>sint (st_score st)\<bar> + B + B * int (length cs) < 2 ^ 63"
      using Cons.prems(2) by (simp add: algebra_simps)
    have "0 \<le> B" using b by linarith
    then have n: "0 \<le> B * int (length cs)" by simp
    have "fits64 (sint (st_score st) + sint y)" unfolding fits64_def using b len n by linarith
    then have s: "sint (st_score ?s) = sint (st_score st) + sint y" by (simp add: y(1) sint_add_fits)
    have "\<bar>sint (st_score ?s)\<bar> + B * int (length cs) < 2 ^ 63" using s b len by linarith
    then obtain xs where "list_all2 command_share cs xs"
      "sint (st_score (cmd_loop D cs ?s)) = sint (st_score ?s) + sum_list xs"
      using Cons.IH [of ?s] Cons.prems(1) by auto
    then show ?thesis using False y(2) s by (intro exI [of _ "sint y # xs"]) (simp add: Let_def)
  qed
qed simp

lemma shares_bounded:
  assumes "list_all (\<lambda>c. \<bar>sint (get_pass_score c)\<bar> \<le> B \<and> \<bar>sint (get_fail_score c)\<bar> \<le> B) cs"
    and "list_all2 command_share cs xs"
  shows "\<bar>sum_list xs\<bar> \<le> B * int (length cs)"
  using assms(2,1)
  by (induction rule: list_all2_induct) (auto simp: command_share_def algebra_simps)

lemma run_assertion_exact:
  assumes "run_assertion D a w evs = (ac, w', evs')" and "small_scores B a"
  shows "exact_score B ac"
proof -
  obtain w0 pre st1 st2 post st3 where p:
    "side_loop D ''PreCmd'' a (a_preCmds a)
       \<lparr>st_world = w0, st_ctx = Map.empty, st_score = 0, st_cancelled = False,
        st_cmdLogs = [], st_outputs = [], st_events = evs\<rparr> = (pre, st1)"
    "st2 = (if st_cancelled st1 then st1 else cmd_loop D (a_cmds a) st1)"
    "(post, st3) = (if st_cancelled st2 then ([], st2)
                    else side_loop D ''PostCmd'' a (a_postCmds a) st2)"
    "ac_assertion ac = a"
    "ac_score ac = (if st_cancelled st3 then 0 else st_score st3)"
    by (rule run_assertion_parts [OF assms(1)]) blast
  have z: "st_score st1 = 0" using side_loop_state [OF p(1)] by simp
  have small: "list_all (\<lambda>c. \<bar>sint (get_pass_score c)\<bar> \<le> B \<and> \<bar>sint (get_fail_score c)\<bar> \<le> B) (a_cmds a)"
    "B * int (length (a_cmds a)) < 2 ^ 63" using assms(2) by (simp_all add: small_scores_def)
  have two: "\<exists>xs. list_all2 command_share (a_cmds a) xs \<and> sint (st_score st2) = sum_list xs"
    using cmd_loop_exact [OF small(1), of st1 D] small(2) z p(2) no_shares [of "a_cmds a"]
    by (cases "st_cancelled st1") auto
  have "st_score st3 = st_score st2"
    using p(3) side_loop_state [of D "''PostCmd''" a "a_postCmds a" st2 post st3]
    by (auto split: if_splits)
  then obtain xs where xs: "list_all2 command_share (a_cmds a) xs" "sint (ac_score ac) = sum_list xs"
    using two no_shares [of "a_cmds a"] p(5) by (cases "st_cancelled st3") auto
  then show ?thesis using shares_bounded [OF small(1) xs(1)] by (auto simp: exact_score_def p(4))
qed

lemma cancelled_exact: "small_scores B a \<Longrightarrow> exact_score B (cancelled_context a)"
  using no_shares [of "a_cmds a"] shares_bounded [of B "a_cmds a"]
  by (fastforce simp: exact_score_def cancelled_context_def small_scores_def)

lemma cancelled_assertion: "ac_assertion (cancelled_context a) = a"
  by (simp add: cancelled_context_def)

text \<open>
  C5: Scores do not wrap around: where no command of an assertion contributes more than some
  bound in either direction and the bound times the number of commands stays below 64 bits,
  the score of every record is, as an integer, the sum of one share of each command, its pass
  score, its fail score or nothing, whatever scripts and rules decide.
\<close>

theorem scores_do_not_wrap:
  assumes "list_all (small_scores B) (all_assertions p)"
  shows "case run_with_observer D p rid w of (t, evs, w') \<Rightarrow> list_all (exact_score B) (trace_assertions t)"
proof -
  obtain t evs w' where r: "run_with_observer D p rid w = (t, evs, w')"
    by (cases "run_with_observer D p rid w") auto
  have "list_all (\<lambda>ac. small_scores B (ac_assertion ac) \<longrightarrow> exact_score B ac) (trace_assertions t)"
  proof (rule list_all_run [OF _ _ r])
    show "small_scores B (ac_assertion ac) \<longrightarrow> exact_score B ac"
      if a: "run_assertion D a w evs = (ac, w', evs')" for a w evs ac w' evs'
    proof -
      have "ac_assertion ac = a" by (rule run_assertion_parts [OF a])
      then show ?thesis using run_assertion_exact [OF a] by simp
    qed
  qed (simp add: cancelled_exact cancelled_assertion)
  moreover obtain es cl where "covered D (p_sections p) (t_sections t) es"
    by (rule run_facts [OF r])
  then have "map ac_assertion (trace_assertions t) = all_assertions p"
    by (auto simp: covered_def stretch_def trace_assertions_def all_assertions_def)
  then have "list_all (\<lambda>ac. small_scores B (ac_assertion ac)) (trace_assertions t)"
    using assms by (auto simp: list_all_iff simp flip: \<open>map ac_assertion (trace_assertions t) = all_assertions p\<close>)
  ultimately have "list_all (exact_score B) (trace_assertions t)" by (auto simp: list_all_iff)
  then show ?thesis by (simp add: r)
qed

lemma scores_do_not_wrap_witness:
  "case run_with_observer sample_director sample_playbook ''r1'' 0 of (t, evs, w') \<Rightarrow>
     list_all (exact_score 1) (trace_assertions t)"
  by (rule scores_do_not_wrap)
    (simp add: small_scores_def sample_playbook_def all_assertions_def plain_assertion_def
      plain_cmd_def get_pass_score_def get_fail_score_def)

section \<open>Redirects\<close>

lemma follow_redirects_spec:
  "case follow_redirects made targets of (urls, err) \<Rightarrow>
     prefix urls targets \<and> length urls \<le> 5 - made \<and> list_all (\<lambda>t. fst t = ''https'') urls
     \<and> (err = None \<longleftrightarrow> urls = targets)"
proof (induction made targets rule: follow_redirects.induct)
  case (2 made scheme url targets)
  show ?case
  proof (cases "check_redirect made scheme url")
    case None
    then have "made < 5" "scheme = ''https''" by (auto simp: check_redirect_def split: if_splits)
    then show ?thesis using "2.IH" [OF None] None by (auto split: prod.splits)
  qed simp
qed simp

text \<open>
  C39: A remote fetch makes at most five requests, follows redirects only to HTTPS addresses and in
  the order given, and reports an error exactly if it did not follow them all.
\<close>

theorem redirects_bounded:
  "case follow_redirects 1 targets of (urls, err) \<Rightarrow>
     prefix urls targets \<and> 1 + length urls \<le> 5 \<and> list_all (\<lambda>t. fst t = ''https'') urls
     \<and> (err = None \<longleftrightarrow> urls = targets)"
  using follow_redirects_spec [where made = 1 and targets = targets] by (auto split: prod.splits)

section \<open>Connecting\<close>

text \<open>A dial whose attempts succeed or fail as a script says; the world counts them.\<close>

definition scripted :: "(nat \<Rightarrow> goerr option) \<Rightarrow> nat \<Rightarrow> goerr option \<times> nat" where
  "scripted script n = (script n, Suc n)"

lemma dial_loop_spec:
  "case dial_loop k (scripted script) err n of (r, m) \<Rightarrow>
     m \<le> n + k \<and> (0 < k \<longrightarrow> n < m) \<and> list_all (\<lambda>i. script i \<noteq> None) [n..<m - 1]
     \<and> (r = None \<longleftrightarrow> (\<exists>i. n \<le> i \<and> i < n + k \<and> script i = None))
     \<and> (0 < k \<longrightarrow> r = script (m - 1))"
proof (induction k arbitrary: err n)
  case (Suc k)
  show ?case
  proof (cases "script n")
    case None
    then show ?thesis by (auto simp: scripted_def)
  next
    case (Some e)
    obtain r m where d: "dial_loop k (scripted script) e (Suc n) = (r, m)"
      by (cases "dial_loop k (scripted script) e (Suc n)")
    show ?thesis
    proof (cases k)
      case 0
      then show ?thesis using Some by (auto simp: scripted_def less_Suc_eq_le dest: le_antisym)
    next
      case (Suc k')
      then have h: "m \<le> Suc n + k" "Suc n < m" "list_all (\<lambda>i. script i \<noteq> None) [Suc n..<m - 1]"
        "r = None \<longleftrightarrow> (\<exists>i. Suc n \<le> i \<and> i < Suc n + k \<and> script i = None)" "r = script (m - 1)"
        using Suc.IH [where err = e and n = "Suc n"] d by auto
      have "[n..<m - 1] = n # [Suc n..<m - 1]" using h(2) by (simp add: upt_rec)
      moreover have "(\<exists>i. n \<le> i \<and> i < n + Suc k \<and> script i = None)
          \<longleftrightarrow> (\<exists>i. Suc n \<le> i \<and> i < Suc n + k \<and> script i = None)"
        using Some by (metis Suc_leI add_Suc_right add_Suc le_neq_implies_less option.distinct(1) Suc_leD)
      ultimately show ?thesis using h d Some by (simp add: scripted_def [abs_def])
    qed
  qed
qed simp

text \<open>
  C40: The worker stops dialling after the first success and after twenty attempts at the latest;
  it goes on exactly if one of the first twenty attempts succeeds, and otherwise returns the error
  of the last one.
\<close>

theorem worker_dials_at_most_twenty:
  "case dial_worker uri (scripted script) 0 of (r, m) \<Rightarrow>
     1 \<le> m \<and> m \<le> 20 \<and> list_all (\<lambda>i. script i \<noteq> None) [0..<m - 1]
     \<and> (r = None \<longleftrightarrow> (\<exists>i < 20. script i = None))
     \<and> r = map_option (\<lambda>e. ''worker failed to connect to coordinator at '' @ uri @ '': '' @ e) (script (m - 1))"
  using dial_loop_spec [where k = 20 and script = script and err = "[]" and n = 0]
  by (auto simp: dial_worker_def split: prod.splits option.splits)

end
