(* ===== verification/Spec2Isabelle.thy ===== *)
theory Spec2Isabelle
  imports DirectorScore Redaction Validator LocalRunner Lifecycle ServerRuns Transpile ElevationLink Runner Limits
begin

text \<open>
  A verification of Compliance Probe (\<open>crobe\<close>): a program that runs the commands of a playbook on a
  machine, scores their results against the playbook's assertions and delivers a report. Two
  programs share the code, the agent \<open>crobe\<close> and the authoring tool \<open>crobe-builder\<close>; each runs
  headless or behind a web interface. All paths are under \<open>src/\<close>.

  How the parts interact. The runner (\<open>internal/runner\<close>) loads a playbook (\<open>internal/configsource\<close>),
  validates it (\<open>playbook\<close>), starts an elevated worker if a command needs one (\<open>internal/elevation\<close>)
  and has the director (\<open>director\<close>) run it. The director goes through sections, assertions and
  commands, calls the executor (\<open>executor\<close>) for each command, tells an observer what happens and
  leaves an execution trace, of which \<open>report\<close> makes the report. A state manager
  (\<open>internal/server\<close>) decides where the report goes, and \<open>internal/reportwriter\<close> writes it to a
  folder or submits it, signed, over HTTPS. In the web interface the same state manager, the handlers,
  the event broker and the lifecycle manager work behind an HTTP server. The builder
  also replaces references to script files by transpiled code (\<open>internal/transpile\<close>).

  Foundations:
  \<^item> Prelude: machine integers (Go's \<open>int\<close> as a 64-bit word), times, option and list lemmas, the
    locale \<open>inductive_invariant\<close> for invariants over reachable states.
  \<^item> GoStrings, GoPath, GoEncoding: the string, path and encoding functions of Go's library that the
    code calls (on byte strings: trimming, splitting, UTF-8 decoding, decimal numbers, path cleaning,
    hex, base64 with its round trip, SHA-256, HMAC).

  Playbooks and runs:
  \<^item> Playbook (\<open>playbook/playbook_types.go\<close>, \<open>playbook_elevation.go\<close>): the types, the default scores,
    the elevation statistics.
  \<^item> Validator (\<open>playbook/validator.go\<close>): \<open>Validate\<close> with its messages, and a declarative
    specification of valid playbooks that it is proved equivalent to.
  \<^item> TraceTypes (\<open>executor/trace_types.go\<close>): statuses with their codecs, command logs, records.
  \<^item> Executor (\<open>executor/executor.go\<close>, \<open>functionRunner.go\<close>) and LocalRunner (\<open>exec_runner.go\<close>): one
    command, from its script to its cleaned output.
  \<^item> Report (\<open>report/report.go\<close>): the Markdown, the log and the structured report.
  \<^item> Director (\<open>director/director.go\<close>, \<open>observer.go\<close>) with DirectorRun (what a whole run leaves:
    records, events, totals, cancellation), DirectorScore (what a verdict depends on) and Redaction
    (what the exclusion flags keep out of the reports).

  The server:
  \<^item> ServerState (\<open>state.go\<close>, \<open>types.go\<close>): the state manager, destinations, report dispatch.
  \<^item> Destination (\<open>remote_destination.go\<close>): the checks of a destination given by a client.
  \<^item> EventBroker (\<open>events.go\<close>), Lifecycle (\<open>lifecycle.go\<close>): bounded subscriptions with numbered events;
    the timers of the automatic shutdown, where the decision to shut down and the call are two steps.
    Both are given as operations and as transition systems.
  \<^item> ServerObserver, ServerHandlers, ServerRuns (\<open>handlers_*.go\<close>, \<open>archive.go\<close>): the observer of a run,
    the request handlers, and their interleaving with runs, submissions, subscriptions and a shutdown.
    A handler that gives up the lock between a check and its effect, or between a change of status and
    its effect (loading, changing the destination, cancelling), is two steps, as in the code; a
    broadcast is one step with the critical section it follows.
  \<^item> Access (\<open>auth.go\<close>, \<open>server.go\<close>): tokens, cookies, routing, start and shutdown.

  The command line:
  \<^item> ReportWriter (\<open>internal/reportwriter\<close>): folder and HTTPS writers, down to the bytes of the body,
    with the redirects that the HTTP client follows by default.
  \<^item> ConfigSource (\<open>internal/configsource\<close>, \<open>internal/headerflags\<close>), Transpile (\<open>internal/transpile\<close>).
  \<^item> Elevation, ElevationLink (\<open>internal/elevation\<close>): client and worker as functions, then as one
    system with cancellations, crashes and a shutdown in any order.
  \<^item> Runner (\<open>internal/runner\<close>, \<open>cmd/probe\<close>, \<open>cmd/builder\<close>): flags, modes, the headless run, exit codes.

  Limits: scores that do not wrap around, bounded redirects and bounded attempts to connect.

  Conventions. A Go function is a definition of its name in lower case with underscores, a struct a
  record whose fields carry a prefix, a named string type a string. A Go \<open>error\<close> is its text: a
  fallible function gives a sum with the error on the left, or an optional error. What lies outside
  the program (file system, processes, clock, network, JavaScript engine, regular expressions, YAML
  and JSON decoders) is a parameter, grouped in one environment record per theory, with the state of
  the world passed through as \<open>'w\<close> where calls change it. A handler that works between two critical
  sections is split at them, and ServerRuns, Lifecycle, EventBroker and ElevationLink let the parts
  interleave. A caller that relies on another part states its contract as a locale, interpreted on
  the definitions of the part that provides it.

  What is shown. Runs: every assertion is recorded once, in order, also when the run is cancelled
  anywhere; events and totals agree with the trace; scores are the sums the rules define; the
  streams of excluded commands and the keys of excluded gathers reach no report and no completion
  event (values that other gathers or scripts derive from such streams do). Playbooks: the validator
  accepts exactly the specification, baking yields what an agent accepts. Server: only playbooks
  that passed the validation of their program run, also preloaded ones; runs and submissions go one
  at a time unless a load that passed its check earlier overtakes one, which the code allows and a
  theorem exhibits; requests whose check finds the server busy are refused, and a busy server
  keeps playbook and destination unless such a load or update is pending; clients get events in order; an automatic shutdown is only called after an idle countdown and a decision at an idle
  moment, though a client may still come between decision and call; an idle server always counts
  down; no handler is reached without the token; no secret is shown. Delivery: one destination on
  the command line, signed submissions that a receiver can verify, at most ten requests of which
  the first goes to the configured HTTPS address, exit code 0 exactly if all assertions passed.
  Elevation: an elevated command gives what a local one would, and a call is never answered with
  another's result. Some lemmas record where the code falls short of its intent: a check and a load
  in separate critical sections, stale timer callbacks, a shutdown called under a client, a report
  sent on to an address that is not HTTPS, a baked playbook written over its source, a completion
  event sent too early, a stale report date, a shutdown that signals its end before it cancels the
  run, a cookie that hides a valid header, and source playbooks that the builder's web interface
  loads as they are.

  Bounds. Loops over lists are structural recursions; the others have a measure (the length of the
  rest of the string). The worker dials twenty times, a remote fetch makes at most five requests and a
  submission ten (the limit of Go's default client, \<open>max_requests\<close>, which counts down in
  \<open>client_do\<close> and ends it with an error as the client does), event queues hold 128 events and
  downloads are cut at 5 MiB. No definition needs fuel beyond these bounds of the code.

  Not modelled. System calls that start or kill processes or open sockets and browsers
  (\<open>exec_runner_posix.go\<close>, \<open>exec_runner_windows.go\<close>, \<open>spawn_*.go\<close>, \<open>transport_*.go\<close>,
  \<open>internal/desktop\<close>), the JSON schema generated by a library (\<open>playbook/schema.go\<close>), the embedded
  web page, the heartbeat comments of the event stream and the read and write timeouts of the HTTP
  server. \<open>ce_get\<close>, by which ConfigSource fetches a playbook, stands for the whole exchange of the
  default client with its redirects, which may lead to addresses that are not HTTPS. ServerRuns
  starts with an empty server or with one that \<open>Run\<close> preloaded, as a lemma of Runner shows for
  \<open>start_ui\<close>. The composed loading handlers of ServerHandlers are check and load in one; the system
  of ServerRuns uses the two parts. A run in LocalRunner that makes Go panic is an error of its
  command in the runner passed to the director; when it happens is a theorem of its own.
\<close>

section \<open>Properties that span components\<close>

definition https_playbook :: playbook where
  "https_playbook = sample_playbook\<lparr>p_reportDestination := report_destination_https,
     p_reportDestinationHTTPS := Some \<lparr>d_url = ''https://x'', d_format = [], d_signatureSecret = [],
                                       d_additionalHeaders = []\<rparr>\<rparr>"

lemma https_playbook_valid: "valid_playbook True https_playbook"
  using sample_playbook_valid
  by (simp add: valid_playbook_def https_playbook_def destination_ok_def https_ok_def all_assertions_def)

lemma cli_dispatch_single_witness:
  "\<forall>res. dispatch_report plain_writers
      (set_playbook None https_playbook [] [] (new_state_manager None [] False)) res 5 = (None, 7)"
proof
  fix res
  have f: "sm_isUI (new_state_manager None [] False) = False"
    "sm_cliFolder (new_state_manager None [] False) = []" by (simp_all add: new_state_manager_def)
  have "dispatch_report plain_writers
      (set_playbook None https_playbook [] [] (new_state_manager None [] False)) res 5
    = single_write plain_writers None [] https_playbook res 5"
    by (rule cli_dispatch_single [OF https_playbook_valid f(1), unfolded f(2)])
  also have "\<dots> = (None, 7)"
    by (simp add: single_write_def https_playbook_def dispatch_http_def plain_writers_def)
  finally show "dispatch_report plain_writers
      (set_playbook None https_playbook [] [] (new_state_manager None [] False)) res 5 = (None, 7)" .
qed

end
